(* ===== verification/Prelude.thy ===== *)
theory Prelude
  imports Main "HOL-Library.Word" "HOL-Library.Sublist"
begin

text \<open>
  Shared vocabulary of the development: Go's machine integers, strings and error values,
  the parts of the standard packages \<open>strings\<close> and \<open>errors\<close> the server
  calls, and the generic lemmas on lists and result values that the component theories use.

  A Go \<open>string\<close> is a list of bytes, here \<^typ>\<open>string\<close> (a \<^typ>\<open>char\<close> is a byte). A call
  that returns \<open>(T, error)\<close> is a value of type \<open>err + T\<close>; a call that
  may also change state returns the pair of that value and the new state, because Go keeps
  the state changes made before an error return.
\<close>

section \<open>Types\<close>

type_synonym uint8 = "8 word"
type_synonym uint64 = "64 word"
type_synonym int64 = "64 word" \<comment> \<open>two's complement; read with \<open>sint\<close>\<close>

text \<open>
  The error codes of Linea-core that the server names. \<open>CodeOther\<close> stands for every
  code the server never mentions.
\<close>

datatype lcode =
    CodeNoKnownConnection
  | CodePersonNotFound
  | CodeRelationshipNotFound
  | CodeSourceNotFound
  | CodeProposalNotFound
  | CodeVersionNotFound
  | CodeInvalidArgument
  | CodeForbiddenRelationship
  | CodeInvalidTransition
  | CodeImmutableTerminalProposal
  | CodeCycleDetected
  | CodeFabricationAttempt
  | CodeOther string

text \<open>The gRPC status codes the server produces or inspects.\<close>

datatype gcode =
    OK | Unknown | NotFound | InvalidArgument | FailedPrecondition
  | Unauthenticated | PermissionDenied | ResourceExhausted | GCodeOther nat

text \<open>Errors of the embedded Badger database: the sentinel the server tests for, and the rest.\<close>

datatype berr = BErrKeyNotFound | BErrOther string

text \<open>
  Error values. The first four are the sentinel variables of the server's packages,
  \<open>ErrNew\<close> is a fresh \<open>errors.New\<close> value, \<open>Wrap\<close> is
  \<open>fmt.Errorf\<close> with a \<open>%w\<close> verb, \<open>LError\<close> is a Linea-core
  \<open>*errors.Error\<close>, \<open>StatusError\<close> a gRPC status error, and \<open>ErrExt\<close>
  an error made by another library (the OIDC verifier, the operating system).
\<close>

datatype err =
    ErrNotFound
  | ErrNotAllowed
  | ErrQuotaExceeded
  | ErrShutdown
  | ErrNew string
  | ErrJson
  | ErrBadger berr
  | ErrExt string
  | Wrap string err
  | LError lcode string
  | StatusError gcode string

text \<open>\<open>errors.Is\<close>: the error itself or anything it wraps is the target.\<close>

fun errors_Is :: "err \<Rightarrow> err \<Rightarrow> bool" where
  "errors_Is (Wrap s e) t = (Wrap s e = t \<or> errors_Is e t)"
| "errors_Is e t = (e = t)"

lemma errors_Is_refl [simp]: "errors_Is e e"
  by (cases e) simp_all

text \<open>The empty \<open>err + unit\<close> value, Go's \<open>nil\<close> error.\<close>

abbreviation nil_err :: "err + unit" where
  "nil_err \<equiv> Inr ()"

text \<open>The early return on an error.\<close>

definition andThen :: "'e + 'a \<Rightarrow> ('a \<Rightarrow> 'e + 'b) \<Rightarrow> 'e + 'b" where
  "andThen x f = (case x of Inl e \<Rightarrow> Inl e | Inr a \<Rightarrow> f a)"

lemma andThen_Inr: "andThen x f = Inr y \<longleftrightarrow> (\<exists>a. x = Inr a \<and> f a = Inr y)"
  by (simp add: andThen_def split: sum.splits)

text \<open>A call that may panic.\<close>

datatype 'a outcome = Ret 'a | Panic

section \<open>Collections of facts\<close>

named_theorems key_simps \<open>shape and injectivity of database keys\<close>
named_theorems total_simps \<open>equations of the store when the database does not fail\<close>
named_theorems handler_simps \<open>unfoldings of the service handlers\<close>

section \<open>Strings\<close>

text \<open>
  \<open>strings.TrimSpace\<close> removes Unicode white space at both ends. The list holds the
  UTF-8 encodings of the code points with the White\_Space property.
\<close>

definition space_seqs :: "string list" where
  "space_seqs =
     [[CHR 0x09], [CHR 0x0A], [CHR 0x0B], [CHR 0x0C], [CHR 0x0D], [CHR 0x20],
      [CHR 0xC2, CHR 0x85], [CHR 0xC2, CHR 0xA0], [CHR 0xE1, CHR 0x9A, CHR 0x80],
      [CHR 0xE2, CHR 0x80, CHR 0x80], [CHR 0xE2, CHR 0x80, CHR 0x81],
      [CHR 0xE2, CHR 0x80, CHR 0x82], [CHR 0xE2, CHR 0x80, CHR 0x83],
      [CHR 0xE2, CHR 0x80, CHR 0x84], [CHR 0xE2, CHR 0x80, CHR 0x85],
      [CHR 0xE2, CHR 0x80, CHR 0x86], [CHR 0xE2, CHR 0x80, CHR 0x87],
      [CHR 0xE2, CHR 0x80, CHR 0x88], [CHR 0xE2, CHR 0x80, CHR 0x89],
      [CHR 0xE2, CHR 0x80, CHR 0x8A], [CHR 0xE2, CHR 0x80, CHR 0xA8],
      [CHR 0xE2, CHR 0x80, CHR 0xA9], [CHR 0xE2, CHR 0x80, CHR 0xAF],
      [CHR 0xE2, CHR 0x81, CHR 0x9F], [CHR 0xE3, CHR 0x80, CHR 0x80]]"

text \<open>Strip words of \<open>ws\<close> from the front while one of them is a prefix; an empty word never is.\<close>

function strip_front :: "string list \<Rightarrow> string \<Rightarrow> string" where
  "strip_front ws s =
     (case find (\<lambda>w. w \<noteq> [] \<and> prefix w s) ws of
        None \<Rightarrow> s
      | Some w \<Rightarrow> strip_front ws (drop (length w) s))"
  by pat_completeness auto
termination
  by (relation "measure (\<lambda>(ws, s). length s)")
     (auto simp: find_Some_iff prefix_def)

declare strip_front.simps [simp del]

definition TrimSpace :: "string \<Rightarrow> string" where
  "TrimSpace s = rev (strip_front (map rev space_seqs) (rev (strip_front space_seqs s)))"

lemma strip_front_Nil [simp]: "strip_front ws [] = []"
  by (subst strip_front.simps) (auto split: option.splits simp: find_Some_iff)

lemma strip_front_suffix: "suffix (strip_front ws s) s"
proof (induction ws s rule: strip_front.induct)
  case (1 ws s)
  show ?case
  proof (cases "find (\<lambda>w. w \<noteq> [] \<and> prefix w s) ws")
    case None
    then show ?thesis by (subst strip_front.simps) simp
  next
    case (Some w)
    then have "suffix (strip_front ws (drop (length w) s)) (drop (length w) s)"
      by (rule 1)
    then have "suffix (strip_front ws (drop (length w) s)) s"
      using suffix_drop suffix_order.trans by blast
    then show ?thesis using Some by (subst strip_front.simps) simp
  qed
qed

lemma strip_front_clean: "w \<in> set ws \<Longrightarrow> w \<noteq> [] \<Longrightarrow> \<not> prefix w (strip_front ws s)"
proof (induction ws s rule: strip_front.induct)
  case (1 ws s)
  show ?case
  proof (cases "find (\<lambda>w. w \<noteq> [] \<and> prefix w s) ws")
    case None
    then have "strip_front ws s = s" by (subst strip_front.simps) simp
    with None "1.prems" show ?thesis by (auto simp: find_None_iff)
  next
    case (Some w')
    then show ?thesis using 1 by (subst strip_front.simps) simp
  qed
qed

lemma TrimSpace_Nil [simp]: "TrimSpace [] = []"
  by (simp add: TrimSpace_def)

text \<open>
  \<open>strings.ToLower\<close>. Bytes of multi-byte characters stay as they are, except for the
  two characters outside ASCII whose lower case is an ASCII letter (U+0130 and the Kelvin
  sign U+212A): the server only compares the result with ASCII words.
\<close>

definition lower_ascii :: "char \<Rightarrow> char" where
  "lower_ascii c =
     (if 65 \<le> (of_char c :: nat) \<and> (of_char c :: nat) \<le> 90
      then char_of ((of_char c :: nat) + 32) else c)"

fun ToLower :: "string \<Rightarrow> string" where
  "ToLower [] = []"
| "ToLower (c # cs) =
     (if c = CHR 0xC4 \<and> take 1 cs = [CHR 0xB0] then CHR ''i'' # ToLower (drop 1 cs)
      else if c = CHR 0xE2 \<and> take 2 cs = [CHR 0x84, CHR 0xAA] then CHR ''k'' # ToLower (drop 2 cs)
      else lower_ascii c # ToLower cs)"

text \<open>
  The \<open>%q\<close> verb on text whose characters outside ASCII are printable: quotation marks around
  it, and escapes for the mark itself, the backslash and control characters.
\<close>

definition hex_digit :: "nat \<Rightarrow> char" where
  "hex_digit n = char_of (if n < 10 then 48 + n else 87 + n)"

definition quote_char :: "char \<Rightarrow> string" where
  "quote_char c =
     (let n = (of_char c :: nat) in
      if n = 34 \<or> n = 92 then [CHR 0x5C, c]
      else if n = 7 then [CHR 0x5C, CHR ''a''] else if n = 8 then [CHR 0x5C, CHR ''b'']
      else if n = 9 then [CHR 0x5C, CHR ''t''] else if n = 10 then [CHR 0x5C, CHR ''n'']
      else if n = 11 then [CHR 0x5C, CHR ''v''] else if n = 12 then [CHR 0x5C, CHR ''f'']
      else if n = 13 then [CHR 0x5C, CHR ''r'']
      else if n < 32 \<or> n = 127 then [CHR 0x5C, CHR ''x'', hex_digit (n div 16), hex_digit (n mod 16)]
      else [c])"

definition Quote :: "string \<Rightarrow> string" where
  "Quote s = [CHR 0x22] @ concat (map quote_char s) @ [CHR 0x22]"

text \<open>The \<open>%d\<close> verb on a length.\<close>

fun decimal :: "nat \<Rightarrow> string" where
  "decimal n = (if n < 10 then [char_of (48 + n)] else decimal (n div 10) @ [char_of (48 + n mod 10)])"

declare decimal.simps [simp del]

text \<open>\<open>strings.Split\<close> with a one-byte separator, and \<open>strings.FieldsFunc\<close>.\<close>

fun Split :: "char \<Rightarrow> string \<Rightarrow> string list" where
  "Split sep [] = [[]]"
| "Split sep (c # cs) =
     (if c = sep then [] # Split sep cs
      else (case Split sep cs of [] \<Rightarrow> [[c]] | w # ws \<Rightarrow> (c # w) # ws))"

fun SplitPred :: "(char \<Rightarrow> bool) \<Rightarrow> string \<Rightarrow> string list" where
  "SplitPred f [] = [[]]"
| "SplitPred f (c # cs) =
     (if f c then [] # SplitPred f cs
      else (case SplitPred f cs of [] \<Rightarrow> [[c]] | w # ws \<Rightarrow> (c # w) # ws))"

definition FieldsFunc :: "(char \<Rightarrow> bool) \<Rightarrow> string \<Rightarrow> string list" where
  "FieldsFunc f s = filter (\<lambda>w. w \<noteq> []) (SplitPred f s)"

lemma Split_not_Nil [simp]: "Split sep s \<noteq> []"
  by (cases s) (auto split: list.splits)

lemma SplitPred_not_Nil [simp]: "SplitPred f s \<noteq> []"
  by (cases s) (auto split: list.splits)

section \<open>Generic lemmas\<close>

lemma append_sep_inject:
  assumes "a @ c # b = a' @ c # b'" and "c \<notin> set a" and "c \<notin> set a'"
  shows "a = a' \<and> b = b'"
  using assms
proof (induction a arbitrary: a')
  case Nil
  then show ?case by (cases a') auto
next
  case (Cons x a)
  then show ?case by (cases a') auto
qed

lemma append_sep_inject_right:
  assumes "a @ c # b = a' @ c # b'" and "c \<notin> set b" and "c \<notin> set b'"
  shows "a = a' \<and> b = b'"
proof -
  from assms(1) have "rev (a @ c # b) = rev (a' @ c # b')" by simp
  then have "rev b @ c # rev a = rev b' @ c # rev a'" by simp
  then have "rev b = rev b' \<and> rev a = rev a'"
    using assms(2,3) by (intro append_sep_inject) auto
  then show ?thesis by simp
qed

lemma list_all2_Inr_map:
  "list_all2 (\<lambda>k r. \<exists>v. r = Inr v \<and> P k v) ks rs \<Longrightarrow>
   \<exists>vs. rs = map Inr vs \<and> list_all2 P ks vs"
proof (induction ks rs rule: list_all2_induct)
  case Nil
  then show ?case by simp
next
  case (Cons k ks r rs)
  then obtain v vs where "r = Inr v" "P k v" "rs = map Inr vs" "list_all2 P ks vs" by blast
  then show ?case by (intro exI [of _ "v # vs"]) simp
qed

end
