(* ===== verification/Json.thy ===== *)
theory Json
  imports Prelude
begin

text \<open>
  The part of the standard package \<open>encoding/json\<close> the platform store uses. A stored
  value is a blob: either the JSON document that \<open>json.Marshal\<close> wrote, represented by
  its members in the order of the struct's fields, or the raw bytes of a counter. The text
  of documents (quoting, white space) is the subject of \<open>Json_Text\<close>; which members a struct
  writes (\<open>omitempty\<close>) and how \<open>json.Unmarshal\<close> reads members back (order,
  duplicates, unknown and case-folded names, \<open>null\<close>, type and range errors) is.
\<close>

datatype json =
    JNull
  | JBool bool
  | JInt int
  | JFloat string \<comment> \<open>a number literal with a fraction or exponent\<close>
  | JStr string
  | JArr "json list"
  | JObj "(string \<times> json) list"

datatype blob = Doc json | Raw "uint8 list"

text \<open>
  Member names match a field up to simple case folding: ASCII letters, the long s (U+017F)
  and the Kelvin sign (U+212A).
\<close>

fun foldName :: "string \<Rightarrow> string" where
  "foldName [] = []"
| "foldName (c # cs) =
     (if c = CHR 0xC5 \<and> take 1 cs = [CHR 0xBF] then CHR ''s'' # foldName (drop 1 cs)
      else if c = CHR 0xE2 \<and> take 2 cs = [CHR 0x84, CHR 0xAA] then CHR ''k'' # foldName (drop 2 cs)
      else lower_ascii c # foldName cs)"

text \<open>Decoding one member into a field that holds \<open>old\<close>; \<open>null\<close> leaves it unchanged.\<close>

definition dec_string :: "json \<Rightarrow> string \<Rightarrow> string option" where
  "dec_string j old = (case j of JStr s \<Rightarrow> Some s | JNull \<Rightarrow> Some old | _ \<Rightarrow> None)"

definition dec_bool :: "json \<Rightarrow> bool \<Rightarrow> bool option" where
  "dec_bool j old = (case j of JBool b \<Rightarrow> Some b | JNull \<Rightarrow> Some old | _ \<Rightarrow> None)"

definition dec_int64 :: "json \<Rightarrow> int64 \<Rightarrow> int64 option" where
  "dec_int64 j old =
     (case j of
        JInt i \<Rightarrow> if - (2 ^ 63) \<le> i \<and> i < 2 ^ 63 then Some (word_of_int i) else None
      | JNull \<Rightarrow> Some old
      | _ \<Rightarrow> None)"

definition dec_uint8 :: "json \<Rightarrow> uint8 \<Rightarrow> uint8 option" where
  "dec_uint8 j old =
     (case j of
        JInt i \<Rightarrow> if 0 \<le> i \<and> i < 256 then Some (word_of_int i) else None
      | JNull \<Rightarrow> Some old
      | _ \<Rightarrow> None)"

lemmas dec_defs = dec_string_def dec_bool_def dec_int64_def dec_uint8_def

lemma dec_string_JStr [simp]: "dec_string (JStr s) old = Some s"
  by (simp add: dec_defs)

lemma dec_bool_JBool [simp]: "dec_bool (JBool b) old = Some b"
  by (simp add: dec_defs)

lemma dec_int64_sint [simp]: "dec_int64 (JInt (sint w)) old = Some w"
  using sint_greater_eq [of w] sint_less [of w] by (simp add: dec_defs)

lemma dec_uint8_uint [simp]: "dec_uint8 (JInt (uint w)) old = Some w"
  using uint_bounded [of w] by (simp add: dec_defs)

text \<open>
  \<open>json.Unmarshal\<close> into a struct: the members in order, each handed to the struct's
  field setter; the first type error makes the call fail. (Go goes on decoding after a type
  error and then returns it; no caller reads the struct in that case.)
\<close>

fun decode_members :: "(string \<Rightarrow> json \<Rightarrow> 's \<Rightarrow> 's option) \<Rightarrow> (string \<times> json) list \<Rightarrow> 's \<Rightarrow> 's option" where
  "decode_members f [] s = Some s"
| "decode_members f ((k, v) # ms) s =
     (case f (foldName k) v s of None \<Rightarrow> None | Some s' \<Rightarrow> decode_members f ms s')"

definition Unmarshal :: "(string \<Rightarrow> json \<Rightarrow> 's \<Rightarrow> 's option) \<Rightarrow> 's \<Rightarrow> blob \<Rightarrow> err + 's" where
  "Unmarshal f zero b =
     (case b of
        Doc (JObj ms) \<Rightarrow> (case decode_members f ms zero of Some s \<Rightarrow> Inr s | None \<Rightarrow> Inl ErrJson)
      | Doc JNull \<Rightarrow> Inr zero
      | _ \<Rightarrow> Inl ErrJson)"

lemma Unmarshal_err: "Unmarshal f z b = Inl e \<Longrightarrow> e = ErrJson"
  by (auto simp: Unmarshal_def split: blob.splits json.splits option.splits)

lemma decode_members_append:
  "decode_members f (ms @ ns) s = Option.bind (decode_members f ms s) (decode_members f ns)"
  by (induction ms arbitrary: s) (auto split: option.splits)

text \<open>A member that is left out when the field holds its zero value (\<open>omitempty\<close>).\<close>

definition opt_member :: "bool \<Rightarrow> string \<Rightarrow> json \<Rightarrow> (string \<times> json) list" where
  "opt_member present k v = (if present then [(k, v)] else [])"

end
