(* ===== verification/Badger.thy ===== *)
theory Badger
  imports Json
begin

text \<open>
  The embedded key-value database (package badger, a third-party library) as an interface.
  The operations the platform store calls are a record of functions over an abstract database
  and transaction type; every definition of the store takes that record as an argument. The
  locale \<open>badger_db\<close> states what the library documents about calls that succeed, and
  \<open>badger_total\<close> adds that no call fails. The in-memory database at the end shows that
  the laws can hold.
\<close>

section \<open>The operations\<close>

text \<open>
  \<open>TxnGet\<close> gives \<open>Inl\<close> when \<open>txn.Get\<close> fails, \<open>Inr (Inl e)\<close> when
  the item is found but \<open>item.Value\<close> fails, and \<open>Inr (Inr v)\<close> otherwise.
  \<open>TxnIterate txn p\<close> is what \<open>item.Value\<close> gives for each item of an iterator
  with prefix \<open>p\<close>, in iteration order.
\<close>

record ('db, 'tx) badger =
  NewTransaction :: "'db \<Rightarrow> 'tx"
  TxnGet :: "'tx \<Rightarrow> string \<Rightarrow> berr + (berr + blob)"
  TxnSet :: "'tx \<Rightarrow> string \<Rightarrow> blob \<Rightarrow> berr + 'tx"
  TxnDelete :: "'tx \<Rightarrow> string \<Rightarrow> berr + 'tx"
  TxnIterate :: "'tx \<Rightarrow> string \<Rightarrow> (berr + blob) list"
  TxnCommit :: "'db \<Rightarrow> 'tx \<Rightarrow> berr + 'db"

text \<open>
  \<open>db.View(fn)\<close> runs \<open>fn\<close> on a fresh transaction. \<open>db.Update(fn)\<close>
  also commits it, unless \<open>fn\<close> returned an error; a failed commit writes nothing.
\<close>

definition View :: "('db, 'tx) badger \<Rightarrow> 'db \<Rightarrow> ('tx \<Rightarrow> err + 'a) \<Rightarrow> err + 'a" where
  "View B db fn = fn (NewTransaction B db)"

definition Update :: "('db, 'tx) badger \<Rightarrow> 'db \<Rightarrow> ('tx \<Rightarrow> err + ('a \<times> 'tx)) \<Rightarrow> (err + 'a) \<times> 'db" where
  "Update B db fn =
     (case fn (NewTransaction B db) of
        Inl e \<Rightarrow> (Inl e, db)
      | Inr (a, tx) \<Rightarrow>
          (case TxnCommit B db tx of
             Inl e \<Rightarrow> (Inl (ErrBadger e), db)
           | Inr db' \<Rightarrow> (Inr a, db')))"

text \<open>The transactions that started on \<open>db\<close>, with no commit of another one in between.\<close>

inductive txn_on :: "('db, 'tx) badger \<Rightarrow> 'db \<Rightarrow> 'tx \<Rightarrow> bool" for B db where
  txn_new: "txn_on B db (NewTransaction B db)"
| txn_set: "txn_on B db tx \<Longrightarrow> TxnSet B tx k v = Inr tx' \<Longrightarrow> txn_on B db tx'"
| txn_delete: "txn_on B db tx \<Longrightarrow> TxnDelete B tx k = Inr tx' \<Longrightarrow> txn_on B db tx'"

section \<open>What the library promises\<close>

text \<open>
  \<open>kv\<close> and \<open>tkv\<close> read the contents of a database and the view a transaction has:
  a snapshot plus its own writes. An iterator visits every key with the prefix once.
\<close>

locale badger_db =
  fixes B :: "('db, 'tx) badger"
    and kv :: "'db \<Rightarrow> string \<Rightarrow> blob option"
    and tkv :: "'tx \<Rightarrow> string \<Rightarrow> blob option"
  assumes new_view: "tkv (NewTransaction B db) = kv db"
    and get_found: "TxnGet B tx k = Inr (Inr v) \<Longrightarrow> tkv tx k = Some v"
    and get_item: "TxnGet B tx k = Inr (Inl e) \<Longrightarrow> tkv tx k \<noteq> None"
    and get_missing: "TxnGet B tx k = Inl BErrKeyNotFound \<Longrightarrow> tkv tx k = None"
    and set_view: "TxnSet B tx k v = Inr tx' \<Longrightarrow> tkv tx' = (tkv tx)(k \<mapsto> v)"
    and delete_view: "TxnDelete B tx k = Inr tx' \<Longrightarrow> tkv tx' = (tkv tx)(k := None)"
    and iterate_view: "\<exists>ks. distinct ks \<and> set ks = {k \<in> dom (tkv tx). prefix p k} \<and>
          list_all2 (\<lambda>k r. \<forall>v. r = Inr v \<longrightarrow> tkv tx k = Some v) ks (TxnIterate B tx p)"
    and commit_view: "txn_on B db tx \<Longrightarrow> TxnCommit B db tx = Inr db' \<Longrightarrow> kv db' = tkv tx"

locale badger_total = badger_db +
  assumes get_total: "TxnGet B tx k = (case tkv tx k of None \<Rightarrow> Inl BErrKeyNotFound | Some v \<Rightarrow> Inr (Inr v))"
    and set_total: "\<exists>tx'. TxnSet B tx k v = Inr tx'"
    and delete_total: "\<exists>tx'. TxnDelete B tx k = Inr tx'"
    and iterate_total: "r \<in> set (TxnIterate B tx p) \<Longrightarrow> \<exists>v. r = Inr v"
    and commit_total: "txn_on B db tx \<Longrightarrow> \<exists>db'. TxnCommit B db tx = Inr db'"

context badger_db
begin

lemma Update_err: "Update B db fn = (Inl e, db') \<Longrightarrow> db' = db"
  by (auto simp: Update_def split: sum.splits prod.splits)

lemma Update_set:
  assumes "Update B db (\<lambda>tx. case TxnSet B tx k v of Inl e \<Rightarrow> Inl (f e) | Inr tx' \<Rightarrow> Inr (a, tx')) = (Inr a', db')"
  shows "kv db' = (kv db)(k \<mapsto> v) \<and> a' = a"
proof -
  from assms obtain tx' where tx': "TxnSet B (NewTransaction B db) k v = Inr tx'"
    and c: "TxnCommit B db tx' = Inr db'" "a' = a"
    by (auto simp: Update_def split: sum.splits)
  have "txn_on B db tx'" by (rule txn_set [OF txn_new tx'])
  from commit_view [OF this c(1)] set_view [OF tx'] new_view c(2) show ?thesis by simp
qed

lemma Update_delete:
  assumes "Update B db (\<lambda>tx. case TxnDelete B tx k of Inl e \<Rightarrow> Inl (f e) | Inr tx' \<Rightarrow> Inr (a, tx')) = (Inr a', db')"
  shows "kv db' = (kv db)(k := None) \<and> a' = a"
proof -
  from assms obtain tx' where tx': "TxnDelete B (NewTransaction B db) k = Inr tx'"
    and c: "TxnCommit B db tx' = Inr db'" "a' = a"
    by (auto simp: Update_def split: sum.splits)
  have "txn_on B db tx'" by (rule txn_delete [OF txn_new tx'])
  from commit_view [OF this c(1)] delete_view [OF tx'] new_view c(2) show ?thesis by simp
qed

end

context badger_total
begin

lemma commit_run:
  assumes "fn (NewTransaction B db) = Inr (a, tx)" and "txn_on B db tx"
  shows "\<exists>db'. Update B db fn = (Inr a, db') \<and> kv db' = tkv tx"
proof -
  from commit_total [OF assms(2)] obtain db' where c: "TxnCommit B db tx = Inr db'" ..
  with assms(1) have "Update B db fn = (Inr a, db')" by (simp add: Update_def)
  moreover from commit_view [OF assms(2) c] have "kv db' = tkv tx" .
  ultimately show ?thesis by blast
qed

lemma iterate_values:
  "\<exists>ks vs. distinct ks \<and> set ks = {k \<in> dom (tkv tx). prefix p k} \<and>
     TxnIterate B tx p = map Inr vs \<and> list_all2 (\<lambda>k v. tkv tx k = Some v) ks vs"
proof -
  from iterate_view [of tx p] obtain ks where ks: "distinct ks" "set ks = {k \<in> dom (tkv tx). prefix p k}"
    and all: "list_all2 (\<lambda>k r. \<forall>v. r = Inr v \<longrightarrow> tkv tx k = Some v) ks (TxnIterate B tx p)" by blast
  have "list_all2 (\<lambda>k r. \<exists>v. r = Inr v \<and> tkv tx k = Some v) ks (TxnIterate B tx p)"
    using all by (rule list.rel_mono_strong) (use iterate_total in blast)
  from list_all2_Inr_map [OF this] ks show ?thesis by blast
qed

end

section \<open>An in-memory database\<close>

text \<open>An association list; the first entry for a key counts, a deleted key is filtered out.\<close>

type_synonym memdb = "(string \<times> blob) list"

definition mem_iterate :: "memdb \<Rightarrow> string \<Rightarrow> (berr + blob) list" where
  "mem_iterate db p =
     map (\<lambda>k. Inr (the (map_of db k))) (filter (prefix p) (remdups (map fst db)))"

definition mem_badger :: "(memdb, memdb) badger" where
  "mem_badger =
     \<lparr>NewTransaction = (\<lambda>db. db),
      TxnGet = (\<lambda>tx k. case map_of tx k of None \<Rightarrow> Inl BErrKeyNotFound | Some v \<Rightarrow> Inr (Inr v)),
      TxnSet = (\<lambda>tx k v. Inr ((k, v) # tx)),
      TxnDelete = (\<lambda>tx k. Inr (filter (\<lambda>e. fst e \<noteq> k) tx)),
      TxnIterate = mem_iterate,
      TxnCommit = (\<lambda>db tx. Inr tx)\<rparr>"

lemma map_of_filter_neq: "map_of (filter (\<lambda>e. fst e \<noteq> k) tx) = (map_of tx)(k := None)"
  by (induction tx) (auto simp: fun_eq_iff)

interpretation mem: badger_total mem_badger map_of map_of
proof (unfold_locales, goal_cases)
  case (7 tx p)
  let ?ks = "filter (prefix p) (remdups (map fst tx))"
  have "set ?ks = {k \<in> dom (map_of tx). prefix p k}" by (auto simp: dom_map_of_conv_image_fst)
  moreover have "list_all2 (\<lambda>k r. \<forall>v. r = Inr v \<longrightarrow> map_of tx k = Some v) ?ks (TxnIterate mem_badger tx p)"
    by (auto simp: mem_badger_def mem_iterate_def list.rel_map list_all2_same
        dest: weak_map_of_SomeI)
  ultimately show ?case by (intro exI [of _ ?ks]) simp
qed (auto simp: mem_badger_def mem_iterate_def map_of_filter_neq split: option.splits)

end
