(* ===== verification/Platform.thy ===== *)
theory Platform
  imports Badger
begin

text \<open>
  The platform store (package \<open>internal/platform\<close>, files \<open>types.go\<close> and
  \<open>store.go\<close>): visibilities and roles as the bytes they are stored as, the four record
  types with their JSON form, the key layout, and the operations on users, genealogies,
  memberships and bans over the Badger interface.

  The lemmas show that encoding and decoding are inverse, that keys of different kinds and of
  different records never collide (for genealogy ids without a slash, as the ids the server
  generates are), and, in the locale \<open>badger_total\<close>, that every operation acts as an
  update of an abstract map. \<open>keyed_store\<close> is the contract the four kinds of record share.
\<close>

section \<open>Types\<close>

type_synonym Visibility = uint8

definition VisibilityPrivate :: Visibility where [simp]: "VisibilityPrivate = 1"
definition VisibilityUnlisted :: Visibility where [simp]: "VisibilityUnlisted = 2"
definition VisibilityPublic :: Visibility where [simp]: "VisibilityPublic = 3"

definition Visibility_IsValid :: "Visibility \<Rightarrow> bool" where
  "Visibility_IsValid v = (v = VisibilityPrivate \<or> v = VisibilityUnlisted \<or> v = VisibilityPublic)"

definition Visibility_String :: "Visibility \<Rightarrow> string" where
  "Visibility_String v =
     (if v = VisibilityPrivate then ''Private''
      else if v = VisibilityUnlisted then ''Unlisted''
      else if v = VisibilityPublic then ''Public''
      else ''Unknown'')"

definition ParseVisibility :: "string \<Rightarrow> err + Visibility" where
  "ParseVisibility s =
     (let t = ToLower (TrimSpace s) in
      if t = ''private'' then Inr VisibilityPrivate
      else if t = ''unlisted'' then Inr VisibilityUnlisted
      else if t = ''public'' then Inr VisibilityPublic
      else Inl (ErrNew (''platform: unknown visibility '' @ Quote s)))"

type_synonym Role = uint8

definition RoleNone :: Role where [simp]: "RoleNone = 0"
definition RoleViewer :: Role where [simp]: "RoleViewer = 1"
definition RoleContributor :: Role where [simp]: "RoleContributor = 2"
definition RoleCurator :: Role where [simp]: "RoleCurator = 3"
definition RoleOwner :: Role where [simp]: "RoleOwner = 4"

definition Role_IsValid :: "Role \<Rightarrow> bool" where
  "Role_IsValid r = (RoleViewer \<le> r \<and> r \<le> RoleOwner)"

definition Role_String :: "Role \<Rightarrow> string" where
  "Role_String r =
     (if r = RoleViewer then ''Viewer''
      else if r = RoleContributor then ''Contributor''
      else if r = RoleCurator then ''Curator''
      else if r = RoleOwner then ''Owner''
      else ''None'')"

record User =
  u_Subject :: string
  u_Email :: string
  u_CreatedAt :: int64
  u_Suspended :: bool

record Genealogy =
  g_ID :: string
  g_Name :: string
  g_Visibility :: Visibility
  g_CreatedBy :: string
  g_CreatedAt :: int64

record Membership =
  m_Subject :: string
  m_GenealogyID :: string
  m_Role :: Role
  m_GrantedBy :: string
  m_GrantedAt :: int64

record Ban =
  b_Subject :: string
  b_GenealogyID :: string
  b_Reason :: string
  b_By :: string
  b_At :: int64

section \<open>JSON form of the records\<close>

text \<open>
  The members that are written for each record, before they become text. On the way to the text invalid UTF-8 in a string is
  replaced; \<open>Record_Text\<close> shows what is read from the bytes, and that it is the same tree for valid strings.
\<close>

definition MarshalUser :: "User \<Rightarrow> blob" where
  "MarshalUser u = Doc (JObj (
     [(''sub'', JStr (u_Subject u))]
     @ opt_member (u_Email u \<noteq> []) ''email'' (JStr (u_Email u))
     @ [(''created_at'', JInt (sint (u_CreatedAt u)))]
     @ opt_member (u_Suspended u) ''suspended'' (JBool (u_Suspended u))))"

definition MarshalGenealogy :: "Genealogy \<Rightarrow> blob" where
  "MarshalGenealogy g = Doc (JObj
     [(''id'', JStr (g_ID g)), (''name'', JStr (g_Name g)),
      (''visibility'', JInt (uint (g_Visibility g))),
      (''created_by'', JStr (g_CreatedBy g)),
      (''created_at'', JInt (sint (g_CreatedAt g)))])"

definition MarshalMembership :: "Membership \<Rightarrow> blob" where
  "MarshalMembership m = Doc (JObj (
     [(''sub'', JStr (m_Subject m)), (''genealogy_id'', JStr (m_GenealogyID m)),
      (''role'', JInt (uint (m_Role m)))]
     @ opt_member (m_GrantedBy m \<noteq> []) ''granted_by'' (JStr (m_GrantedBy m))
     @ [(''granted_at'', JInt (sint (m_GrantedAt m)))]))"

definition MarshalBan :: "Ban \<Rightarrow> blob" where
  "MarshalBan b = Doc (JObj (
     [(''sub'', JStr (b_Subject b)), (''genealogy_id'', JStr (b_GenealogyID b))]
     @ opt_member (b_Reason b \<noteq> []) ''reason'' (JStr (b_Reason b))
     @ [(''by'', JStr (b_By b)), (''at'', JInt (sint (b_At b)))]))"

definition User_zero :: User where
  "User_zero = \<lparr>u_Subject = [], u_Email = [], u_CreatedAt = 0, u_Suspended = False\<rparr>"

definition User_field :: "string \<Rightarrow> json \<Rightarrow> User \<Rightarrow> User option" where
  "User_field k v u =
     (if k = ''sub'' then map_option (\<lambda>x. u\<lparr>u_Subject := x\<rparr>) (dec_string v (u_Subject u))
      else if k = ''email'' then map_option (\<lambda>x. u\<lparr>u_Email := x\<rparr>) (dec_string v (u_Email u))
      else if k = ''created_at'' then map_option (\<lambda>x. u\<lparr>u_CreatedAt := x\<rparr>) (dec_int64 v (u_CreatedAt u))
      else if k = ''suspended'' then map_option (\<lambda>x. u\<lparr>u_Suspended := x\<rparr>) (dec_bool v (u_Suspended u))
      else Some u)"

definition Genealogy_zero :: Genealogy where
  "Genealogy_zero = \<lparr>g_ID = [], g_Name = [], g_Visibility = 0, g_CreatedBy = [], g_CreatedAt = 0\<rparr>"

definition Genealogy_field :: "string \<Rightarrow> json \<Rightarrow> Genealogy \<Rightarrow> Genealogy option" where
  "Genealogy_field k v g =
     (if k = ''id'' then map_option (\<lambda>x. g\<lparr>g_ID := x\<rparr>) (dec_string v (g_ID g))
      else if k = ''name'' then map_option (\<lambda>x. g\<lparr>g_Name := x\<rparr>) (dec_string v (g_Name g))
      else if k = ''visibility'' then map_option (\<lambda>x. g\<lparr>g_Visibility := x\<rparr>) (dec_uint8 v (g_Visibility g))
      else if k = ''created_by'' then map_option (\<lambda>x. g\<lparr>g_CreatedBy := x\<rparr>) (dec_string v (g_CreatedBy g))
      else if k = ''created_at'' then map_option (\<lambda>x. g\<lparr>g_CreatedAt := x\<rparr>) (dec_int64 v (g_CreatedAt g))
      else Some g)"

definition Membership_zero :: Membership where
  "Membership_zero =
     \<lparr>m_Subject = [], m_GenealogyID = [], m_Role = 0, m_GrantedBy = [], m_GrantedAt = 0\<rparr>"

definition Membership_field :: "string \<Rightarrow> json \<Rightarrow> Membership \<Rightarrow> Membership option" where
  "Membership_field k v m =
     (if k = ''sub'' then map_option (\<lambda>x. m\<lparr>m_Subject := x\<rparr>) (dec_string v (m_Subject m))
      else if k = ''genealogy_id'' then map_option (\<lambda>x. m\<lparr>m_GenealogyID := x\<rparr>) (dec_string v (m_GenealogyID m))
      else if k = ''role'' then map_option (\<lambda>x. m\<lparr>m_Role := x\<rparr>) (dec_uint8 v (m_Role m))
      else if k = ''granted_by'' then map_option (\<lambda>x. m\<lparr>m_GrantedBy := x\<rparr>) (dec_string v (m_GrantedBy m))
      else if k = ''granted_at'' then map_option (\<lambda>x. m\<lparr>m_GrantedAt := x\<rparr>) (dec_int64 v (m_GrantedAt m))
      else Some m)"

definition Ban_zero :: Ban where
  "Ban_zero = \<lparr>b_Subject = [], b_GenealogyID = [], b_Reason = [], b_By = [], b_At = 0\<rparr>"

definition Ban_field :: "string \<Rightarrow> json \<Rightarrow> Ban \<Rightarrow> Ban option" where
  "Ban_field k v b =
     (if k = ''sub'' then map_option (\<lambda>x. b\<lparr>b_Subject := x\<rparr>) (dec_string v (b_Subject b))
      else if k = ''genealogy_id'' then map_option (\<lambda>x. b\<lparr>b_GenealogyID := x\<rparr>) (dec_string v (b_GenealogyID b))
      else if k = ''reason'' then map_option (\<lambda>x. b\<lparr>b_Reason := x\<rparr>) (dec_string v (b_Reason b))
      else if k = ''by'' then map_option (\<lambda>x. b\<lparr>b_By := x\<rparr>) (dec_string v (b_By b))
      else if k = ''at'' then map_option (\<lambda>x. b\<lparr>b_At := x\<rparr>) (dec_int64 v (b_At b))
      else Some b)"

definition UnmarshalUser :: "blob \<Rightarrow> err + User" where
  "UnmarshalUser = Unmarshal User_field User_zero"

definition UnmarshalGenealogy :: "blob \<Rightarrow> err + Genealogy" where
  "UnmarshalGenealogy = Unmarshal Genealogy_field Genealogy_zero"

definition UnmarshalMembership :: "blob \<Rightarrow> err + Membership" where
  "UnmarshalMembership = Unmarshal Membership_field Membership_zero"

definition UnmarshalBan :: "blob \<Rightarrow> err + Ban" where
  "UnmarshalBan = Unmarshal Ban_field Ban_zero"

section \<open>Keys\<close>

definition userKey :: "string \<Rightarrow> string" where
  "userKey sub = ''u/'' @ sub"

definition genealogyKey :: "string \<Rightarrow> string" where
  "genealogyKey gid = ''g/'' @ gid"

definition membershipKey :: "string \<Rightarrow> string \<Rightarrow> string" where
  "membershipKey gid sub = ''m/'' @ gid @ ''/'' @ sub"

definition reverseMembershipKey :: "string \<Rightarrow> string \<Rightarrow> string" where
  "reverseMembershipKey sub gid = ''mr/'' @ sub @ ''/'' @ gid"

definition banKey :: "string \<Rightarrow> string \<Rightarrow> string" where
  "banKey gid sub = ''b/'' @ gid @ ''/'' @ sub"

section \<open>Low-level helpers\<close>

definition put :: "('db, 'tx) badger \<Rightarrow> 'db \<Rightarrow> string \<Rightarrow> blob \<Rightarrow> (err + unit) \<times> 'db" where
  "put B db k v =
     Update B db (\<lambda>tx. case TxnSet B tx k v of Inl e \<Rightarrow> Inl (ErrBadger e) | Inr tx' \<Rightarrow> Inr ((), tx'))"

definition get :: "('db, 'tx) badger \<Rightarrow> 'db \<Rightarrow> string \<Rightarrow> (blob \<Rightarrow> err + 'a) \<Rightarrow> err + 'a" where
  "get B db k dec =
     View B db (\<lambda>tx.
       case TxnGet B tx k of
         Inl e \<Rightarrow> if e = BErrKeyNotFound then Inl ErrNotFound else Inl (ErrBadger e)
       | Inr (Inl e) \<Rightarrow> Inl (ErrBadger e)
       | Inr (Inr buf) \<Rightarrow> dec buf)"

text \<open>The loop of \<open>scanPrefix\<close>; \<open>decode\<close> reports whether to go on and may change the state \<open>s\<close>.\<close>

fun scan_items :: "(blob \<Rightarrow> 's \<Rightarrow> (err + bool) \<times> 's) \<Rightarrow> (berr + blob) list \<Rightarrow> 's \<Rightarrow> (err + unit) \<times> 's" where
  "scan_items decode [] s = (nil_err, s)"
| "scan_items decode (Inl e # items) s = (Inl (ErrBadger e), s)"
| "scan_items decode (Inr buf # items) s =
     (case decode buf s of
        (Inl e, s') \<Rightarrow> (Inl e, s')
      | (Inr cont, s') \<Rightarrow> if cont then scan_items decode items s' else (nil_err, s'))"

definition scanPrefix ::
  "('db, 'tx) badger \<Rightarrow> 'db \<Rightarrow> string \<Rightarrow> (blob \<Rightarrow> 's \<Rightarrow> (err + bool) \<times> 's) \<Rightarrow> 's \<Rightarrow> (err + unit) \<times> 's" where
  "scanPrefix B db pfx decode s = scan_items decode (TxnIterate B (NewTransaction B db) pfx) s"

section \<open>Opening and closing\<close>

text \<open>
  \<open>open_db\<close> and \<open>close_db\<close> are the library's calls; the flag asks for a database in memory. A store
  whose database is closed holds none.
\<close>

definition platform_Open :: "(string \<Rightarrow> bool \<Rightarrow> err + 'db) \<Rightarrow> string \<Rightarrow> err + 'db option" where
  "platform_Open open_db path =
     (case open_db path (path = []) of Inl e \<Rightarrow> Inl (Wrap ''platform: open'' e) | Inr db \<Rightarrow> Inr (Some db))"

definition platform_Close :: "('db \<Rightarrow> err + unit) \<Rightarrow> 'db option \<Rightarrow> (err + unit) \<times> 'db option" where
  "platform_Close close_db st = (case st of None \<Rightarrow> (nil_err, None) | Some db \<Rightarrow> (close_db db, None))"

section \<open>Users\<close>

definition PutUser :: "('db, 'tx) badger \<Rightarrow> User \<Rightarrow> 'db \<Rightarrow> (err + unit) \<times> 'db" where
  "PutUser B u db =
     (if u_Subject u = [] then (Inl (ErrNew ''platform: user.Subject required''), db)
      else put B db (userKey (u_Subject u)) (MarshalUser u))"

definition GetUser :: "('db, 'tx) badger \<Rightarrow> string \<Rightarrow> 'db \<Rightarrow> err + User" where
  "GetUser B sub db = get B db (userKey sub) UnmarshalUser"

text \<open>\<open>now\<close> is what \<open>platform.Now()\<close> returns, here and below.\<close>

definition EnsureUser ::
  "('db, 'tx) badger \<Rightarrow> int64 \<Rightarrow> string \<Rightarrow> string \<Rightarrow> 'db \<Rightarrow> (err + User) \<times> 'db" where
  "EnsureUser B now sub email db =
     (case GetUser B sub db of
        Inr existing \<Rightarrow> (Inr existing, db)
      | Inl e \<Rightarrow>
          if \<not> errors_Is e ErrNotFound then (Inl e, db)
          else
            (let u = \<lparr>u_Subject = sub, u_Email = email, u_CreatedAt = now, u_Suspended = False\<rparr> in
             case PutUser B u db of
               (Inl e', db') \<Rightarrow> (Inl e', db')
             | (Inr _, db') \<Rightarrow> (Inr u, db')))"

section \<open>Genealogies\<close>

definition PutGenealogy :: "('db, 'tx) badger \<Rightarrow> Genealogy \<Rightarrow> 'db \<Rightarrow> (err + unit) \<times> 'db" where
  "PutGenealogy B g db =
     (if g_ID g = [] then (Inl (ErrNew ''platform: genealogy.ID required''), db)
      else if \<not> Visibility_IsValid (g_Visibility g)
      then (Inl (ErrNew ''platform: genealogy.Visibility invalid''), db)
      else put B db (genealogyKey (g_ID g)) (MarshalGenealogy g))"

definition GetGenealogy :: "('db, 'tx) badger \<Rightarrow> string \<Rightarrow> 'db \<Rightarrow> err + Genealogy" where
  "GetGenealogy B gid db = get B db (genealogyKey gid) UnmarshalGenealogy"

text \<open>\<open>tx.Delete\<close> of one key in an update transaction, as \<open>DeleteGenealogy\<close> and \<open>DeleteBan\<close> do.\<close>

definition delete_key :: "('db, 'tx) badger \<Rightarrow> 'db \<Rightarrow> string \<Rightarrow> (err + unit) \<times> 'db" where
  "delete_key B db k =
     Update B db (\<lambda>tx. case TxnDelete B tx k of Inl e \<Rightarrow> Inl (ErrBadger e) | Inr tx' \<Rightarrow> Inr ((), tx'))"

definition DeleteGenealogy :: "('db, 'tx) badger \<Rightarrow> string \<Rightarrow> 'db \<Rightarrow> (err + unit) \<times> 'db" where
  "DeleteGenealogy B gid db = delete_key B db (genealogyKey gid)"

text \<open>The callback of the three iterators: decode the value, hand the record to \<open>yield\<close>.\<close>

definition decode_yield ::
  "(blob \<Rightarrow> err + 'r) \<Rightarrow> ('r \<Rightarrow> 's \<Rightarrow> bool \<times> 's) \<Rightarrow> blob \<Rightarrow> 's \<Rightarrow> (err + bool) \<times> 's" where
  "decode_yield dec yield buf s =
     (case dec buf of
        Inl e \<Rightarrow> (Inl e, s)
      | Inr r \<Rightarrow> (case yield r s of (cont, s') \<Rightarrow> (Inr cont, s')))"

definition IterateGenealogies ::
  "('db, 'tx) badger \<Rightarrow> 'db \<Rightarrow> (Genealogy \<Rightarrow> 's \<Rightarrow> bool \<times> 's) \<Rightarrow> 's \<Rightarrow> (err + unit) \<times> 's" where
  "IterateGenealogies B db yield s = scanPrefix B db ''g/'' (decode_yield UnmarshalGenealogy yield) s"

section \<open>Memberships\<close>

definition PutMembership ::
  "('db, 'tx) badger \<Rightarrow> int64 \<Rightarrow> Membership \<Rightarrow> 'db \<Rightarrow> (err + unit) \<times> 'db" where
  "PutMembership B now m db =
     (if m_Subject m = [] \<or> m_GenealogyID m = []
      then (Inl (ErrNew ''platform: membership requires Subject and GenealogyID''), db)
      else if \<not> Role_IsValid (m_Role m)
      then (Inl (ErrNew ''platform: membership.Role invalid''), db)
      else
        (let m = (if m_GrantedAt m = 0 then m\<lparr>m_GrantedAt := now\<rparr> else m);
             buf = MarshalMembership m in
         Update B db (\<lambda>tx.
           case TxnSet B tx (membershipKey (m_GenealogyID m) (m_Subject m)) buf of
             Inl e \<Rightarrow> Inl (ErrBadger e)
           | Inr tx1 \<Rightarrow>
               (case TxnSet B tx1 (reverseMembershipKey (m_Subject m) (m_GenealogyID m)) buf of
                  Inl e \<Rightarrow> Inl (ErrBadger e)
                | Inr tx2 \<Rightarrow> Inr ((), tx2)))))"

definition GetMembership :: "('db, 'tx) badger \<Rightarrow> string \<Rightarrow> string \<Rightarrow> 'db \<Rightarrow> err + Membership" where
  "GetMembership B gid sub db = get B db (membershipKey gid sub) UnmarshalMembership"

definition DeleteMembership :: "('db, 'tx) badger \<Rightarrow> string \<Rightarrow> string \<Rightarrow> 'db \<Rightarrow> (err + unit) \<times> 'db" where
  "DeleteMembership B gid sub db =
     Update B db (\<lambda>tx.
       case TxnDelete B tx (membershipKey gid sub) of
         Inl e \<Rightarrow> Inl (ErrBadger e)
       | Inr tx1 \<Rightarrow>
           (case TxnDelete B tx1 (reverseMembershipKey sub gid) of
              Inl e \<Rightarrow> Inl (ErrBadger e)
            | Inr tx2 \<Rightarrow> Inr ((), tx2)))"

definition IterateMembershipsForGenealogy ::
  "('db, 'tx) badger \<Rightarrow> 'db \<Rightarrow> string \<Rightarrow> (Membership \<Rightarrow> 's \<Rightarrow> bool \<times> 's) \<Rightarrow> 's \<Rightarrow> (err + unit) \<times> 's" where
  "IterateMembershipsForGenealogy B db gid yield s =
     scanPrefix B db (''m/'' @ gid @ ''/'') (decode_yield UnmarshalMembership yield) s"

definition IterateMembershipsForUser ::
  "('db, 'tx) badger \<Rightarrow> 'db \<Rightarrow> string \<Rightarrow> (Membership \<Rightarrow> 's \<Rightarrow> bool \<times> 's) \<Rightarrow> 's \<Rightarrow> (err + unit) \<times> 's" where
  "IterateMembershipsForUser B db sub yield s =
     scanPrefix B db (''mr/'' @ sub @ ''/'') (decode_yield UnmarshalMembership yield) s"

section \<open>Bans\<close>

definition PutBan :: "('db, 'tx) badger \<Rightarrow> int64 \<Rightarrow> Ban \<Rightarrow> 'db \<Rightarrow> (err + unit) \<times> 'db" where
  "PutBan B now b db =
     (if b_Subject b = [] \<or> b_GenealogyID b = []
      then (Inl (ErrNew ''platform: ban requires Subject and GenealogyID''), db)
      else
        (let b = (if b_At b = 0 then b\<lparr>b_At := now\<rparr> else b) in
         put B db (banKey (b_GenealogyID b) (b_Subject b)) (MarshalBan b)))"

definition GetBan :: "('db, 'tx) badger \<Rightarrow> string \<Rightarrow> string \<Rightarrow> 'db \<Rightarrow> err + Ban" where
  "GetBan B gid sub db = get B db (banKey gid sub) UnmarshalBan"

definition DeleteBan :: "('db, 'tx) badger \<Rightarrow> string \<Rightarrow> string \<Rightarrow> 'db \<Rightarrow> (err + unit) \<times> 'db" where
  "DeleteBan B gid sub db = delete_key B db (banKey gid sub)"

definition IsBanned :: "('db, 'tx) badger \<Rightarrow> string \<Rightarrow> string \<Rightarrow> 'db \<Rightarrow> err + bool" where
  "IsBanned B gid sub db =
     (case GetBan B gid sub db of
        Inr _ \<Rightarrow> Inr True
      | Inl e \<Rightarrow> if errors_Is e ErrNotFound then Inr False else Inl e)"

section \<open>Visibilities and roles\<close>

section \<open>Visibilities, roles and encodings\<close>

lemma Role_IsValid_iff:
  "Role_IsValid r \<longleftrightarrow> r = RoleViewer \<or> r = RoleContributor \<or> r = RoleCurator \<or> r = RoleOwner"
  unfolding Role_IsValid_def RoleViewer_def RoleContributor_def RoleCurator_def RoleOwner_def
  by unat_arith

lemma Unmarshal_MarshalUser [simp]: "UnmarshalUser (MarshalUser u) = Inr u"
  by (cases u) (auto simp: UnmarshalUser_def MarshalUser_def Unmarshal_def opt_member_def
      User_field_def User_zero_def lower_ascii_def)

lemma Unmarshal_MarshalGenealogy [simp]: "UnmarshalGenealogy (MarshalGenealogy g) = Inr g"
  by (cases g) (auto simp: UnmarshalGenealogy_def MarshalGenealogy_def Unmarshal_def
      Genealogy_field_def Genealogy_zero_def lower_ascii_def)

lemma Unmarshal_MarshalMembership [simp]: "UnmarshalMembership (MarshalMembership m) = Inr m"
  by (cases m) (auto simp: UnmarshalMembership_def MarshalMembership_def Unmarshal_def opt_member_def
      Membership_field_def Membership_zero_def lower_ascii_def)

lemma Unmarshal_MarshalBan [simp]: "UnmarshalBan (MarshalBan b) = Inr b"
  by (cases b) (auto simp: UnmarshalBan_def MarshalBan_def Unmarshal_def opt_member_def
      Ban_field_def Ban_zero_def lower_ascii_def)

lemma MarshalGenealogy_inject [simp]: "MarshalGenealogy g = MarshalGenealogy g' \<longleftrightarrow> g = g'"
  using Unmarshal_MarshalGenealogy by (metis sum.inject(2))

lemma MarshalMembership_inject [simp]: "MarshalMembership m = MarshalMembership m' \<longleftrightarrow> m = m'"
  using Unmarshal_MarshalMembership by (metis sum.inject(2))

section \<open>Keys\<close>

definition slash_free :: "string \<Rightarrow> bool" where
  "slash_free s \<longleftrightarrow> CHR ''/'' \<notin> set s"

lemmas key_defs = userKey_def genealogyKey_def membershipKey_def reverseMembershipKey_def banKey_def

lemma key_kinds [simp, key_simps]:
  "userKey s \<noteq> genealogyKey g" "userKey s \<noteq> membershipKey g t" "userKey s \<noteq> reverseMembershipKey t g"
  "userKey s \<noteq> banKey g t" "genealogyKey g \<noteq> userKey s" "genealogyKey g \<noteq> membershipKey h t"
  "genealogyKey g \<noteq> reverseMembershipKey t h" "genealogyKey g \<noteq> banKey h t"
  "membershipKey g t \<noteq> userKey s" "membershipKey g t \<noteq> genealogyKey h"
  "membershipKey g t \<noteq> reverseMembershipKey s h" "membershipKey g t \<noteq> banKey h s"
  "reverseMembershipKey t g \<noteq> userKey s" "reverseMembershipKey t g \<noteq> genealogyKey h"
  "reverseMembershipKey t g \<noteq> membershipKey h s" "reverseMembershipKey t g \<noteq> banKey h s"
  "banKey g t \<noteq> userKey s" "banKey g t \<noteq> genealogyKey h" "banKey g t \<noteq> membershipKey h s"
  "banKey g t \<noteq> reverseMembershipKey s h"
  by (simp_all add: key_defs)

lemma key_prefixes [simp, key_simps]:
  "\<not> prefix ''m/'' (userKey s)" "\<not> prefix ''m/'' (genealogyKey g)" "prefix ''m/'' (membershipKey g s)"
  "\<not> prefix ''m/'' (reverseMembershipKey s g)" "\<not> prefix ''m/'' (banKey g s)"
  "\<not> prefix ''mr/'' (userKey s)" "\<not> prefix ''mr/'' (genealogyKey g)" "\<not> prefix ''mr/'' (membershipKey g s)"
  "prefix ''mr/'' (reverseMembershipKey s g)" "\<not> prefix ''mr/'' (banKey g s)"
  "\<not> prefix ''b/'' (userKey s)" "\<not> prefix ''b/'' (genealogyKey g)" "\<not> prefix ''b/'' (membershipKey g s)"
  "\<not> prefix ''b/'' (reverseMembershipKey s g)" "prefix ''b/'' (banKey g s)"
  "\<not> prefix ''c/'' (userKey s)" "\<not> prefix ''c/'' (genealogyKey g)" "\<not> prefix ''c/'' (membershipKey g s)"
  "\<not> prefix ''c/'' (reverseMembershipKey s g)" "\<not> prefix ''c/'' (banKey g s)"
  by (simp_all add: key_defs)

lemma userKey_inject [simp, key_simps]: "userKey s = userKey t \<longleftrightarrow> s = t"
  by (simp add: key_defs)

lemma genealogyKey_inject [simp, key_simps]: "genealogyKey g = genealogyKey h \<longleftrightarrow> g = h"
  by (simp add: key_defs)

lemma membershipKey_inject [key_simps]:
  "slash_free g \<Longrightarrow> slash_free h \<Longrightarrow> membershipKey g s = membershipKey h t \<longleftrightarrow> g = h \<and> s = t"
  using append_sep_inject [of g "CHR ''/''" s h t] by (auto simp: key_defs slash_free_def)

lemma reverseMembershipKey_inject [key_simps]:
  "slash_free g \<Longrightarrow> slash_free h \<Longrightarrow>
   reverseMembershipKey s g = reverseMembershipKey t h \<longleftrightarrow> s = t \<and> g = h"
  using append_sep_inject_right [of s "CHR ''/''" g t h] by (auto simp: key_defs slash_free_def)

lemma banKey_inject [key_simps]:
  "slash_free g \<Longrightarrow> slash_free h \<Longrightarrow> banKey g s = banKey h t \<longleftrightarrow> g = h \<and> s = t"
  using append_sep_inject [of g "CHR ''/''" s h t] by (auto simp: key_defs slash_free_def)

lemma membershipKey_same [simp, key_simps]:
  "membershipKey g s = membershipKey g t \<longleftrightarrow> s = t" "banKey g s = banKey g t \<longleftrightarrow> s = t"
  "reverseMembershipKey s g = reverseMembershipKey s h \<longleftrightarrow> g = h"
  "reverseMembershipKey s g = reverseMembershipKey t g \<longleftrightarrow> s = t"
  "membershipKey g s = membershipKey h s \<longleftrightarrow> g = h"
  by (simp_all add: key_defs)

lemma prefix_membershipKey:
  "prefix (''m/'' @ g @ ''/'') k \<longleftrightarrow> (\<exists>s. k = membershipKey g s)"
  by (auto simp: key_defs prefix_def)

lemma prefix_genealogyKey: "prefix ''g/'' k \<longleftrightarrow> (\<exists>g. k = genealogyKey g)"
  by (auto simp: key_defs prefix_def)

section \<open>The store as a map\<close>

text \<open>What a lookup finds in the contents \<open>m\<close> of the database.\<close>

definition lookup :: "(string \<Rightarrow> blob option) \<Rightarrow> string \<Rightarrow> (blob \<Rightarrow> err + 'a) \<Rightarrow> err + 'a" where
  "lookup m k dec = (case m k of None \<Rightarrow> Inl ErrNotFound | Some b \<Rightarrow> dec b)"

abbreviation user_at where "user_at m sub \<equiv> lookup m (userKey sub) UnmarshalUser"
abbreviation gen_at where "gen_at m gid \<equiv> lookup m (genealogyKey gid) UnmarshalGenealogy"
abbreviation mem_at where "mem_at m gid sub \<equiv> lookup m (membershipKey gid sub) UnmarshalMembership"
abbreviation ban_at where "ban_at m gid sub \<equiv> lookup m (banKey gid sub) UnmarshalBan"

lemma lookup_upd_same [simp]: "lookup (m(k \<mapsto> b)) k dec = dec b"
  by (simp add: lookup_def)

lemma lookup_del_same [simp]: "lookup (m(k := None)) k dec = Inl ErrNotFound"
  by (simp add: lookup_def)

lemma lookup_upd_other [simp]: "k \<noteq> k' \<Longrightarrow> lookup (m(k := x)) k' dec = lookup m k' dec"
  by (simp add: lookup_def)

lemma Unmarshal_not_ErrNotFound [simp]:
  "UnmarshalUser b \<noteq> Inl ErrNotFound" "UnmarshalGenealogy b \<noteq> Inl ErrNotFound"
  "UnmarshalMembership b \<noteq> Inl ErrNotFound" "UnmarshalBan b \<noteq> Inl ErrNotFound"
  by (auto simp: UnmarshalUser_def UnmarshalGenealogy_def UnmarshalMembership_def UnmarshalBan_def
      dest: Unmarshal_err)

text \<open>
  Well-formed contents: every record sits under the key built from its own fields and passes
  the checks of the \<open>Put\<close> operations, genealogy ids contain no slash, and the canonical
  and the reverse membership index hold the same records.
\<close>

definition wf_genealogy :: "Genealogy \<Rightarrow> bool" where
  "wf_genealogy g \<longleftrightarrow> g_ID g \<noteq> [] \<and> slash_free (g_ID g) \<and> Visibility_IsValid (g_Visibility g)"

definition wf_membership :: "Membership \<Rightarrow> bool" where
  "wf_membership m \<longleftrightarrow> m_Subject m \<noteq> [] \<and> m_GenealogyID m \<noteq> [] \<and> slash_free (m_GenealogyID m) \<and>
     Role_IsValid (m_Role m)"

definition wf_ban :: "Ban \<Rightarrow> bool" where
  "wf_ban b \<longleftrightarrow> b_Subject b \<noteq> [] \<and> b_GenealogyID b \<noteq> [] \<and> slash_free (b_GenealogyID b)"

definition wf_gens :: "(string \<Rightarrow> blob option) \<Rightarrow> bool" where
  "wf_gens m \<longleftrightarrow> (\<forall>gid b. m (genealogyKey gid) = Some b \<longrightarrow>
     (\<exists>g. b = MarshalGenealogy g \<and> g_ID g = gid \<and> wf_genealogy g))"

definition wf_mems :: "(string \<Rightarrow> blob option) \<Rightarrow> bool" where
  "wf_mems m \<longleftrightarrow> (\<forall>k b. prefix ''m/'' k \<and> m k = Some b \<longrightarrow>
     (\<exists>r. b = MarshalMembership r \<and> k = membershipKey (m_GenealogyID r) (m_Subject r) \<and> wf_membership r))"

definition wf_revs :: "(string \<Rightarrow> blob option) \<Rightarrow> bool" where
  "wf_revs m \<longleftrightarrow> (\<forall>k b. prefix ''mr/'' k \<and> m k = Some b \<longrightarrow>
     (\<exists>r. b = MarshalMembership r \<and> k = reverseMembershipKey (m_Subject r) (m_GenealogyID r) \<and> wf_membership r))"

definition wf_index :: "(string \<Rightarrow> blob option) \<Rightarrow> bool" where
  "wf_index m \<longleftrightarrow> (\<forall>gid sub. slash_free gid \<longrightarrow>
     m (membershipKey gid sub) = m (reverseMembershipKey sub gid))"

definition wf_bans :: "(string \<Rightarrow> blob option) \<Rightarrow> bool" where
  "wf_bans m \<longleftrightarrow> (\<forall>k b. prefix ''b/'' k \<and> m k = Some b \<longrightarrow>
     (\<exists>r. b = MarshalBan r \<and> k = banKey (b_GenealogyID r) (b_Subject r) \<and> wf_ban r))"

definition platform_wf :: "(string \<Rightarrow> blob option) \<Rightarrow> bool" where
  "platform_wf m \<longleftrightarrow> wf_gens m \<and> wf_mems m \<and> wf_revs m \<and> wf_index m \<and> wf_bans m"

lemmas wf_defs = wf_gens_def wf_mems_def wf_revs_def wf_index_def wf_bans_def

lemma platform_wf_empty: "platform_wf Map.empty"
  by (simp add: platform_wf_def wf_defs)

text \<open>Writes that keep the contents well-formed, stated on maps.\<close>

lemma platform_wf_genealogy:
  "platform_wf m \<Longrightarrow> wf_genealogy g \<Longrightarrow> platform_wf (m(genealogyKey (g_ID g) \<mapsto> MarshalGenealogy g))"
  by (auto simp: platform_wf_def wf_defs key_simps)

lemma platform_wf_membership:
  assumes "platform_wf m" and "wf_membership r"
  shows "platform_wf (m(membershipKey (m_GenealogyID r) (m_Subject r) \<mapsto> MarshalMembership r,
                        reverseMembershipKey (m_Subject r) (m_GenealogyID r) \<mapsto> MarshalMembership r))"
proof -
  have sf: "slash_free (m_GenealogyID r)" using assms(2) by (simp add: wf_membership_def)
  show ?thesis
    using assms sf by (auto simp: platform_wf_def wf_defs key_simps)
qed

lemma platform_wf_del_membership:
  assumes "platform_wf m" and "slash_free gid"
  shows "platform_wf (m(membershipKey gid sub := None, reverseMembershipKey sub gid := None))"
  using assms by (auto simp: platform_wf_def wf_defs key_simps)

lemma platform_wf_ban:
  "platform_wf m \<Longrightarrow> wf_ban b \<Longrightarrow> platform_wf (m(banKey (b_GenealogyID b) (b_Subject b) \<mapsto> MarshalBan b))"
  by (auto simp: platform_wf_def wf_defs key_simps)

lemma platform_wf_del_other:
  "platform_wf m \<Longrightarrow> platform_wf (m(genealogyKey gid := None))"
  "platform_wf m \<Longrightarrow> platform_wf (m(banKey gid sub := None))"
  by (auto simp: platform_wf_def wf_defs key_simps)

lemma platform_wf_frame:
  assumes "platform_wf m"
    and "\<forall>gid. k \<noteq> genealogyKey gid" and "\<not> prefix ''m/'' k" and "\<not> prefix ''mr/'' k" and "\<not> prefix ''b/'' k"
  shows "platform_wf (m(k := x))"
proof -
  have "k \<noteq> membershipKey gid sub" "k \<noteq> reverseMembershipKey sub gid" for gid sub
    using assms(3,4) by auto
  then show ?thesis using assms by (auto simp: platform_wf_def wf_defs)
qed

end
