(* ===== verification/Proto.thy ===== *)
theory Proto
  imports Prelude
begin

text \<open>
  The messages of the API (\<open>gen/go/linea/v1/*.pb.go\<close>, generated from \<open>proto/\<close>)
  as records of the fields the accessors return. Enumerations of proto3 are open: a field can
  hold any 32-bit value, so an enumeration is its \<open>int32\<close> with named constants. A field of
  message type is a pointer that may be nil, an option here; a timestamp is named by the Unix
  second it was made from. Messages without fields are \<^typ>\<open>unit\<close>.
\<close>

type_synonym int32 = "32 word" \<comment> \<open>two's complement; read with \<open>sint\<close>\<close>

section \<open>common.proto\<close>

type_synonym pb_Certainty = int32

definition CERTAINTY_UNSPECIFIED :: pb_Certainty where [simp]: "CERTAINTY_UNSPECIFIED = 0"
definition CERTAINTY_UNCERTAIN :: pb_Certainty where [simp]: "CERTAINTY_UNCERTAIN = 1"
definition CERTAINTY_PROBABLE :: pb_Certainty where [simp]: "CERTAINTY_PROBABLE = 2"
definition CERTAINTY_CERTAIN :: pb_Certainty where [simp]: "CERTAINTY_CERTAIN = 3"

type_synonym pb_ContinuityState = int32

definition CONTINUITY_STATE_UNSPECIFIED :: pb_ContinuityState where [simp]: "CONTINUITY_STATE_UNSPECIFIED = 0"
definition CONTINUITY_STATE_CONTINUOUS :: pb_ContinuityState where [simp]: "CONTINUITY_STATE_CONTINUOUS = 1"
definition CONTINUITY_STATE_GAPPED :: pb_ContinuityState where [simp]: "CONTINUITY_STATE_GAPPED = 2"

record pb_Continuity =
  Continuity_State :: pb_ContinuityState
  Continuity_GapKnownSize :: bool
  Continuity_GapSize :: int32

type_synonym pb_RelationshipType = int32

definition RELATIONSHIP_TYPE_UNSPECIFIED :: pb_RelationshipType where [simp]: "RELATIONSHIP_TYPE_UNSPECIFIED = 0"
definition RELATIONSHIP_TYPE_PARENT_CHILD :: pb_RelationshipType where [simp]: "RELATIONSHIP_TYPE_PARENT_CHILD = 1"
definition RELATIONSHIP_TYPE_MARRIAGE :: pb_RelationshipType where [simp]: "RELATIONSHIP_TYPE_MARRIAGE = 2"

type_synonym pb_PathClassification = int32

definition PATH_CLASSIFICATION_UNSPECIFIED :: pb_PathClassification where [simp]: "PATH_CLASSIFICATION_UNSPECIFIED = 0"
definition PATH_CLASSIFICATION_LINEAGE :: pb_PathClassification where [simp]: "PATH_CLASSIFICATION_LINEAGE = 1"
definition PATH_CLASSIFICATION_AFFINAL :: pb_PathClassification where [simp]: "PATH_CLASSIFICATION_AFFINAL = 2"

record pb_Id =
  Id_Value :: string

record pb_Name =
  Name_Text :: string
  Name_Language :: string
  Name_Script :: string
  Name_Type :: string
  Name_Preferred :: bool

record pb_TimeRange =
  TimeRange_EarliestKnown :: bool
  TimeRange_EarliestYear :: int32
  TimeRange_LatestKnown :: bool
  TimeRange_LatestYear :: int32
  TimeRange_Calendar :: string
  TimeRange_Circa :: bool

record pb_Person =
  Person_Id :: "pb_Id option"
  Person_UnknownAncestor :: bool
  Person_Names :: "pb_Name list"
  Person_Gender :: string
  Person_Birth :: "pb_TimeRange option"
  Person_Death :: "pb_TimeRange option"
  Person_Notes :: string

record pb_Relationship =
  Relationship_Id :: "pb_Id option"
  Relationship_FromPerson :: "pb_Id option"
  Relationship_ToPerson :: "pb_Id option"
  Relationship_Type :: pb_RelationshipType
  Relationship_Certainty :: pb_Certainty
  Relationship_Continuity :: "pb_Continuity option"
  Relationship_TimeRange :: "pb_TimeRange option"
  Relationship_Notes :: string
  Relationship_Sources :: "pb_Id list"

type_synonym pb_SourceType = int32

definition SOURCE_TYPE_UNSPECIFIED :: pb_SourceType where [simp]: "SOURCE_TYPE_UNSPECIFIED = 0"
definition SOURCE_TYPE_PRIMARY :: pb_SourceType where [simp]: "SOURCE_TYPE_PRIMARY = 1"
definition SOURCE_TYPE_SECONDARY :: pb_SourceType where [simp]: "SOURCE_TYPE_SECONDARY = 2"
definition SOURCE_TYPE_ORAL :: pb_SourceType where [simp]: "SOURCE_TYPE_ORAL = 3"
definition SOURCE_TYPE_DERIVED :: pb_SourceType where [simp]: "SOURCE_TYPE_DERIVED = 4"
definition SOURCE_TYPE_OTHER :: pb_SourceType where [simp]: "SOURCE_TYPE_OTHER = 5"

record pb_Source =
  Source_Id :: "pb_Id option"
  Source_Type :: pb_SourceType
  Source_Citation :: string
  Source_Author :: string
  Source_Title :: string
  Source_Date :: string
  Source_Locator :: string
  Source_Notes :: string

type_synonym pb_ProposalState = int32

definition PROPOSAL_STATE_UNSPECIFIED :: pb_ProposalState where [simp]: "PROPOSAL_STATE_UNSPECIFIED = 0"
definition PROPOSAL_STATE_DRAFT :: pb_ProposalState where [simp]: "PROPOSAL_STATE_DRAFT = 1"
definition PROPOSAL_STATE_SUBMITTED :: pb_ProposalState where [simp]: "PROPOSAL_STATE_SUBMITTED = 2"
definition PROPOSAL_STATE_UNDER_REVIEW :: pb_ProposalState where [simp]: "PROPOSAL_STATE_UNDER_REVIEW = 3"
definition PROPOSAL_STATE_ACCEPTED :: pb_ProposalState where [simp]: "PROPOSAL_STATE_ACCEPTED = 4"
definition PROPOSAL_STATE_REJECTED :: pb_ProposalState where [simp]: "PROPOSAL_STATE_REJECTED = 5"
definition PROPOSAL_STATE_WITHDRAWN :: pb_ProposalState where [simp]: "PROPOSAL_STATE_WITHDRAWN = 6"

type_synonym pb_ProposalAction = int32

definition PROPOSAL_ACTION_UNSPECIFIED :: pb_ProposalAction where [simp]: "PROPOSAL_ACTION_UNSPECIFIED = 0"
definition PROPOSAL_ACTION_CREATE :: pb_ProposalAction where [simp]: "PROPOSAL_ACTION_CREATE = 1"
definition PROPOSAL_ACTION_UPDATE :: pb_ProposalAction where [simp]: "PROPOSAL_ACTION_UPDATE = 2"
definition PROPOSAL_ACTION_RETRACT :: pb_ProposalAction where [simp]: "PROPOSAL_ACTION_RETRACT = 3"
definition PROPOSAL_ACTION_MERGE :: pb_ProposalAction where [simp]: "PROPOSAL_ACTION_MERGE = 4"
definition PROPOSAL_ACTION_SAME_AS_LINK :: pb_ProposalAction where [simp]: "PROPOSAL_ACTION_SAME_AS_LINK = 5"

type_synonym pb_EntityKind = int32

definition ENTITY_KIND_UNSPECIFIED :: pb_EntityKind where [simp]: "ENTITY_KIND_UNSPECIFIED = 0"
definition ENTITY_KIND_PERSON :: pb_EntityKind where [simp]: "ENTITY_KIND_PERSON = 1"
definition ENTITY_KIND_RELATIONSHIP :: pb_EntityKind where [simp]: "ENTITY_KIND_RELATIONSHIP = 2"
definition ENTITY_KIND_SOURCE :: pb_EntityKind where [simp]: "ENTITY_KIND_SOURCE = 3"

record pb_ProposalTransition =
  ProposalTransition_From :: pb_ProposalState
  ProposalTransition_To :: pb_ProposalState
  ProposalTransition_Actor :: string
  ProposalTransition_At :: "int64 option"
  ProposalTransition_Reason :: string

record pb_Proposal =
  Proposal_Id :: "pb_Id option"
  Proposal_State :: pb_ProposalState
  Proposal_Action :: pb_ProposalAction
  Proposal_EntityKind :: pb_EntityKind
  Proposal_TargetId :: "pb_Id option"
  Proposal_SecondaryId :: "pb_Id option"
  Proposal_Payload :: string
  Proposal_Reason :: string
  Proposal_Sources :: "pb_Id list"
  Proposal_Author :: string
  Proposal_CreatedAt :: "int64 option"
  Proposal_History :: "pb_ProposalTransition list"

section \<open>genealogies.proto\<close>

type_synonym pb_Visibility = int32

definition VISIBILITY_UNSPECIFIED :: pb_Visibility where [simp]: "VISIBILITY_UNSPECIFIED = 0"
definition VISIBILITY_PRIVATE :: pb_Visibility where [simp]: "VISIBILITY_PRIVATE = 1"
definition VISIBILITY_UNLISTED :: pb_Visibility where [simp]: "VISIBILITY_UNLISTED = 2"
definition VISIBILITY_PUBLIC :: pb_Visibility where [simp]: "VISIBILITY_PUBLIC = 3"

type_synonym pb_GenealogyRole = int32

definition GENEALOGY_ROLE_UNSPECIFIED :: pb_GenealogyRole where [simp]: "GENEALOGY_ROLE_UNSPECIFIED = 0"
definition GENEALOGY_ROLE_NONE :: pb_GenealogyRole where [simp]: "GENEALOGY_ROLE_NONE = 1"
definition GENEALOGY_ROLE_VIEWER :: pb_GenealogyRole where [simp]: "GENEALOGY_ROLE_VIEWER = 2"
definition GENEALOGY_ROLE_CONTRIBUTOR :: pb_GenealogyRole where [simp]: "GENEALOGY_ROLE_CONTRIBUTOR = 3"
definition GENEALOGY_ROLE_CURATOR :: pb_GenealogyRole where [simp]: "GENEALOGY_ROLE_CURATOR = 4"
definition GENEALOGY_ROLE_OWNER :: pb_GenealogyRole where [simp]: "GENEALOGY_ROLE_OWNER = 5"

record pb_Genealogy =
  Genealogy_Id :: string
  Genealogy_Name :: string
  Genealogy_Visibility :: pb_Visibility
  Genealogy_CreatedBy :: string
  Genealogy_CreatedAt :: "int64 option"
  Genealogy_MyRole :: pb_GenealogyRole

record pb_Membership =
  Membership_Subject :: string
  Membership_GenealogyId :: string
  Membership_Role :: pb_GenealogyRole
  Membership_GrantedBy :: string
  Membership_GrantedAt :: "int64 option"

record pb_Ban =
  Ban_Subject :: string
  Ban_GenealogyId :: string
  Ban_Reason :: string
  Ban_By :: string
  Ban_At :: "int64 option"

record pb_CreateGenealogyRequest =
  CreateGenealogyRequest_Name :: string
  CreateGenealogyRequest_Visibility :: pb_Visibility

record pb_CreateGenealogyResponse =
  CreateGenealogyResponse_Genealogy :: "pb_Genealogy option"

record pb_ListGenealogiesRequest =
  ListGenealogiesRequest_PageSize :: int32
  ListGenealogiesRequest_PageToken :: string

record pb_ListGenealogiesResponse =
  ListGenealogiesResponse_Genealogies :: "pb_Genealogy list"
  ListGenealogiesResponse_NextPageToken :: string

record pb_GetGenealogyRequest =
  GetGenealogyRequest_Id :: string

record pb_GetGenealogyResponse =
  GetGenealogyResponse_Genealogy :: "pb_Genealogy option"

record pb_UpdateVisibilityRequest =
  UpdateVisibilityRequest_Id :: string
  UpdateVisibilityRequest_Visibility :: pb_Visibility

record pb_DeleteGenealogyRequest =
  DeleteGenealogyRequest_Id :: string

record pb_UpsertMembershipRequest =
  UpsertMembershipRequest_GenealogyId :: string
  UpsertMembershipRequest_Subject :: string
  UpsertMembershipRequest_Role :: pb_GenealogyRole

record pb_RemoveMemberRequest =
  RemoveMemberRequest_GenealogyId :: string
  RemoveMemberRequest_Subject :: string

record pb_LeaveGenealogyRequest =
  LeaveGenealogyRequest_Id :: string

record pb_BanUserRequest =
  BanUserRequest_GenealogyId :: string
  BanUserRequest_Subject :: string
  BanUserRequest_Reason :: string

record pb_UnbanUserRequest =
  UnbanUserRequest_GenealogyId :: string
  UnbanUserRequest_Subject :: string

record pb_ListMembersRequest =
  ListMembersRequest_GenealogyId :: string
  ListMembersRequest_PageSize :: int32
  ListMembersRequest_PageToken :: string

record pb_ListMembersResponse =
  ListMembersResponse_Memberships :: "pb_Membership list"
  ListMembersResponse_NextPageToken :: string

section \<open>entities.proto\<close>

record pb_GetPersonRequest =
  GetPersonRequest_GenealogyId :: string
  GetPersonRequest_Id :: "pb_Id option"

record pb_GetPersonResponse =
  GetPersonResponse_Person :: "pb_Person option"
  GetPersonResponse_GraphVersion :: uint64

record pb_ListPersonsRequest =
  ListPersonsRequest_GenealogyId :: string
  ListPersonsRequest_PageSize :: int32
  ListPersonsRequest_PageToken :: string

record pb_ListPersonsResponse =
  ListPersonsResponse_Persons :: "pb_Person list"
  ListPersonsResponse_NextPageToken :: string
  ListPersonsResponse_GraphVersion :: uint64

record pb_GetRelationshipRequest =
  GetRelationshipRequest_GenealogyId :: string
  GetRelationshipRequest_Id :: "pb_Id option"

record pb_GetRelationshipResponse =
  GetRelationshipResponse_Relationship :: "pb_Relationship option"
  GetRelationshipResponse_GraphVersion :: uint64

record pb_ListRelationshipsRequest =
  ListRelationshipsRequest_GenealogyId :: string
  ListRelationshipsRequest_PageSize :: int32
  ListRelationshipsRequest_PageToken :: string

record pb_ListRelationshipsResponse =
  ListRelationshipsResponse_Relationships :: "pb_Relationship list"
  ListRelationshipsResponse_NextPageToken :: string
  ListRelationshipsResponse_GraphVersion :: uint64

record pb_GetSourceRequest =
  GetSourceRequest_GenealogyId :: string
  GetSourceRequest_Id :: "pb_Id option"

record pb_GetSourceResponse =
  GetSourceResponse_Source :: "pb_Source option"
  GetSourceResponse_GraphVersion :: uint64

record pb_ListSourcesRequest =
  ListSourcesRequest_GenealogyId :: string
  ListSourcesRequest_PageSize :: int32
  ListSourcesRequest_PageToken :: string

record pb_ListSourcesResponse =
  ListSourcesResponse_Sources :: "pb_Source list"
  ListSourcesResponse_NextPageToken :: string
  ListSourcesResponse_GraphVersion :: uint64

section \<open>proposals.proto\<close>

record pb_GetProposalRequest =
  GetProposalRequest_GenealogyId :: string
  GetProposalRequest_Id :: "pb_Id option"

record pb_GetProposalResponse =
  GetProposalResponse_Proposal :: "pb_Proposal option"
  GetProposalResponse_GraphVersion :: uint64

record pb_ListProposalsRequest =
  ListProposalsRequest_GenealogyId :: string
  ListProposalsRequest_PageSize :: int32
  ListProposalsRequest_PageToken :: string
  ListProposalsRequest_StateFilter :: pb_ProposalState

record pb_ListProposalsResponse =
  ListProposalsResponse_Proposals :: "pb_Proposal list"
  ListProposalsResponse_NextPageToken :: string
  ListProposalsResponse_GraphVersion :: uint64

record pb_CreateProposalRequest =
  CreateProposalRequest_GenealogyId :: string
  CreateProposalRequest_Action :: pb_ProposalAction
  CreateProposalRequest_EntityKind :: pb_EntityKind
  CreateProposalRequest_TargetId :: "pb_Id option"
  CreateProposalRequest_SecondaryId :: "pb_Id option"
  CreateProposalRequest_Payload :: string
  CreateProposalRequest_Reason :: string
  CreateProposalRequest_Sources :: "pb_Id list"

record pb_CreateProposalResponse =
  CreateProposalResponse_Proposal :: "pb_Proposal option"
  CreateProposalResponse_GraphVersion :: uint64

record pb_TransitionRequest =
  TransitionRequest_GenealogyId :: string
  TransitionRequest_Id :: "pb_Id option"
  TransitionRequest_Reason :: string

record pb_BulkRejectRequest =
  BulkRejectRequest_GenealogyId :: string
  BulkRejectRequest_Ids :: "pb_Id list"
  BulkRejectRequest_Reason :: string

record pb_BulkRejectResult =
  BulkRejectResult_Id :: "pb_Id option"
  BulkRejectResult_Ok :: bool
  BulkRejectResult_Error :: string

record pb_BulkRejectResponse =
  BulkRejectResponse_Results :: "pb_BulkRejectResult list"

section \<open>queries.proto\<close>

record pb_FindPathsRequest =
  FindPathsRequest_GenealogyId :: string
  FindPathsRequest_From :: "pb_Id option"
  FindPathsRequest_To :: "pb_Id option"
  FindPathsRequest_MaxDepth :: int32
  FindPathsRequest_MaxPaths :: int32
  FindPathsRequest_IncludeAffinal :: bool

record pb_Step =
  Step_FromPerson :: "pb_Id option"
  Step_ToPerson :: "pb_Id option"
  Step_RelationshipId :: "pb_Id option"
  Step_Type :: pb_RelationshipType
  Step_Certainty :: pb_Certainty
  Step_Continuity :: "pb_Continuity option"
  Step_IsWeakestLink :: bool
  Step_Sources :: "pb_Id list"

record pb_Path =
  Path_From :: "pb_Id option"
  Path_To :: "pb_Id option"
  Path_Length :: int32
  Path_Certainty :: pb_Certainty
  Path_TotalGapGenerations :: int32
  Path_GapEdgeCount :: int32
  Path_Classification :: pb_PathClassification
  Path_Steps :: "pb_Step list"
  Path_GraphVersion :: uint64

record pb_FindPathsResponse =
  FindPathsResponse_Paths :: "pb_Path list"
  FindPathsResponse_GraphVersion :: uint64

record pb_NKCARequest =
  NKCARequest_GenealogyId :: string
  NKCARequest_A :: "pb_Id option"
  NKCARequest_B :: "pb_Id option"

record pb_NKCAResponse =
  NKCAResponse_AncestorId :: "pb_Id option"
  NKCAResponse_AncestorIsUnknown :: bool
  NKCAResponse_TotalGenerations :: int32
  NKCAResponse_CombinedCertainty :: pb_Certainty
  NKCAResponse_PathFromA :: "pb_Path option"
  NKCAResponse_PathFromB :: "pb_Path option"
  NKCAResponse_GraphVersion :: uint64

section \<open>server.proto\<close>

record pb_VersionResponse =
  VersionResponse_SpecVersion :: string
  VersionResponse_ServerVersion :: string
  VersionResponse_GraphVersion :: uint64
  VersionResponse_TenantId :: string

end
