(* ===== verification/Core.thy ===== *)
theory Core
  imports Proto
begin

text \<open>
  The interface of the genealogy library (module Linea-core, not part of this repository) as
  the server uses it. Enumerations have the constants the server names, and \<open>\<dots>Other\<close> for
  every other value; which of them is Go's zero value is a parameter. A domain object is
  the record of what its accessor methods return. The functions of the library are the record
  \<open>core\<close>, an argument of every definition that calls them.

  The type parameters are the outside state \<open>'fs\<close> on which open stores live, store handles
  \<open>'h\<close>, read transactions \<open>'rtx\<close>, write transactions \<open>'wtx\<close> and the paths
  and common-ancestor results of the query package, which the server only passes on.
\<close>

type_synonym ID = string

datatype Certainty = CertaintyCertain | CertaintyProbable | CertaintyUncertain | CertaintyOther int

datatype ContinuityState = ContinuityContinuous | ContinuityGapped | ContinuityStateOther int

datatype RelationshipType = RelTypeParentChild | RelTypeMarriage | RelTypeOther int

datatype ProposalState =
    ProposalDraft | ProposalSubmitted | ProposalUnderReview | ProposalAccepted
  | ProposalRejected | ProposalWithdrawn | ProposalStateOther int

datatype ProposalAction =
    ProposalActionCreate | ProposalActionUpdate | ProposalActionRetract
  | ProposalActionMerge | ProposalActionSameAsLink | ProposalActionOther int

datatype EntityKind = EntityKindPerson | EntityKindRelationship | EntityKindSource | EntityKindOther int

datatype SourceType =
    SourceTypePrimary | SourceTypeSecondary | SourceTypeOral | SourceTypeDerived
  | SourceTypeOther | SourceTypeUnnamed int

datatype PathClassification = PathLineage | PathAffinal | PathClassificationOther int

record Gap =
  Gap_KnownSize :: bool
  Gap_Size :: int64

record Continuity =
  State :: ContinuityState
  Gap :: Gap

record TimePoint =
  KnownYear :: bool
  Year :: int64

record TimeRange =
  Earliest :: TimePoint
  Latest :: TimePoint
  Calendar :: string
  Circa :: bool
  IsZero :: bool \<comment> \<open>what the method \<open>IsZero\<close> returns\<close>

record Name =
  n_Text :: string
  n_Language :: string
  n_Script :: string
  n_Type :: string
  n_Preferred :: bool

record Person =
  p_ID :: ID
  p_IsUnknownAncestor :: bool
  p_Names :: "Name list"
  p_Gender :: string
  p_Birth :: TimeRange
  p_Death :: TimeRange
  p_Notes :: string

record Relationship =
  r_ID :: ID
  r_From :: ID
  r_To :: ID
  r_Type :: RelationshipType
  r_Certainty :: Certainty
  r_Continuity :: Continuity
  r_TimeRange :: TimeRange
  r_Notes :: string
  r_Sources :: "ID list"

record Source =
  s_ID :: ID
  s_Type :: SourceType
  s_Citation :: string
  s_Author :: string
  s_Title :: string
  s_Date :: string
  s_Locator :: string
  s_Notes :: string

record Transition =
  h_From :: ProposalState
  h_To :: ProposalState
  h_Actor :: string
  h_Reason :: string
  h_Timestamp :: int64

record Proposal =
  pr_ID :: ID
  pr_State :: ProposalState
  pr_Action :: ProposalAction
  pr_EntityKind :: EntityKind
  pr_TargetID :: ID
  pr_SecondaryID :: ID
  pr_Payload :: string
  pr_Reason :: string
  pr_Author :: string
  pr_CreatedAt :: int64
  pr_Sources :: "ID list"
  pr_History :: "Transition list"

record ProposalOptions =
  po_TargetID :: ID
  po_SecondaryID :: ID
  po_Payload :: string
  po_Reason :: string
  po_Sources :: "ID list"
  po_Author :: string
  po_CreatedAt :: int64

record EdgeExplanation =
  e_FromPerson :: ID
  e_ToPerson :: ID
  e_RelationshipID :: ID
  e_Type :: RelationshipType
  e_Certainty :: Certainty
  e_Continuity :: Continuity
  e_IsWeakestLink :: bool
  e_SourceIDs :: "ID list"

record PathExplanation =
  x_From :: ID
  x_To :: ID
  x_Length :: int64
  x_OverallCertainty :: Certainty
  x_TotalGapGenerations :: int64
  x_GapEdgeCount :: int64
  x_Classification :: PathClassification
  x_GraphVersion :: uint64
  x_Edges :: "EdgeExplanation list"

record CommonAncestorExplanation =
  a_AncestorID :: ID
  a_AncestorIsUnknown :: bool
  a_TotalGenerations :: int64
  a_CombinedCertainty :: Certainty
  a_GraphVersion :: uint64
  a_PathFromA :: "PathExplanation option"
  a_PathFromB :: "PathExplanation option"

record QueryOptions =
  MaxDepth :: int64
  MaxPaths :: int64
  IncludeAffinal :: bool

text \<open>
  An iteration delivers its objects in order and ends with an error or nil. A call that may
  write returns its result and the new outside state.
\<close>

record ('fs, 'h, 'rtx, 'wtx, 'path, 'anc) core =
  zero_Certainty :: Certainty
  zero_RelationshipType :: RelationshipType
  zero_ProposalState :: ProposalState
  zero_ProposalAction :: ProposalAction
  zero_EntityKind :: EntityKind
  ID_String :: "ID \<Rightarrow> string"
  ParseID :: "string \<Rightarrow> err + ID"
  NewContinuous :: Continuity
  KnownGap :: "int64 \<Rightarrow> err + Gap"
  UnknownGap :: Gap
  NewGapped :: "Gap \<Rightarrow> Continuity"
  Continuity_zero :: Continuity
  NewProposal :: "ID \<Rightarrow> ProposalAction \<Rightarrow> EntityKind \<Rightarrow> ProposalOptions \<Rightarrow> err + Proposal"
  Error_String :: "err \<Rightarrow> string"
  StoreView :: "'h \<Rightarrow> 'fs \<Rightarrow> err + 'rtx"
  Version :: "'rtx \<Rightarrow> uint64"
  rtx_GetPerson :: "'rtx \<Rightarrow> ID \<Rightarrow> err + Person"
  rtx_GetRelationship :: "'rtx \<Rightarrow> ID \<Rightarrow> err + Relationship"
  rtx_GetSource :: "'rtx \<Rightarrow> ID \<Rightarrow> err + Source"
  rtx_GetProposal :: "'rtx \<Rightarrow> ID \<Rightarrow> err + Proposal"
  IteratePersons :: "'rtx \<Rightarrow> Person list \<times> (err + unit)"
  IterateRelationships :: "'rtx \<Rightarrow> Relationship list \<times> (err + unit)"
  IterateSources :: "'rtx \<Rightarrow> Source list \<times> (err + unit)"
  IterateProposals :: "'rtx \<Rightarrow> Proposal list \<times> (err + unit)"
  StoreUpdate :: "'h \<Rightarrow> ('wtx \<Rightarrow> err + 'wtx) \<Rightarrow> 'fs \<Rightarrow> (err + uint64) \<times> 'fs"
  PutProposal :: "Proposal \<Rightarrow> 'wtx \<Rightarrow> err + 'wtx"
  gov_Submit :: "'h \<Rightarrow> ID \<Rightarrow> string \<Rightarrow> int64 \<Rightarrow> 'fs \<Rightarrow> (err + Proposal) \<times> 'fs"
  gov_Claim :: "'h \<Rightarrow> ID \<Rightarrow> string \<Rightarrow> int64 \<Rightarrow> 'fs \<Rightarrow> (err + Proposal) \<times> 'fs"
  gov_Accept :: "'h \<Rightarrow> ID \<Rightarrow> string \<Rightarrow> int64 \<Rightarrow> 'fs \<Rightarrow> (err + Proposal) \<times> 'fs"
  gov_Withdraw :: "'h \<Rightarrow> ID \<Rightarrow> string \<Rightarrow> int64 \<Rightarrow> string \<Rightarrow> 'fs \<Rightarrow> (err + Proposal) \<times> 'fs"
  gov_Reject :: "'h \<Rightarrow> ID \<Rightarrow> string \<Rightarrow> int64 \<Rightarrow> string \<Rightarrow> 'fs \<Rightarrow> (err + Proposal) \<times> 'fs"
  query_FindPaths :: "'rtx \<Rightarrow> ID \<Rightarrow> ID \<Rightarrow> QueryOptions \<Rightarrow> err + 'path list"
  query_NearestKnownCommonAncestor :: "'rtx \<Rightarrow> ID \<Rightarrow> ID \<Rightarrow> QueryOptions \<Rightarrow> err + 'anc"
  explain_Path :: "'rtx \<Rightarrow> 'path \<Rightarrow> err + PathExplanation"
  explain_CommonAncestor :: "'rtx \<Rightarrow> 'anc \<Rightarrow> err + CommonAncestorExplanation"

section \<open>A small library\<close>

text \<open>
  A concrete instance for evaluating the model: stores share one list of proposals, ids are
  any non-empty strings, a transition sets the state. It makes no claim about the real library.
\<close>

definition sim_gap :: "bool \<Rightarrow> int64 \<Rightarrow> Gap" where
  "sim_gap known n = \<lparr>Gap_KnownSize = known, Gap_Size = n\<rparr>"

definition sim_new_proposal ::
  "ID \<Rightarrow> ProposalAction \<Rightarrow> EntityKind \<Rightarrow> ProposalOptions \<Rightarrow> err + Proposal" where
  "sim_new_proposal i a k opts = Inr
     \<lparr>pr_ID = i, pr_State = ProposalDraft, pr_Action = a, pr_EntityKind = k, pr_TargetID = po_TargetID opts,
      pr_SecondaryID = po_SecondaryID opts, pr_Payload = po_Payload opts, pr_Reason = po_Reason opts,
      pr_Author = po_Author opts, pr_CreatedAt = po_CreatedAt opts, pr_Sources = po_Sources opts,
      pr_History = []\<rparr>"

definition sim_find :: "ID \<Rightarrow> Proposal list \<Rightarrow> err + Proposal" where
  "sim_find i ps =
     (case find (\<lambda>p. pr_ID p = i) ps of
        Some p \<Rightarrow> Inr p | None \<Rightarrow> Inl (LError CodeProposalNotFound ''proposal not found''))"

definition sim_move :: "ProposalState \<Rightarrow> ID \<Rightarrow> Proposal list \<Rightarrow> (err + Proposal) \<times> Proposal list" where
  "sim_move s i ps =
     (case sim_find i ps of
        Inl e \<Rightarrow> (Inl e, ps)
      | Inr p \<Rightarrow> (Inr (p\<lparr>pr_State := s\<rparr>), map (\<lambda>q. if pr_ID q = i then q\<lparr>pr_State := s\<rparr> else q) ps))"

definition sim_core :: "(Proposal list, string, Proposal list, Proposal list, unit, unit) core" where
  "sim_core =
     \<lparr>zero_Certainty = CertaintyOther 0, zero_RelationshipType = RelTypeOther 0,
      zero_ProposalState = ProposalStateOther 0, zero_ProposalAction = ProposalActionOther 0,
      zero_EntityKind = EntityKindOther 0,
      ID_String = (\<lambda>i. i),
      ParseID = (\<lambda>s. if s = [] then Inl (LError CodeInvalidArgument ''empty id'') else Inr s),
      NewContinuous = \<lparr>State = ContinuityContinuous, Gap = sim_gap False 0\<rparr>,
      KnownGap = (\<lambda>n. if 0 <s n then Inr (sim_gap True n) else Inl (LError CodeInvalidArgument ''gap size'')),
      UnknownGap = sim_gap False 0,
      NewGapped = (\<lambda>g. \<lparr>State = ContinuityGapped, Gap = g\<rparr>),
      Continuity_zero = \<lparr>State = ContinuityStateOther 0, Gap = sim_gap False 0\<rparr>,
      NewProposal = sim_new_proposal,
      Error_String = (\<lambda>e. case e of LError c s \<Rightarrow> s | _ \<Rightarrow> ''error''),
      StoreView = (\<lambda>h ps. Inr ps),
      Version = (\<lambda>ps. of_nat (length ps)),
      rtx_GetPerson = (\<lambda>_ _. Inl (LError CodePersonNotFound ''person not found'')),
      rtx_GetRelationship = (\<lambda>_ _. Inl (LError CodeRelationshipNotFound ''relationship not found'')),
      rtx_GetSource = (\<lambda>_ _. Inl (LError CodeSourceNotFound ''source not found'')),
      rtx_GetProposal = (\<lambda>ps i. sim_find i ps),
      IteratePersons = (\<lambda>_. ([], nil_err)), IterateRelationships = (\<lambda>_. ([], nil_err)),
      IterateSources = (\<lambda>_. ([], nil_err)), IterateProposals = (\<lambda>ps. (ps, nil_err)),
      StoreUpdate = (\<lambda>h fn ps. case fn ps of Inl e \<Rightarrow> (Inl e, ps) | Inr ps' \<Rightarrow> (Inr (of_nat (length ps')), ps')),
      PutProposal = (\<lambda>p ps. Inr (p # ps)),
      gov_Submit = (\<lambda>h i actor t. sim_move ProposalSubmitted i),
      gov_Claim = (\<lambda>h i actor t. sim_move ProposalUnderReview i),
      gov_Accept = (\<lambda>h i actor t. sim_move ProposalAccepted i),
      gov_Withdraw = (\<lambda>h i actor t reason. sim_move ProposalWithdrawn i),
      gov_Reject = (\<lambda>h i actor t reason. sim_move ProposalRejected i),
      query_FindPaths = (\<lambda>_ _ _ _. Inr []),
      query_NearestKnownCommonAncestor = (\<lambda>_ _ _ _. Inl (LError CodeNoKnownConnection ''no connection'')),
      explain_Path = (\<lambda>_ _. Inl (ErrExt ''path'')),
      explain_CommonAncestor = (\<lambda>_ _. Inl (ErrExt ''ancestor''))\<rparr>"

end
