(* ===== verification/Mappers.thy ===== *)
theory Mappers
  imports Platform Core
begin

text \<open>
  The conversions between API messages and internal values
  (\<open>internal/service/mappers.go\<close>, \<open>platform_mappers.go\<close> and the end of
  \<open>queries.go\<close>). Go's \<open>int32(x)\<close> of an \<open>int\<close> keeps the low 32 bits, and
  \<open>int(x)\<close> of an \<open>int32\<close> extends the sign. The lemmas show which conversions lose
  nothing.
\<close>

section \<open>Visibilities and roles\<close>

definition visibilityToProto :: "Visibility \<Rightarrow> pb_Visibility" where
  "visibilityToProto x =
     (if x = VisibilityPrivate then VISIBILITY_PRIVATE
      else if x = VisibilityUnlisted then VISIBILITY_UNLISTED
      else if x = VisibilityPublic then VISIBILITY_PUBLIC
      else VISIBILITY_UNSPECIFIED)"

definition visibilityFromProto :: "pb_Visibility \<Rightarrow> Visibility" where
  "visibilityFromProto x =
     (if x = VISIBILITY_PRIVATE then VisibilityPrivate
      else if x = VISIBILITY_UNLISTED then VisibilityUnlisted
      else if x = VISIBILITY_PUBLIC then VisibilityPublic
      else 0)"

definition roleToProto :: "Role \<Rightarrow> pb_GenealogyRole" where
  "roleToProto x =
     (if x = RoleNone then GENEALOGY_ROLE_NONE
      else if x = RoleViewer then GENEALOGY_ROLE_VIEWER
      else if x = RoleContributor then GENEALOGY_ROLE_CONTRIBUTOR
      else if x = RoleCurator then GENEALOGY_ROLE_CURATOR
      else if x = RoleOwner then GENEALOGY_ROLE_OWNER
      else GENEALOGY_ROLE_UNSPECIFIED)"

definition roleFromProto :: "pb_GenealogyRole \<Rightarrow> Role" where
  "roleFromProto x =
     (if x = GENEALOGY_ROLE_VIEWER then RoleViewer
      else if x = GENEALOGY_ROLE_CONTRIBUTOR then RoleContributor
      else if x = GENEALOGY_ROLE_CURATOR then RoleCurator
      else if x = GENEALOGY_ROLE_OWNER then RoleOwner
      else 0)"

section \<open>Platform records\<close>

text \<open>A timestamp is set only for a positive time.\<close>

definition timestamp :: "int64 \<Rightarrow> int64 option" where
  "timestamp s = (if 0 <s s then Some s else None)"

definition genealogyToProto :: "Genealogy \<Rightarrow> Role \<Rightarrow> pb_Genealogy" where
  "genealogyToProto g myRole =
     \<lparr>Genealogy_Id = g_ID g, Genealogy_Name = g_Name g,
      Genealogy_Visibility = visibilityToProto (g_Visibility g),
      Genealogy_CreatedBy = g_CreatedBy g, Genealogy_CreatedAt = timestamp (g_CreatedAt g),
      Genealogy_MyRole = roleToProto myRole\<rparr>"

definition membershipToProto :: "Membership \<Rightarrow> pb_Membership" where
  "membershipToProto m =
     \<lparr>Membership_Subject = m_Subject m, Membership_GenealogyId = m_GenealogyID m,
      Membership_Role = roleToProto (m_Role m), Membership_GrantedBy = m_GrantedBy m,
      Membership_GrantedAt = timestamp (m_GrantedAt m)\<rparr>"

definition banToProto :: "Ban \<Rightarrow> pb_Ban" where
  "banToProto b =
     \<lparr>Ban_Subject = b_Subject b, Ban_GenealogyId = b_GenealogyID b, Ban_Reason = b_Reason b,
      Ban_By = b_By b, Ban_At = timestamp (b_At b)\<rparr>"

section \<open>Enumerations of the library\<close>

definition certaintyToProto :: "Certainty \<Rightarrow> pb_Certainty" where
  "certaintyToProto x =
     (if x = CertaintyCertain then CERTAINTY_CERTAIN
      else if x = CertaintyProbable then CERTAINTY_PROBABLE
      else if x = CertaintyUncertain then CERTAINTY_UNCERTAIN
      else CERTAINTY_UNSPECIFIED)"

definition certaintyFromProto :: "('fs, 'h, 'rtx, 'wtx, 'path, 'anc) core \<Rightarrow> pb_Certainty \<Rightarrow> Certainty" where
  "certaintyFromProto C x =
     (if x = CERTAINTY_CERTAIN then CertaintyCertain
      else if x = CERTAINTY_PROBABLE then CertaintyProbable
      else if x = CERTAINTY_UNCERTAIN then CertaintyUncertain
      else zero_Certainty C)"

definition continuityToProto :: "Continuity \<Rightarrow> pb_Continuity" where
  "continuityToProto c =
     (if State c = ContinuityContinuous then
        \<lparr>Continuity_State = CONTINUITY_STATE_CONTINUOUS, Continuity_GapKnownSize = False, Continuity_GapSize = 0\<rparr>
      else if State c = ContinuityGapped then
        \<lparr>Continuity_State = CONTINUITY_STATE_GAPPED, Continuity_GapKnownSize = Gap_KnownSize (Gap c),
         Continuity_GapSize = (if Gap_KnownSize (Gap c) then ucast (Gap_Size (Gap c)) else 0)\<rparr>
      else
        \<lparr>Continuity_State = CONTINUITY_STATE_UNSPECIFIED, Continuity_GapKnownSize = False, Continuity_GapSize = 0\<rparr>)"

definition continuityFromProto ::
  "('fs, 'h, 'rtx, 'wtx, 'path, 'anc) core \<Rightarrow> pb_Continuity option \<Rightarrow> err + Continuity" where
  "continuityFromProto C p =
     (case p of
        None \<Rightarrow> Inr (NewContinuous C)
      | Some c \<Rightarrow>
          if Continuity_State c = CONTINUITY_STATE_CONTINUOUS then Inr (NewContinuous C)
          else if Continuity_State c = CONTINUITY_STATE_GAPPED then
            (if Continuity_GapKnownSize c then
               (case KnownGap C (scast (Continuity_GapSize c)) of
                  Inl e \<Rightarrow> Inl e
                | Inr gg \<Rightarrow> Inr (NewGapped C gg))
             else Inr (NewGapped C (UnknownGap C)))
          else Inr (NewContinuous C))"

definition relTypeToProto :: "RelationshipType \<Rightarrow> pb_RelationshipType" where
  "relTypeToProto x =
     (if x = RelTypeParentChild then RELATIONSHIP_TYPE_PARENT_CHILD
      else if x = RelTypeMarriage then RELATIONSHIP_TYPE_MARRIAGE
      else RELATIONSHIP_TYPE_UNSPECIFIED)"

definition relTypeFromProto :: "('fs, 'h, 'rtx, 'wtx, 'path, 'anc) core \<Rightarrow> pb_RelationshipType \<Rightarrow> RelationshipType" where
  "relTypeFromProto C x =
     (if x = RELATIONSHIP_TYPE_PARENT_CHILD then RelTypeParentChild
      else if x = RELATIONSHIP_TYPE_MARRIAGE then RelTypeMarriage
      else zero_RelationshipType C)"

definition proposalStateToProto :: "ProposalState \<Rightarrow> pb_ProposalState" where
  "proposalStateToProto x =
     (if x = ProposalDraft then PROPOSAL_STATE_DRAFT
      else if x = ProposalSubmitted then PROPOSAL_STATE_SUBMITTED
      else if x = ProposalUnderReview then PROPOSAL_STATE_UNDER_REVIEW
      else if x = ProposalAccepted then PROPOSAL_STATE_ACCEPTED
      else if x = ProposalRejected then PROPOSAL_STATE_REJECTED
      else if x = ProposalWithdrawn then PROPOSAL_STATE_WITHDRAWN
      else PROPOSAL_STATE_UNSPECIFIED)"

definition proposalStateFromProto :: "('fs, 'h, 'rtx, 'wtx, 'path, 'anc) core \<Rightarrow> pb_ProposalState \<Rightarrow> ProposalState" where
  "proposalStateFromProto C x =
     (if x = PROPOSAL_STATE_DRAFT then ProposalDraft
      else if x = PROPOSAL_STATE_SUBMITTED then ProposalSubmitted
      else if x = PROPOSAL_STATE_UNDER_REVIEW then ProposalUnderReview
      else if x = PROPOSAL_STATE_ACCEPTED then ProposalAccepted
      else if x = PROPOSAL_STATE_REJECTED then ProposalRejected
      else if x = PROPOSAL_STATE_WITHDRAWN then ProposalWithdrawn
      else zero_ProposalState C)"

definition actionFromProto :: "('fs, 'h, 'rtx, 'wtx, 'path, 'anc) core \<Rightarrow> pb_ProposalAction \<Rightarrow> ProposalAction" where
  "actionFromProto C x =
     (if x = PROPOSAL_ACTION_CREATE then ProposalActionCreate
      else if x = PROPOSAL_ACTION_UPDATE then ProposalActionUpdate
      else if x = PROPOSAL_ACTION_RETRACT then ProposalActionRetract
      else if x = PROPOSAL_ACTION_MERGE then ProposalActionMerge
      else if x = PROPOSAL_ACTION_SAME_AS_LINK then ProposalActionSameAsLink
      else zero_ProposalAction C)"

definition entityKindFromProto :: "('fs, 'h, 'rtx, 'wtx, 'path, 'anc) core \<Rightarrow> pb_EntityKind \<Rightarrow> EntityKind" where
  "entityKindFromProto C x =
     (if x = ENTITY_KIND_PERSON then EntityKindPerson
      else if x = ENTITY_KIND_RELATIONSHIP then EntityKindRelationship
      else if x = ENTITY_KIND_SOURCE then EntityKindSource
      else zero_EntityKind C)"

definition actionToProto :: "ProposalAction \<Rightarrow> pb_ProposalAction" where
  "actionToProto x =
     (if x = ProposalActionCreate then PROPOSAL_ACTION_CREATE
      else if x = ProposalActionUpdate then PROPOSAL_ACTION_UPDATE
      else if x = ProposalActionRetract then PROPOSAL_ACTION_RETRACT
      else if x = ProposalActionMerge then PROPOSAL_ACTION_MERGE
      else if x = ProposalActionSameAsLink then PROPOSAL_ACTION_SAME_AS_LINK
      else PROPOSAL_ACTION_UNSPECIFIED)"

definition entityKindToProto :: "EntityKind \<Rightarrow> pb_EntityKind" where
  "entityKindToProto x =
     (if x = EntityKindPerson then ENTITY_KIND_PERSON
      else if x = EntityKindRelationship then ENTITY_KIND_RELATIONSHIP
      else if x = EntityKindSource then ENTITY_KIND_SOURCE
      else ENTITY_KIND_UNSPECIFIED)"

definition sourceTypeToProto :: "SourceType \<Rightarrow> pb_SourceType" where
  "sourceTypeToProto x =
     (if x = SourceTypePrimary then SOURCE_TYPE_PRIMARY
      else if x = SourceTypeSecondary then SOURCE_TYPE_SECONDARY
      else if x = SourceTypeOral then SOURCE_TYPE_ORAL
      else if x = SourceTypeDerived then SOURCE_TYPE_DERIVED
      else if x = SourceTypeOther then SOURCE_TYPE_OTHER
      else SOURCE_TYPE_UNSPECIFIED)"

section \<open>Objects of the library\<close>

definition idToProto :: "('fs, 'h, 'rtx, 'wtx, 'path, 'anc) core \<Rightarrow> ID \<Rightarrow> pb_Id" where
  "idToProto C i = \<lparr>Id_Value = ID_String C i\<rparr>"

definition idFromProto :: "('fs, 'h, 'rtx, 'wtx, 'path, 'anc) core \<Rightarrow> pb_Id option \<Rightarrow> err + ID" where
  "idFromProto C p = (case p of None \<Rightarrow> Inr [] | Some i \<Rightarrow> ParseID C (Id_Value i))"

definition timeRangeToProto :: "TimeRange \<Rightarrow> pb_TimeRange option" where
  "timeRangeToProto tr =
     (if IsZero tr then None
      else Some
        \<lparr>TimeRange_EarliestKnown = KnownYear (Earliest tr), TimeRange_EarliestYear = ucast (Year (Earliest tr)),
         TimeRange_LatestKnown = KnownYear (Latest tr), TimeRange_LatestYear = ucast (Year (Latest tr)),
         TimeRange_Calendar = Calendar tr, TimeRange_Circa = Circa tr\<rparr>)"

definition nameToProto :: "Name \<Rightarrow> pb_Name" where
  "nameToProto n =
     \<lparr>Name_Text = n_Text n, Name_Language = n_Language n, Name_Script = n_Script n,
      Name_Type = n_Type n, Name_Preferred = n_Preferred n\<rparr>"

definition personToProto :: "('fs, 'h, 'rtx, 'wtx, 'path, 'anc) core \<Rightarrow> Person \<Rightarrow> pb_Person" where
  "personToProto C p =
     \<lparr>Person_Id = Some (idToProto C (p_ID p)), Person_UnknownAncestor = p_IsUnknownAncestor p,
      Person_Names = map nameToProto (p_Names p), Person_Gender = p_Gender p,
      Person_Birth = (if \<not> IsZero (p_Birth p) then timeRangeToProto (p_Birth p) else None),
      Person_Death = (if \<not> IsZero (p_Death p) then timeRangeToProto (p_Death p) else None),
      Person_Notes = p_Notes p\<rparr>"

definition relationshipToProto :: "('fs, 'h, 'rtx, 'wtx, 'path, 'anc) core \<Rightarrow> Relationship \<Rightarrow> pb_Relationship" where
  "relationshipToProto C r =
     \<lparr>Relationship_Id = Some (idToProto C (r_ID r)),
      Relationship_FromPerson = Some (idToProto C (r_From r)),
      Relationship_ToPerson = Some (idToProto C (r_To r)),
      Relationship_Type = relTypeToProto (r_Type r),
      Relationship_Certainty = certaintyToProto (r_Certainty r),
      Relationship_Continuity = Some (continuityToProto (r_Continuity r)),
      Relationship_TimeRange = (if \<not> IsZero (r_TimeRange r) then timeRangeToProto (r_TimeRange r) else None),
      Relationship_Notes = r_Notes r,
      Relationship_Sources = map (idToProto C) (r_Sources r)\<rparr>"

definition sourceToProto :: "('fs, 'h, 'rtx, 'wtx, 'path, 'anc) core \<Rightarrow> Source \<Rightarrow> pb_Source" where
  "sourceToProto C s =
     \<lparr>Source_Id = Some (idToProto C (s_ID s)), Source_Type = sourceTypeToProto (s_Type s),
      Source_Citation = s_Citation s, Source_Author = s_Author s, Source_Title = s_Title s,
      Source_Date = s_Date s, Source_Locator = s_Locator s, Source_Notes = s_Notes s\<rparr>"

definition transitionToProto :: "Transition \<Rightarrow> pb_ProposalTransition" where
  "transitionToProto h =
     \<lparr>ProposalTransition_From = proposalStateToProto (h_From h),
      ProposalTransition_To = proposalStateToProto (h_To h), ProposalTransition_Actor = h_Actor h,
      ProposalTransition_At = timestamp (h_Timestamp h), ProposalTransition_Reason = h_Reason h\<rparr>"

definition proposalToProto :: "('fs, 'h, 'rtx, 'wtx, 'path, 'anc) core \<Rightarrow> Proposal \<Rightarrow> pb_Proposal" where
  "proposalToProto C p =
     \<lparr>Proposal_Id = Some (idToProto C (pr_ID p)), Proposal_State = proposalStateToProto (pr_State p),
      Proposal_Action = actionToProto (pr_Action p), Proposal_EntityKind = entityKindToProto (pr_EntityKind p),
      Proposal_TargetId = Some (idToProto C (pr_TargetID p)),
      Proposal_SecondaryId = Some (idToProto C (pr_SecondaryID p)),
      Proposal_Payload = pr_Payload p, Proposal_Reason = pr_Reason p,
      Proposal_Sources = map (idToProto C) (pr_Sources p), Proposal_Author = pr_Author p,
      Proposal_CreatedAt = timestamp (pr_CreatedAt p),
      Proposal_History = map transitionToProto (pr_History p)\<rparr>"

section \<open>Query results\<close>

definition classificationToProto :: "PathClassification \<Rightarrow> pb_PathClassification" where
  "classificationToProto x =
     (if x = PathLineage then PATH_CLASSIFICATION_LINEAGE
      else if x = PathAffinal then PATH_CLASSIFICATION_AFFINAL
      else PATH_CLASSIFICATION_UNSPECIFIED)"

definition stepToProto :: "('fs, 'h, 'rtx, 'wtx, 'path, 'anc) core \<Rightarrow> EdgeExplanation \<Rightarrow> pb_Step" where
  "stepToProto C e =
     \<lparr>Step_FromPerson = Some (idToProto C (e_FromPerson e)), Step_ToPerson = Some (idToProto C (e_ToPerson e)),
      Step_RelationshipId = Some (idToProto C (e_RelationshipID e)), Step_Type = relTypeToProto (e_Type e),
      Step_Certainty = certaintyToProto (e_Certainty e),
      Step_Continuity = Some (continuityToProto (e_Continuity e)),
      Step_IsWeakestLink = e_IsWeakestLink e, Step_Sources = map (idToProto C) (e_SourceIDs e)\<rparr>"

definition pathExplanationToProto :: "('fs, 'h, 'rtx, 'wtx, 'path, 'anc) core \<Rightarrow> PathExplanation \<Rightarrow> pb_Path" where
  "pathExplanationToProto C x =
     \<lparr>Path_From = Some (idToProto C (x_From x)), Path_To = Some (idToProto C (x_To x)),
      Path_Length = ucast (x_Length x), Path_Certainty = certaintyToProto (x_OverallCertainty x),
      Path_TotalGapGenerations = ucast (x_TotalGapGenerations x),
      Path_GapEdgeCount = ucast (x_GapEdgeCount x),
      Path_Classification = classificationToProto (x_Classification x),
      Path_Steps = map (stepToProto C) (x_Edges x), Path_GraphVersion = x_GraphVersion x\<rparr>"

section \<open>Round trips\<close>

lemmas platform_mapper_defs = visibilityToProto_def visibilityFromProto_def roleToProto_def roleFromProto_def
lemmas core_mapper_defs = certaintyToProto_def certaintyFromProto_def relTypeToProto_def relTypeFromProto_def
  proposalStateToProto_def proposalStateFromProto_def actionToProto_def actionFromProto_def
  entityKindToProto_def entityKindFromProto_def

text \<open>Reading an API value gives a valid role or visibility, or zero.\<close>

lemma roleFromProto_range: "roleFromProto x = 0 \<or> Role_IsValid (roleFromProto x)"
  by (simp add: roleFromProto_def Role_IsValid_iff)

lemma visibilityFromProto_range: "visibilityFromProto x = 0 \<or> Visibility_IsValid (visibilityFromProto x)"
  by (simp add: visibilityFromProto_def Visibility_IsValid_def)

text \<open>
  Roles and visibilities survive the trip through the API, the values read from the API are
  valid or zero, and a client can never obtain the role \<open>None\<close> as a grant.
\<close>

theorem role_visibility_roundtrip:
  "(Role_IsValid r \<longrightarrow> roleFromProto (roleToProto r) = r) \<and>
   (Visibility_IsValid v \<longrightarrow> visibilityFromProto (visibilityToProto v) = v) \<and>
   (roleFromProto x = 0 \<or> Role_IsValid (roleFromProto x) \<and> roleToProto (roleFromProto x) = x) \<and>
   (visibilityFromProto y = 0 \<or>
      Visibility_IsValid (visibilityFromProto y) \<and> visibilityToProto (visibilityFromProto y) = y) \<and>
   roleFromProto (roleToProto RoleNone) = 0"
proof (intro conjI)
  show "Role_IsValid r \<longrightarrow> roleFromProto (roleToProto r) = r"
    by (auto simp: Role_IsValid_iff platform_mapper_defs)
  show "Visibility_IsValid v \<longrightarrow> visibilityFromProto (visibilityToProto v) = v"
    by (auto simp: Visibility_IsValid_def platform_mapper_defs)
  show "roleFromProto x = 0 \<or> Role_IsValid (roleFromProto x) \<and> roleToProto (roleFromProto x) = x"
    using roleFromProto_range [of x] by (auto simp: platform_mapper_defs)
  show "visibilityFromProto y = 0 \<or>
      Visibility_IsValid (visibilityFromProto y) \<and> visibilityToProto (visibilityFromProto y) = y"
    using visibilityFromProto_range [of y] by (auto simp: platform_mapper_defs)
  show "roleFromProto (roleToProto RoleNone) = 0" by (simp add: platform_mapper_defs)
qed

theorem role_visibility_roundtrip_witness:
  "roleFromProto (roleToProto RoleCurator) = RoleCurator \<and>
   visibilityFromProto (visibilityToProto VisibilityPublic) = VisibilityPublic"
  using role_visibility_roundtrip [of RoleCurator VisibilityPublic]
  by (simp add: Role_IsValid_iff Visibility_IsValid_def)

text \<open>
  Every named value of the library's enumerations survives the trip through the API, whatever
  the library's zero values are.
\<close>

theorem core_enum_roundtrip:
  "(c = CertaintyCertain \<or> c = CertaintyProbable \<or> c = CertaintyUncertain \<longrightarrow>
      certaintyFromProto C (certaintyToProto c) = c) \<and>
   (t = RelTypeParentChild \<or> t = RelTypeMarriage \<longrightarrow> relTypeFromProto C (relTypeToProto t) = t) \<and>
   (s \<in> {ProposalDraft, ProposalSubmitted, ProposalUnderReview, ProposalAccepted, ProposalRejected, ProposalWithdrawn} \<longrightarrow>
      proposalStateFromProto C (proposalStateToProto s) = s) \<and>
   (a \<in> {ProposalActionCreate, ProposalActionUpdate, ProposalActionRetract, ProposalActionMerge, ProposalActionSameAsLink} \<longrightarrow>
      actionFromProto C (actionToProto a) = a) \<and>
   (k \<in> {EntityKindPerson, EntityKindRelationship, EntityKindSource} \<longrightarrow>
      entityKindFromProto C (entityKindToProto k) = k)"
  by (auto simp: core_mapper_defs)

theorem core_enum_roundtrip_witness:
  "proposalStateFromProto sim_core (proposalStateToProto ProposalRejected) = ProposalRejected \<and>
   actionFromProto sim_core (actionToProto ProposalActionMerge) = ProposalActionMerge"
  using core_enum_roundtrip [of CertaintyCertain sim_core RelTypeMarriage ProposalRejected ProposalActionMerge EntityKindSource]
  by simp

text \<open>Sizes in the range of \<open>int32\<close> survive the two conversions.\<close>

lemma scast_ucast_int32:
  assumes "- (2 ^ 31) \<le> sint w" and "sint w < 2 ^ 31"
  shows "scast (ucast (w :: 64 word) :: 32 word) = w"
proof -
  have "signed_take_bit 31 (uint w) = signed_take_bit 31 (sint w)"
    by (simp add: uint_sint signed_take_bit_take_bit)
  also have "\<dots> = sint w" using assms by (simp add: signed_take_bit_int_eq_self_iff)
  finally have "sint (ucast w :: 32 word) = sint w" by (simp add: signed_ucast_eq)
  then show ?thesis by (simp add: scast_eq)
qed

text \<open>
  A continuity whose gap size fits 32 bits comes back unchanged from the API, provided the
  library's constructors build what they are given: a continuous value has no gap, a gapped one
  holds the gap, a known gap of an admitted size holds the size, an unknown gap is the zero gap.
\<close>

theorem continuity_roundtrip:
  assumes "NewContinuous C = \<lparr>State = ContinuityContinuous, Gap = UnknownGap C\<rparr>"
    and "UnknownGap C = \<lparr>Gap_KnownSize = False, Gap_Size = 0\<rparr>"
    and "\<And>g. NewGapped C g = \<lparr>State = ContinuityGapped, Gap = g\<rparr>"
    and "State c = ContinuityContinuous \<Longrightarrow> c = NewContinuous C"
    and "State c = ContinuityContinuous \<or> State c = ContinuityGapped"
    and "Gap_KnownSize (Gap c) \<Longrightarrow> KnownGap C (Gap_Size (Gap c)) = Inr (Gap c)"
    and "\<not> Gap_KnownSize (Gap c) \<Longrightarrow> Gap c = UnknownGap C"
    and "- (2 ^ 31) \<le> sint (Gap_Size (Gap c))" and "sint (Gap_Size (Gap c)) < 2 ^ 31"
  shows "continuityFromProto C (Some (continuityToProto c)) = Inr c"
proof (cases "State c = ContinuityContinuous")
  case True
  then show ?thesis using assms(4) by (simp add: continuityFromProto_def continuityToProto_def)
next
  case False
  then have g: "State c = ContinuityGapped" using assms(5) by simp
  have c: "c = \<lparr>State = ContinuityGapped, Gap = Gap c\<rparr>" using g by simp
  show ?thesis
    using g assms(3,6,7) scast_ucast_int32 [OF assms(8,9)] c
    by (auto simp: continuityFromProto_def continuityToProto_def)
qed

theorem continuity_roundtrip_witness:
  "continuityFromProto sim_core (Some (continuityToProto \<lparr>State = ContinuityGapped, Gap = sim_gap True 3\<rparr>)) =
     Inr \<lparr>State = ContinuityGapped, Gap = sim_gap True 3\<rparr>"
  by (rule continuity_roundtrip) (simp_all add: sim_core_def sim_gap_def word_sless_alt)


end
