(* ===== verification/Platform_Laws.thy ===== *)
theory Platform_Laws
  imports Platform
begin

text \<open>
  Laws of the platform store. Under \<open>badger_db\<close> (calls may fail) an operation either
  succeeds with its effect or reports an error and leaves the contents alone, so the store
  stays well-formed whatever fails. Under \<open>badger_total\<close> every operation is an equation
  on the contents. The locale \<open>keyed_store\<close> is the insert/lookup contract of the four
  kinds of record, interpreted for each of them.
\<close>

section \<open>Effects when calls may fail\<close>

context badger_db
begin

lemma put_effect:
  assumes "put B db k v = (r, db')"
  shows "r = nil_err \<and> kv db' = (kv db)(k \<mapsto> v) \<or> (\<exists>e. r = Inl (ErrBadger e)) \<and> db' = db"
proof (cases r)
  case (Inl e)
  with assms show ?thesis by (auto simp: put_def Update_def split: sum.splits)
next
  case (Inr u)
  with assms have "kv db' = (kv db)(k \<mapsto> v)"
    by (auto simp: put_def dest: Update_set)
  with Inr show ?thesis by simp
qed

lemma delete_key_effect:
  assumes "delete_key B db k = (r, db')"
  shows "r = nil_err \<and> kv db' = (kv db)(k := None) \<or> (\<exists>e. r = Inl (ErrBadger e)) \<and> db' = db"
proof (cases r)
  case (Inl e)
  with assms show ?thesis by (auto simp: delete_key_def Update_def split: sum.splits)
next
  case (Inr u)
  with assms have "kv db' = (kv db)(k := None)"
    by (auto simp: delete_key_def dest: Update_delete)
  with Inr show ?thesis by simp
qed

text \<open>Two writes in one transaction: both or none.\<close>

lemma PutMembership_effect:
  assumes "PutMembership B now m db = (r, db')"
  defines "m' \<equiv> (if m_GrantedAt m = 0 then m\<lparr>m_GrantedAt := now\<rparr> else m)"
  shows "r = nil_err \<and> m_Subject m \<noteq> [] \<and> m_GenealogyID m \<noteq> [] \<and> Role_IsValid (m_Role m) \<and>
           kv db' = (kv db)(membershipKey (m_GenealogyID m) (m_Subject m) \<mapsto> MarshalMembership m',
                            reverseMembershipKey (m_Subject m) (m_GenealogyID m) \<mapsto> MarshalMembership m')
         \<or> (\<exists>e. r = Inl e) \<and> db' = db"
proof (cases r)
  case (Inl e)
  with assms(1) show ?thesis
    by (auto simp: PutMembership_def Let_def Update_def split: if_splits sum.splits)
next
  case (Inr u)
  have same: "m_Subject m' = m_Subject m" "m_GenealogyID m' = m_GenealogyID m" by (simp_all add: m'_def)
  let ?k1 = "membershipKey (m_GenealogyID m) (m_Subject m)"
  let ?k2 = "reverseMembershipKey (m_Subject m) (m_GenealogyID m)"
  from assms(1) Inr obtain tx1 tx2 where
    s1: "TxnSet B (NewTransaction B db) ?k1 (MarshalMembership m') = Inr tx1" and
    s2: "TxnSet B tx1 ?k2 (MarshalMembership m') = Inr tx2" and
    c: "TxnCommit B db tx2 = Inr db'" and
    ok: "m_Subject m \<noteq> []" "m_GenealogyID m \<noteq> []" "Role_IsValid (m_Role m)"
    by (auto simp: PutMembership_def Let_def Update_def m'_def split: if_splits sum.splits)
  have "txn_on B db tx2" using txn_set [OF txn_set [OF txn_new s1] s2] .
  from commit_view [OF this c] set_view [OF s2] set_view [OF s1] new_view Inr ok
  show ?thesis by simp
qed

lemma DeleteMembership_effect:
  assumes "DeleteMembership B gid sub db = (r, db')"
  shows "r = nil_err \<and> kv db' = (kv db)(membershipKey gid sub := None, reverseMembershipKey sub gid := None)
         \<or> (\<exists>e. r = Inl e) \<and> db' = db"
proof (cases r)
  case (Inl e)
  with assms show ?thesis by (auto simp: DeleteMembership_def Update_def split: sum.splits)
next
  case (Inr u)
  from assms Inr obtain tx1 tx2 where
    s1: "TxnDelete B (NewTransaction B db) (membershipKey gid sub) = Inr tx1" and
    s2: "TxnDelete B tx1 (reverseMembershipKey sub gid) = Inr tx2" and
    c: "TxnCommit B db tx2 = Inr db'"
    by (auto simp: DeleteMembership_def Update_def split: sum.splits)
  have "txn_on B db tx2" using txn_delete [OF txn_delete [OF txn_new s1] s2] .
  from commit_view [OF this c] delete_view [OF s2] delete_view [OF s1] new_view Inr
  show ?thesis by simp
qed

lemma get_sound: "get B db k dec = Inr a \<Longrightarrow> lookup (kv db) k dec = Inr a"
  using get_found new_view
  by (fastforce simp: get_def View_def lookup_def split: sum.splits if_splits)

lemma get_absent:
  "get B db k dec = Inl ErrNotFound \<Longrightarrow> (\<And>b. dec b \<noteq> Inl ErrNotFound) \<Longrightarrow> kv db k = None"
  using get_missing new_view
  by (auto simp: get_def View_def split: sum.splits if_splits) metis

text \<open>Well-formedness survives every operation, failing or not.\<close>

lemma PutGenealogy_wf:
  assumes "PutGenealogy B g db = (r, db')" and "platform_wf (kv db)" and "slash_free (g_ID g)"
  shows "platform_wf (kv db')"
proof (cases "g_ID g = [] \<or> \<not> Visibility_IsValid (g_Visibility g)")
  case True
  with assms show ?thesis by (auto simp: PutGenealogy_def split: if_splits)
next
  case False
  then have "wf_genealogy g" using assms(3) by (simp add: wf_genealogy_def)
  with False assms show ?thesis
    using put_effect [of db "genealogyKey (g_ID g)" "MarshalGenealogy g" r db'] platform_wf_genealogy
    by (auto simp: PutGenealogy_def)
qed

lemma PutMembership_wf:
  assumes "PutMembership B now m db = (r, db')" and "platform_wf (kv db)" and "slash_free (m_GenealogyID m)"
  shows "platform_wf (kv db')"
proof -
  let ?m = "if m_GrantedAt m = 0 then m\<lparr>m_GrantedAt := now\<rparr> else m"
  from PutMembership_effect [OF assms(1)] show ?thesis
  proof
    assume ok: "r = nil_err \<and> m_Subject m \<noteq> [] \<and> m_GenealogyID m \<noteq> [] \<and> Role_IsValid (m_Role m) \<and>
      kv db' = (kv db)(membershipKey (m_GenealogyID m) (m_Subject m) \<mapsto> MarshalMembership ?m,
                       reverseMembershipKey (m_Subject m) (m_GenealogyID m) \<mapsto> MarshalMembership ?m)"
    have "wf_membership ?m" using ok assms(3) by (auto simp: wf_membership_def)
    from platform_wf_membership [OF assms(2) this] ok show ?thesis by (simp split: if_splits)
  qed (use assms(2) in simp)
qed

lemma DeleteMembership_wf:
  "DeleteMembership B gid sub db = (r, db') \<Longrightarrow> platform_wf (kv db) \<Longrightarrow> slash_free gid \<Longrightarrow> platform_wf (kv db')"
  using DeleteMembership_effect platform_wf_del_membership by fastforce

lemma PutBan_wf:
  assumes "PutBan B now b db = (r, db')" and "platform_wf (kv db)" and "slash_free (b_GenealogyID b)"
  shows "platform_wf (kv db')"
proof (cases "b_Subject b = [] \<or> b_GenealogyID b = []")
  case True
  with assms show ?thesis by (auto simp: PutBan_def)
next
  case False
  let ?b = "if b_At b = 0 then b\<lparr>b_At := now\<rparr> else b"
  have "wf_ban ?b" using False assms(3) by (auto simp: wf_ban_def)
  moreover have "put B db (banKey (b_GenealogyID ?b) (b_Subject ?b)) (MarshalBan ?b) = (r, db')"
    using assms(1) False by (auto simp: PutBan_def Let_def)
  ultimately show ?thesis using put_effect platform_wf_ban assms(2) by metis
qed

lemma DeleteGenealogy_wf:
  "DeleteGenealogy B gid db = (r, db') \<Longrightarrow> platform_wf (kv db) \<Longrightarrow> platform_wf (kv db')"
  unfolding DeleteGenealogy_def using delete_key_effect platform_wf_del_other(1) by metis

lemma DeleteBan_wf:
  "DeleteBan B gid sub db = (r, db') \<Longrightarrow> platform_wf (kv db) \<Longrightarrow> platform_wf (kv db')"
  unfolding DeleteBan_def using delete_key_effect platform_wf_del_other(2) by metis

lemma PutUser_wf: "PutUser B u db = (r, db') \<Longrightarrow> platform_wf (kv db) \<Longrightarrow> platform_wf (kv db')"
  unfolding PutUser_def using platform_wf_frame [of "kv db" "userKey (u_Subject u)"]
  by (auto split: if_splits dest: put_effect)

lemma EnsureUser_wf:
  "EnsureUser B now sub email db = (r, db') \<Longrightarrow> platform_wf (kv db) \<Longrightarrow> platform_wf (kv db')"
  using PutUser_wf by (auto simp: EnsureUser_def Let_def split: sum.splits if_splits prod.splits)

end

section \<open>Equations when no call fails\<close>

context badger_total
begin

lemma get_eq [total_simps]: "get B db k dec = lookup (kv db) k dec"
  by (simp add: get_def View_def lookup_def get_total new_view split: option.splits)

text \<open>The database after a write; only its contents matter.\<close>

definition dset where "dset db k v = snd (put B db k v)"
definition ddel where "ddel db k = snd (delete_key B db k)"

lemma put_eq [total_simps]: "put B db k v = (nil_err, dset db k v)"
proof -
  from set_total obtain tx' where "TxnSet B (NewTransaction B db) k v = Inr tx'" by blast
  then have "\<exists>db'. put B db k v = (nil_err, db') \<and> kv db' = tkv tx'"
    unfolding put_def by (intro commit_run) (auto intro: txn_on.intros)
  then show ?thesis by (auto simp: dset_def)
qed

lemma kv_dset [simp]: "kv (dset db k v) = (kv db)(k \<mapsto> v)"
  using put_effect [OF put_eq] by auto

lemma delete_key_eq [total_simps]: "delete_key B db k = (nil_err, ddel db k)"
proof -
  from delete_total obtain tx' where "TxnDelete B (NewTransaction B db) k = Inr tx'" by blast
  then have "\<exists>db'. delete_key B db k = (nil_err, db') \<and> kv db' = tkv tx'"
    unfolding delete_key_def by (intro commit_run) (auto intro: txn_on.intros)
  then show ?thesis by (auto simp: ddel_def)
qed

lemma kv_ddel [simp]: "kv (ddel db k) = (kv db)(k := None)"
  using delete_key_effect [OF delete_key_eq] by auto

definition dput_mem where "dput_mem now m db = snd (PutMembership B now m db)"
definition ddel_mem where "ddel_mem gid sub db = snd (DeleteMembership B gid sub db)"

text \<open>\<open>PutMembership\<close> stamps a zero grant time.\<close>

definition stamp where "stamp now m = (if m_GrantedAt m = 0 then m\<lparr>m_GrantedAt := now\<rparr> else m)"

lemma stamp_fields [simp]:
  "m_Subject (stamp now m) = m_Subject m" "m_GenealogyID (stamp now m) = m_GenealogyID m"
  "m_Role (stamp now m) = m_Role m" "m_GrantedBy (stamp now m) = m_GrantedBy m"
  by (simp_all add: stamp_def)

lemma PutMembership_eq [total_simps]:
  assumes "m_Subject m \<noteq> []" "m_GenealogyID m \<noteq> []" "Role_IsValid (m_Role m)"
  shows "PutMembership B now m db = (nil_err, dput_mem now m db)"
proof -
  let ?k1 = "membershipKey (m_GenealogyID m) (m_Subject m)"
  let ?k2 = "reverseMembershipKey (m_Subject m) (m_GenealogyID m)"
  obtain tx1 where t1: "TxnSet B (NewTransaction B db) ?k1 (MarshalMembership (stamp now m)) = Inr tx1"
    using set_total by blast
  obtain tx2 where t2: "TxnSet B tx1 ?k2 (MarshalMembership (stamp now m)) = Inr tx2"
    using set_total by blast
  have "txn_on B db tx2" using txn_set [OF txn_set [OF txn_new t1] t2] .
  then obtain db' where "TxnCommit B db tx2 = Inr db'" using commit_total by blast
  then have "PutMembership B now m db = (nil_err, db')"
    using assms t1 t2 by (auto simp: PutMembership_def Update_def Let_def stamp_def)
  then show ?thesis by (simp add: dput_mem_def)
qed

lemma kv_dput_mem [simp]:
  assumes "m_Subject m \<noteq> []" "m_GenealogyID m \<noteq> []" "Role_IsValid (m_Role m)"
  shows "kv (dput_mem now m db) =
    (kv db)(membershipKey (m_GenealogyID m) (m_Subject m) \<mapsto> MarshalMembership (stamp now m),
            reverseMembershipKey (m_Subject m) (m_GenealogyID m) \<mapsto> MarshalMembership (stamp now m))"
  using PutMembership_effect [OF PutMembership_eq [OF assms]] by (auto simp: stamp_def)

lemma DeleteMembership_eq [total_simps]: "DeleteMembership B gid sub db = (nil_err, ddel_mem gid sub db)"
proof -
  obtain tx1 where t1: "TxnDelete B (NewTransaction B db) (membershipKey gid sub) = Inr tx1"
    using delete_total by blast
  obtain tx2 where t2: "TxnDelete B tx1 (reverseMembershipKey sub gid) = Inr tx2"
    using delete_total by blast
  have "txn_on B db tx2" using txn_delete [OF txn_delete [OF txn_new t1] t2] .
  then obtain db' where "TxnCommit B db tx2 = Inr db'" using commit_total by blast
  then have "DeleteMembership B gid sub db = (nil_err, db')"
    using t1 t2 by (simp add: DeleteMembership_def Update_def)
  then show ?thesis by (simp add: ddel_mem_def)
qed

lemma kv_ddel_mem [simp]:
  "kv (ddel_mem gid sub db) = (kv db)(membershipKey gid sub := None, reverseMembershipKey sub gid := None)"
  using DeleteMembership_effect [OF DeleteMembership_eq] by auto

lemma Get_eqs [total_simps]:
  "GetUser B sub db = user_at (kv db) sub" "GetGenealogy B gid db = gen_at (kv db) gid"
  "GetMembership B gid sub db = mem_at (kv db) gid sub" "GetBan B gid sub db = ban_at (kv db) gid sub"
  by (simp_all add: GetUser_def GetGenealogy_def GetMembership_def GetBan_def get_eq)

lemma Delete_eqs [total_simps]:
  "DeleteGenealogy B gid db = (nil_err, ddel db (genealogyKey gid))"
  "DeleteBan B gid sub db = (nil_err, ddel db (banKey gid sub))"
  by (simp_all add: DeleteGenealogy_def DeleteBan_def delete_key_eq)

lemma PutGenealogy_eq [total_simps]:
  "g_ID g \<noteq> [] \<Longrightarrow> Visibility_IsValid (g_Visibility g) \<Longrightarrow>
   PutGenealogy B g db = (nil_err, dset db (genealogyKey (g_ID g)) (MarshalGenealogy g))"
  by (simp add: PutGenealogy_def put_eq)

lemma PutUser_eq [total_simps]:
  "u_Subject u \<noteq> [] \<Longrightarrow> PutUser B u db = (nil_err, dset db (userKey (u_Subject u)) (MarshalUser u))"
  by (simp add: PutUser_def put_eq)

lemma PutBan_eq [total_simps]:
  "b_Subject b \<noteq> [] \<Longrightarrow> b_GenealogyID b \<noteq> [] \<Longrightarrow>
   PutBan B now b db = (nil_err, dset db (banKey (b_GenealogyID b) (b_Subject b))
     (MarshalBan (if b_At b = 0 then b\<lparr>b_At := now\<rparr> else b)))"
  by (simp add: PutBan_def put_eq)

end

section \<open>The insert/lookup contract\<close>

text \<open>
  A store of records under keys: \<open>accept\<close> is what \<open>put_rec\<close> checks, \<open>norm\<close>
  what it stores (a zero time stamp is filled in), \<open>good_key\<close> the keys the contract is
  about.
\<close>

locale keyed_store =
  fixes put_rec :: "'r \<Rightarrow> 'db \<Rightarrow> (err + unit) \<times> 'db"
    and get_rec :: "'k \<Rightarrow> 'db \<Rightarrow> err + 'r"
    and key_of :: "'r \<Rightarrow> 'k"
    and accept :: "'r \<Rightarrow> bool"
    and good_key :: "'k \<Rightarrow> bool"
    and norm :: "'r \<Rightarrow> 'r"
  assumes put_accept: "accept r \<Longrightarrow> fst (put_rec r db) = nil_err"
    and put_refuse: "\<not> accept r \<Longrightarrow> snd (put_rec r db) = db"
    and get_put: "accept r \<Longrightarrow> good_key (key_of r) \<Longrightarrow> good_key k \<Longrightarrow>
          get_rec k (snd (put_rec r db)) = (if k = key_of r then Inr (norm r) else get_rec k db)"
begin

definition put_all :: "'r list \<Rightarrow> 'db \<Rightarrow> 'db" where
  "put_all rs db = fold (\<lambda>r db. snd (put_rec r db)) rs db"

text \<open>After any sequence of writes a key holds the last accepted record for it.\<close>

lemma get_put_all:
  assumes "good_key k" and "\<forall>r \<in> set rs. good_key (key_of r)"
  shows "get_rec k (put_all rs db) =
    (case find (\<lambda>r. accept r \<and> key_of r = k) (rev rs) of
       Some r \<Rightarrow> Inr (norm r) | None \<Rightarrow> get_rec k db)"
  using assms(2)
proof (induction rs rule: rev_induct)
  case Nil
  then show ?case by (simp add: put_all_def)
next
  case (snoc r rs)
  have step: "put_all (rs @ [r]) db = snd (put_rec r (put_all rs db))" by (simp add: put_all_def)
  show ?case
  proof (cases "accept r")
    case True
    then have "get_rec k (put_all (rs @ [r]) db) =
      (if k = key_of r then Inr (norm r) else get_rec k (put_all rs db))"
      unfolding step using snoc.prems assms(1) by (intro get_put) simp_all
    with snoc True show ?thesis by auto
  next
    case False
    with snoc show ?thesis by (simp add: step put_refuse)
  qed
qed

end

sublocale badger_total \<subseteq> users: keyed_store "PutUser B" "GetUser B" u_Subject
  "\<lambda>u. u_Subject u \<noteq> []" "\<lambda>_. True" "\<lambda>u. u"
  by unfold_locales (auto simp: total_simps PutUser_def)

sublocale badger_total \<subseteq> gens: keyed_store "PutGenealogy B" "GetGenealogy B" g_ID
  "\<lambda>g. g_ID g \<noteq> [] \<and> Visibility_IsValid (g_Visibility g)" "\<lambda>_. True" "\<lambda>g. g"
  by unfold_locales (auto simp: total_simps PutGenealogy_def)

sublocale badger_total \<subseteq> mems: keyed_store "PutMembership B now" "\<lambda>(gid, sub). GetMembership B gid sub"
  "\<lambda>m. (m_GenealogyID m, m_Subject m)"
  "\<lambda>m. m_Subject m \<noteq> [] \<and> m_GenealogyID m \<noteq> [] \<and> Role_IsValid (m_Role m)"
  "\<lambda>(gid, sub). slash_free gid" "stamp now" for now
proof (unfold_locales, goal_cases)
  case (1 r db)
  then show ?case by (simp add: total_simps)
next
  case (2 r db)
  then show ?case by (auto simp: PutMembership_def)
next
  case (3 r k db)
  obtain gid sub where k: "k = (gid, sub)" by (cases k)
  from 3 have "PutMembership B now r db = (nil_err, dput_mem now r db)" by (simp add: total_simps)
  with 3 show ?case by (auto simp: k total_simps membershipKey_inject)
qed

sublocale badger_total \<subseteq> bans: keyed_store "PutBan B now" "\<lambda>(gid, sub). GetBan B gid sub"
  "\<lambda>b. (b_GenealogyID b, b_Subject b)" "\<lambda>b. b_Subject b \<noteq> [] \<and> b_GenealogyID b \<noteq> []"
  "\<lambda>(gid, sub). slash_free gid" "\<lambda>b. if b_At b = 0 then b\<lparr>b_At := now\<rparr> else b" for now
proof (unfold_locales, goal_cases)
  case (1 r db)
  then show ?case by (simp add: total_simps)
next
  case (2 r db)
  then show ?case by (auto simp: PutBan_def)
next
  case (3 r k db)
  obtain gid sub where k: "k = (gid, sub)" by (cases k)
  from 3 show ?case by (auto simp: k total_simps banKey_inject)
qed

section \<open>Iteration\<close>

lemma scan_items_fold:
  "(\<forall>b \<in> set vs. \<exists>r. dec b = Inr r) \<Longrightarrow>
   scan_items (decode_yield dec (\<lambda>r s. (True, f r s))) (map Inr vs) s =
     (nil_err, fold f (map (\<lambda>b. projr (dec b)) vs) s)"
  by (induction vs arbitrary: s) (auto simp: decode_yield_def)

lemma records_of_values:
  assumes "list_all2 (\<lambda>k v. m k = Some v) ks vs" and "\<forall>k v. k \<in> set ks \<and> m k = Some v \<longrightarrow> (\<exists>r. dec v = Inr r \<and> K r = k)"
  shows "map K (map (\<lambda>b. projr (dec b)) vs) = ks"
  using assms by (induction ks vs rule: list_all2_induct) fastforce+

context badger_total
begin

definition items where "items db p = map projr (TxnIterate B (NewTransaction B db) p)"

lemma items_spec:
  "\<exists>ks. distinct ks \<and> set ks = {k \<in> dom (kv db). prefix p k} \<and>
     TxnIterate B (NewTransaction B db) p = map Inr (items db p) \<and>
     list_all2 (\<lambda>k v. kv db k = Some v) ks (items db p)"
proof -
  from iterate_values [of "NewTransaction B db" p] obtain ks vs where
    *: "distinct ks" "set ks = {k \<in> dom (kv db). prefix p k}"
      "TxnIterate B (NewTransaction B db) p = map Inr vs" "list_all2 (\<lambda>k v. kv db k = Some v) ks vs"
    by (auto simp: new_view)
  then have "items db p = vs" by (simp add: items_def comp_def)
  with * show ?thesis by blast
qed

lemma scan_records:
  assumes good: "\<forall>k v. prefix p k \<and> kv db k = Some v \<longrightarrow> (\<exists>r. dec v = Inr r \<and> K r = k)"
  defines "rs \<equiv> map (\<lambda>b. projr (dec b)) (items db p)"
  shows "scanPrefix B db p (decode_yield dec (\<lambda>r s. (True, f r s))) s = (nil_err, fold f rs s)"
    and "distinct (map K rs)"
    and "set rs = {r. prefix p (K r) \<and> lookup (kv db) (K r) dec = Inr r}"
proof -
  from items_spec obtain ks where ks: "distinct ks" "set ks = {k \<in> dom (kv db). prefix p k}"
    and it: "TxnIterate B (NewTransaction B db) p = map Inr (items db p)"
    and vals: "list_all2 (\<lambda>k v. kv db k = Some v) ks (items db p)" by blast
  have dec: "\<forall>b \<in> set (items db p). \<exists>r k. dec b = Inr r \<and> K r = k \<and> k \<in> set ks \<and> kv db k = Some b"
  proof
    fix b assume "b \<in> set (items db p)"
    then obtain i where i: "i < length (items db p)" "items db p ! i = b" by (auto simp: in_set_conv_nth)
    with vals have "ks ! i \<in> set ks" "kv db (ks ! i) = Some b" by (auto simp: list_all2_conv_all_nth)
    with good ks show "\<exists>r k. dec b = Inr r \<and> K r = k \<and> k \<in> set ks \<and> kv db k = Some b" by blast
  qed
  show "scanPrefix B db p (decode_yield dec (\<lambda>r s. (True, f r s))) s = (nil_err, fold f rs s)"
    unfolding scanPrefix_def it rs_def using dec by (intro scan_items_fold) blast
  have mapK: "map K rs = ks"
    unfolding rs_def using vals good ks by (intro records_of_values) auto
  with ks show "distinct (map K rs)" by simp
  show "set rs = {r. prefix p (K r) \<and> lookup (kv db) (K r) dec = Inr r}"
  proof (intro set_eqI iffI)
    fix r assume "r \<in> set rs"
    then obtain b where "b \<in> set (items db p)" "r = projr (dec b)" by (auto simp: rs_def)
    with dec ks show "r \<in> {r. prefix p (K r) \<and> lookup (kv db) (K r) dec = Inr r}"
      by (fastforce simp: lookup_def)
  next
    fix r assume r: "r \<in> {r. prefix p (K r) \<and> lookup (kv db) (K r) dec = Inr r}"
    then obtain b where b: "kv db (K r) = Some b" "dec b = Inr r"
      by (auto simp: lookup_def split: option.splits)
    with r ks have "K r \<in> set ks" by auto
    then obtain i where i: "i < length ks" "ks ! i = K r" by (auto simp: in_set_conv_nth)
    with vals b have "items db p ! i = b" "i < length (items db p)" by (auto simp: list_all2_conv_all_nth)
    then have "b \<in> set (items db p)" by (auto simp: in_set_conv_nth)
    with b(2) show "r \<in> set rs" by (force simp: rs_def)
  qed
qed

text \<open>The members of a genealogy, the reverse entries under a subject, all genealogies.\<close>

definition mlist where
  "mlist db gid = map (\<lambda>b. projr (UnmarshalMembership b)) (items db (''m/'' @ gid @ ''/''))"
definition ulist where
  "ulist db sub = map (\<lambda>b. projr (UnmarshalMembership b)) (items db (''mr/'' @ sub @ ''/''))"
definition glist where
  "glist db = map (\<lambda>b. projr (UnmarshalGenealogy b)) (items db ''g/'')"

lemma wf_scan:
  assumes "platform_wf (kv db)"
  shows "\<forall>k v. prefix (''m/'' @ gid @ ''/'') k \<and> kv db k = Some v \<longrightarrow>
      (\<exists>r. UnmarshalMembership v = Inr r \<and> membershipKey (m_GenealogyID r) (m_Subject r) = k)"
    and "\<forall>k v. prefix (''mr/'' @ sub @ ''/'') k \<and> kv db k = Some v \<longrightarrow>
      (\<exists>r. UnmarshalMembership v = Inr r \<and> reverseMembershipKey (m_Subject r) (m_GenealogyID r) = k)"
    and "\<forall>k v. prefix ''g/'' k \<and> kv db k = Some v \<longrightarrow>
      (\<exists>g. UnmarshalGenealogy v = Inr g \<and> genealogyKey (g_ID g) = k)"
proof -
  have sub: "prefix ''m/'' k" if "prefix (''m/'' @ gid @ ''/'') k" for k
    using that by (auto simp: prefix_def)
  have sub2: "prefix ''mr/'' k" if "prefix (''mr/'' @ sub @ ''/'') k" for k
    using that by (auto simp: prefix_def)
  show "\<forall>k v. prefix (''m/'' @ gid @ ''/'') k \<and> kv db k = Some v \<longrightarrow>
      (\<exists>r. UnmarshalMembership v = Inr r \<and> membershipKey (m_GenealogyID r) (m_Subject r) = k)"
    using assms sub unfolding platform_wf_def wf_mems_def by (metis Unmarshal_MarshalMembership)
  show "\<forall>k v. prefix (''mr/'' @ sub @ ''/'') k \<and> kv db k = Some v \<longrightarrow>
      (\<exists>r. UnmarshalMembership v = Inr r \<and> reverseMembershipKey (m_Subject r) (m_GenealogyID r) = k)"
    using assms sub2 unfolding platform_wf_def wf_revs_def by (metis Unmarshal_MarshalMembership)
  show "\<forall>k v. prefix ''g/'' k \<and> kv db k = Some v \<longrightarrow>
      (\<exists>g. UnmarshalGenealogy v = Inr g \<and> genealogyKey (g_ID g) = k)"
    using assms unfolding platform_wf_def wf_gens_def by (auto simp: prefix_genealogyKey) fastforce
qed

lemma Iterate_eqs [total_simps]:
  assumes "platform_wf (kv db)"
  shows "IterateMembershipsForGenealogy B db gid (\<lambda>r s. (True, f r s)) s = (nil_err, fold f (mlist db gid) s)"
    and "IterateMembershipsForUser B db sub (\<lambda>r s. (True, f r s)) s = (nil_err, fold f (ulist db sub) s)"
    and "IterateGenealogies B db (\<lambda>g s. (True, h g s)) s' = (nil_err, fold h (glist db) s')"
  unfolding IterateMembershipsForGenealogy_def IterateMembershipsForUser_def IterateGenealogies_def
    mlist_def ulist_def glist_def
  by (rule scan_records(1) [OF wf_scan(1) [OF assms]] scan_records(1) [OF wf_scan(2) [OF assms]]
      scan_records(1) [OF wf_scan(3) [OF assms]])+

lemma wf_mem_at:
  assumes "platform_wf (kv db)" and "mem_at (kv db) gid sub = Inr r"
  shows "membershipKey (m_GenealogyID r) (m_Subject r) = membershipKey gid sub \<and> wf_membership r"
  using assms unfolding platform_wf_def wf_mems_def lookup_def
  by (auto split: option.splits) (metis Unmarshal_MarshalMembership key_prefixes(3) sum.inject(2))+

lemma set_mlist:
  assumes "platform_wf (kv db)" and "slash_free gid"
  shows "set (mlist db gid) = {r. m_GenealogyID r = gid \<and> mem_at (kv db) gid (m_Subject r) = Inr r}"
proof -
  have "set (mlist db gid) = {r. prefix (''m/'' @ gid @ ''/'') (membershipKey (m_GenealogyID r) (m_Subject r))
      \<and> lookup (kv db) (membershipKey (m_GenealogyID r) (m_Subject r)) UnmarshalMembership = Inr r}"
    unfolding mlist_def by (rule scan_records(3) [OF wf_scan(1) [OF assms(1)]])
  also have "\<dots> = {r. m_GenealogyID r = gid \<and> mem_at (kv db) gid (m_Subject r) = Inr r}"
  proof (intro Collect_cong iffI conjI; elim conjE)
    fix r assume r: "mem_at (kv db) (m_GenealogyID r) (m_Subject r) = Inr r"
      and "prefix (''m/'' @ gid @ ''/'') (membershipKey (m_GenealogyID r) (m_Subject r))"
    then obtain s where s: "membershipKey (m_GenealogyID r) (m_Subject r) = membershipKey gid s"
      unfolding prefix_membershipKey by blast
    from wf_mem_at [OF assms(1) r] have "slash_free (m_GenealogyID r)" by (simp add: wf_membership_def)
    with s assms(2) show "m_GenealogyID r = gid" by (simp add: membershipKey_inject)
    with r show "mem_at (kv db) gid (m_Subject r) = Inr r" by simp
  next
    fix r assume r: "m_GenealogyID r = gid" "mem_at (kv db) gid (m_Subject r) = Inr r"
    then show "prefix (''m/'' @ gid @ ''/'') (membershipKey (m_GenealogyID r) (m_Subject r))"
      "mem_at (kv db) (m_GenealogyID r) (m_Subject r) = Inr r" unfolding prefix_membershipKey by auto
  qed
  finally show ?thesis .
qed

lemma distinct_mlist:
  assumes "platform_wf (kv db)" and "slash_free gid"
  shows "distinct (map m_Subject (mlist db gid))"
proof -
  have "distinct (map (\<lambda>r. membershipKey (m_GenealogyID r) (m_Subject r)) (mlist db gid))"
    unfolding mlist_def by (rule scan_records(2) [OF wf_scan(1) [OF assms(1)]])
  moreover have "map (\<lambda>r. membershipKey (m_GenealogyID r) (m_Subject r)) (mlist db gid)
      = map (membershipKey gid) (map m_Subject (mlist db gid))"
    using set_mlist [OF assms] by simp
  ultimately show ?thesis by (simp only: distinct_map)
qed

lemma set_glist:
  assumes "platform_wf (kv db)"
  shows "set (glist db) = {g. gen_at (kv db) (g_ID g) = Inr g}" and "distinct (map g_ID (glist db))"
proof -
  show "set (glist db) = {g. gen_at (kv db) (g_ID g) = Inr g}"
    unfolding glist_def using scan_records(3) [OF wf_scan(3) [OF assms]] by (simp add: prefix_genealogyKey)
  have "distinct (map (\<lambda>g. genealogyKey (g_ID g)) (glist db))"
    unfolding glist_def by (rule scan_records(2) [OF wf_scan(3) [OF assms]])
  then have "distinct (map genealogyKey (map g_ID (glist db)))" by (simp add: comp_def)
  then show "distinct (map g_ID (glist db))" by (simp only: distinct_map)
qed

end

section \<open>Properties\<close>

context badger_total
begin

lemma last_write_all:
  shows "GetUser B sub (fold (\<lambda>u db. snd (PutUser B u db)) us db) =
      (case find (\<lambda>u. u_Subject u \<noteq> [] \<and> u_Subject u = sub) (rev us) of Some u \<Rightarrow> Inr u | None \<Rightarrow> GetUser B sub db)"
    and "GetGenealogy B gid (fold (\<lambda>g db. snd (PutGenealogy B g db)) gs db) =
      (case find (\<lambda>g. (g_ID g \<noteq> [] \<and> Visibility_IsValid (g_Visibility g)) \<and> g_ID g = gid) (rev gs) of
         Some g \<Rightarrow> Inr g | None \<Rightarrow> GetGenealogy B gid db)"
    and "slash_free gid \<Longrightarrow> \<forall>m \<in> set ms. slash_free (m_GenealogyID m) \<and> m_GrantedAt m \<noteq> 0 \<Longrightarrow>
      GetMembership B gid sub (fold (\<lambda>m db. snd (PutMembership B now m db)) ms db) =
      (case find (\<lambda>m. (m_Subject m \<noteq> [] \<and> m_GenealogyID m \<noteq> [] \<and> Role_IsValid (m_Role m)) \<and>
                      (m_GenealogyID m, m_Subject m) = (gid, sub)) (rev ms) of
         Some m \<Rightarrow> Inr m | None \<Rightarrow> GetMembership B gid sub db)"
proof -
  show "GetUser B sub (fold (\<lambda>u db. snd (PutUser B u db)) us db) =
      (case find (\<lambda>u. u_Subject u \<noteq> [] \<and> u_Subject u = sub) (rev us) of Some u \<Rightarrow> Inr u | None \<Rightarrow> GetUser B sub db)"
    using users.get_put_all [where k = sub and rs = us and db = db] by (simp add: users.put_all_def)
  show "GetGenealogy B gid (fold (\<lambda>g db. snd (PutGenealogy B g db)) gs db) =
      (case find (\<lambda>g. (g_ID g \<noteq> [] \<and> Visibility_IsValid (g_Visibility g)) \<and> g_ID g = gid) (rev gs) of
         Some g \<Rightarrow> Inr g | None \<Rightarrow> GetGenealogy B gid db)"
    using gens.get_put_all [where k = gid and rs = gs and db = db] by (simp add: gens.put_all_def)
  assume a: "slash_free gid" "\<forall>m \<in> set ms. slash_free (m_GenealogyID m) \<and> m_GrantedAt m \<noteq> 0"
  let ?P = "\<lambda>m. (m_Subject m \<noteq> [] \<and> m_GenealogyID m \<noteq> [] \<and> Role_IsValid (m_Role m)) \<and>
      (m_GenealogyID m, m_Subject m) = (gid, sub)"
  have "stamp now m = m" if "find ?P (rev ms) = Some m" for m
  proof -
    have "m \<in> set (rev ms)" using that unfolding find_Some_iff by (elim exE conjE) (simp only: nth_mem)
    then have "m \<in> set ms" by simp
    with a(2) show ?thesis by (simp add: stamp_def)
  qed
  then show "GetMembership B gid sub (fold (\<lambda>m db. snd (PutMembership B now m db)) ms db) =
      (case find ?P (rev ms) of Some m \<Rightarrow> Inr m | None \<Rightarrow> GetMembership B gid sub db)"
    using mems.get_put_all [where k = "(gid, sub)" and rs = ms and now = now and db = db] a
    by (simp add: mems.put_all_def split: option.splits)
qed

end

text \<open>
  Last write wins. After any sequence of \<open>Put\<close> calls a lookup returns the last record that
  was accepted for its key, and what was there before when none was.
\<close>

theorem store_last_write_wins:
  assumes "badger_total B kv tkv" and "slash_free gid"
    and "\<forall>m \<in> set ms. slash_free (m_GenealogyID m) \<and> m_GrantedAt m \<noteq> 0"
  shows "GetUser B sub (fold (\<lambda>u db. snd (PutUser B u db)) us db) =
      (case find (\<lambda>u. u_Subject u \<noteq> [] \<and> u_Subject u = sub) (rev us) of Some u \<Rightarrow> Inr u | None \<Rightarrow> GetUser B sub db) \<and>
    GetGenealogy B gid (fold (\<lambda>g db. snd (PutGenealogy B g db)) gs db) =
      (case find (\<lambda>g. (g_ID g \<noteq> [] \<and> Visibility_IsValid (g_Visibility g)) \<and> g_ID g = gid) (rev gs) of
         Some g \<Rightarrow> Inr g | None \<Rightarrow> GetGenealogy B gid db) \<and>
    GetMembership B gid sub (fold (\<lambda>m db. snd (PutMembership B now m db)) ms db) =
      (case find (\<lambda>m. (m_Subject m \<noteq> [] \<and> m_GenealogyID m \<noteq> [] \<and> Role_IsValid (m_Role m)) \<and>
                      (m_GenealogyID m, m_Subject m) = (gid, sub)) (rev ms) of
         Some m \<Rightarrow> Inr m | None \<Rightarrow> GetMembership B gid sub db)"
  using badger_total.last_write_all [OF assms(1)] assms(2,3) by (intro conjI) blast+

theorem store_last_write_wins_witness:
  "GetUser mem_badger ''ann'' (fold (\<lambda>u db. snd (PutUser mem_badger u db))
     [\<lparr>u_Subject = ''ann'', u_Email = ''a@x'', u_CreatedAt = 1, u_Suspended = False\<rparr>,
      \<lparr>u_Subject = ''ann'', u_Email = ''b@x'', u_CreatedAt = 2, u_Suspended = True\<rparr>] []) =
   Inr \<lparr>u_Subject = ''ann'', u_Email = ''b@x'', u_CreatedAt = 2, u_Suspended = True\<rparr>"
  using store_last_write_wins [OF mem.badger_total_axioms, of "''g1''" "[]" "''ann''"
      "[\<lparr>u_Subject = ''ann'', u_Email = ''a@x'', u_CreatedAt = 1, u_Suspended = False\<rparr>,
        \<lparr>u_Subject = ''ann'', u_Email = ''b@x'', u_CreatedAt = 2, u_Suspended = True\<rparr>]" "[]" "[]" 0]
  by (simp add: slash_free_def)

text \<open>
  C24: whatever calls of the database fail, every write operation of the store leaves well-formed
  contents well-formed; in particular the canonical and the reverse membership index always
  hold the same records. The ids must contain no slash.
\<close>

theorem store_writes_keep_wf:
  assumes "badger_db B kv tkv" and "platform_wf (kv db)"
  shows "(slash_free (g_ID g) \<longrightarrow> platform_wf (kv (snd (PutGenealogy B g db)))) \<and>
    (slash_free (m_GenealogyID m) \<longrightarrow> platform_wf (kv (snd (PutMembership B now m db)))) \<and>
    (slash_free gid \<longrightarrow> platform_wf (kv (snd (DeleteMembership B gid sub db)))) \<and>
    (slash_free (b_GenealogyID b) \<longrightarrow> platform_wf (kv (snd (PutBan B now b db)))) \<and>
    platform_wf (kv (snd (DeleteGenealogy B gid db))) \<and> platform_wf (kv (snd (DeleteBan B gid sub db))) \<and>
    platform_wf (kv (snd (PutUser B u db))) \<and> platform_wf (kv (snd (EnsureUser B now sub email db)))"
  using badger_db.PutGenealogy_wf [OF assms(1) surjective_pairing assms(2)]
    badger_db.PutMembership_wf [OF assms(1) surjective_pairing assms(2)]
    badger_db.DeleteMembership_wf [OF assms(1) surjective_pairing assms(2)]
    badger_db.PutBan_wf [OF assms(1) surjective_pairing assms(2)]
    badger_db.DeleteGenealogy_wf [OF assms(1) surjective_pairing assms(2)]
    badger_db.DeleteBan_wf [OF assms(1) surjective_pairing assms(2)]
    badger_db.PutUser_wf [OF assms(1) surjective_pairing assms(2)]
    badger_db.EnsureUser_wf [OF assms(1) surjective_pairing assms(2)]
  by (intro conjI impI) blast+


theorem store_writes_keep_wf_witness:
  "platform_wf (map_of (snd (PutMembership mem_badger 9
     \<lparr>m_Subject = ''ann'', m_GenealogyID = ''g1'', m_Role = RoleOwner, m_GrantedBy = ''ann'', m_GrantedAt = 0\<rparr> [])))"
proof -
  have "platform_wf (map_of ([] :: memdb))" by (simp add: platform_wf_empty)
  from store_writes_keep_wf [OF mem.badger_db_axioms this] show ?thesis by (simp add: slash_free_def)
qed

end
