(* ===== verification/Counters.thy ===== *)
theory Counters
  imports Platform_Laws
begin

unbundle bit_operations_syntax

text \<open>
  The quota counters of the platform store (\<open>internal/platform/counters.go\<close>): unsigned
  64-bit values in big-endian form, updated by a read-modify-write in one transaction under
  the process-wide mutex \<open>counterMu\<close>, so that one update is one atomic step here.

  The lemmas give the exact arithmetic of an update (saturation at zero, wrap-around at the
  top), the round trip of the encoding, and the contract \<open>counter_store\<close> that the
  quota enforcer builds on.
\<close>

section \<open>Big-endian encoding\<close>

definition PutUint64 :: "uint64 \<Rightarrow> uint8 list" where
  "PutUint64 n = map (\<lambda>i. ucast (drop_bit (8 * i) n)) [7, 6, 5, 4, 3, 2, 1, 0]"

definition Uint64 :: "uint8 list \<Rightarrow> uint64" where
  "Uint64 bs = foldl (\<lambda>acc b. push_bit 8 acc OR ucast b) 0 bs"

section \<open>Counters\<close>

definition userPrivateGenCountKey :: "string \<Rightarrow> string" where
  "userPrivateGenCountKey sub = ''c/u/'' @ sub"

definition personCountKey :: "string \<Rightarrow> string" where
  "personCountKey gid = ''c/g/'' @ gid @ ''/persons''"

definition readCounterTx :: "('db, 'tx) badger \<Rightarrow> 'tx \<Rightarrow> string \<Rightarrow> err + uint64" where
  "readCounterTx B tx k =
     (case TxnGet B tx k of
        Inl e \<Rightarrow> if e = BErrKeyNotFound then Inr 0 else Inl (ErrBadger e)
      | Inr (Inl e) \<Rightarrow> Inl (ErrBadger e)
      | Inr (Inr (Raw bs)) \<Rightarrow>
          if length bs \<noteq> 8 then Inl (ErrNew ''platform: corrupt counter'') else Inr (Uint64 bs)
      | Inr (Inr (Doc _)) \<Rightarrow> Inl (ErrNew ''platform: corrupt counter''))"

definition readCounter :: "('db, 'tx) badger \<Rightarrow> string \<Rightarrow> 'db \<Rightarrow> err + uint64" where
  "readCounter B k db = View B db (\<lambda>tx. readCounterTx B tx k)"

text \<open>
  The new value: \<open>uint64(-delta)\<close> and \<open>int64(cur) + delta\<close> are two's complement,
  so negation and addition of words.
\<close>

definition counter_add :: "uint64 \<Rightarrow> int64 \<Rightarrow> uint64" where
  "counter_add cur delta = (if delta <s 0 \<and> cur < - delta then 0 else cur + delta)"

definition incCounter :: "('db, 'tx) badger \<Rightarrow> string \<Rightarrow> int64 \<Rightarrow> 'db \<Rightarrow> (err + uint64) \<times> 'db" where
  "incCounter B k delta db =
     Update B db (\<lambda>tx.
       case readCounterTx B tx k of
         Inl e \<Rightarrow> Inl e
       | Inr cur \<Rightarrow>
           (let cur' = counter_add cur delta in
            case TxnSet B tx k (Raw (PutUint64 cur')) of
              Inl e \<Rightarrow> Inl (ErrBadger e)
            | Inr tx' \<Rightarrow> Inr (cur', tx')))"

definition IncUserPrivateGenCount :: "('db, 'tx) badger \<Rightarrow> string \<Rightarrow> int64 \<Rightarrow> 'db \<Rightarrow> (err + uint64) \<times> 'db" where
  "IncUserPrivateGenCount B sub delta db = incCounter B (userPrivateGenCountKey sub) delta db"

definition GetUserPrivateGenCount :: "('db, 'tx) badger \<Rightarrow> string \<Rightarrow> 'db \<Rightarrow> err + uint64" where
  "GetUserPrivateGenCount B sub db = readCounter B (userPrivateGenCountKey sub) db"

definition IncPersonCount :: "('db, 'tx) badger \<Rightarrow> string \<Rightarrow> int64 \<Rightarrow> 'db \<Rightarrow> (err + uint64) \<times> 'db" where
  "IncPersonCount B gid delta db = incCounter B (personCountKey gid) delta db"

definition GetPersonCount :: "('db, 'tx) badger \<Rightarrow> string \<Rightarrow> 'db \<Rightarrow> err + uint64" where
  "GetPersonCount B gid db = readCounter B (personCountKey gid) db"

definition SetPersonCount :: "('db, 'tx) badger \<Rightarrow> string \<Rightarrow> uint64 \<Rightarrow> 'db \<Rightarrow> (err + unit) \<times> 'db" where
  "SetPersonCount B gid n db = put B db (personCountKey gid) (Raw (PutUint64 n))"

section \<open>Encoding and arithmetic\<close>

lemma be_step:
  "push_bit 8 (drop_bit (i + 8) n) OR ucast (ucast (drop_bit i n) :: uint8) = drop_bit i (n :: uint64)"
  by (rule bit_word_eqI) (auto simp: bit_simps)

lemma be_top: "drop_bit 64 (n :: uint64) = 0"
  by (rule bit_word_eqI) (auto simp: bit_simps)

lemma Uint64_PutUint64 [simp]: "Uint64 (PutUint64 n) = n"
  unfolding Uint64_def PutUint64_def
  using be_step [of 56 n] be_step [of 48 n] be_step [of 40 n] be_step [of 32 n]
    be_step [of 24 n] be_step [of 16 n] be_step [of 8 n] be_step [of 0 n]
  by (simp add: be_top)

lemma length_PutUint64 [simp]: "length (PutUint64 n) = 8"
  by (simp add: PutUint64_def)

lemma uint_of_sint: "uint (w :: 64 word) = sint w mod 2 ^ 64"
  by (simp add: uint_sint take_bit_eq_mod)

lemma uint_uminus_negative: "sint (d :: 64 word) < 0 \<Longrightarrow> uint (- d) = - sint d"
proof -
  assume neg: "sint d < 0"
  have "uint (- d) = (- uint d) mod 2 ^ 64" by (simp add: uint_word_ariths)
  also have "\<dots> = (- sint d) mod 2 ^ 64" unfolding uint_of_sint by (simp only: mod_minus_eq)
  also have "\<dots> = - sint d" using neg sint_greater_eq [of d] by (intro mod_pos_pos_trivial) simp_all
  finally show ?thesis .
qed

lemma uint_counter_add:
  "uint (counter_add cur delta) =
     (if uint cur + sint delta < 0 then 0 else (uint cur + sint delta) mod 2 ^ 64)"
proof -
  have sum: "uint (cur + delta) = (uint cur + sint delta) mod 2 ^ 64"
    by (simp add: uint_word_ariths uint_of_sint [of delta] mod_simps)
  have neg: "delta <s 0 \<longleftrightarrow> sint delta < 0" by (simp add: word_sless_alt)
  have less: "cur < - delta \<longleftrightarrow> uint cur + sint delta < 0" if "sint delta < 0"
    using uint_uminus_negative [OF that] by (auto simp: word_less_def)
  have pos: "\<not> uint cur + sint delta < 0" if "\<not> sint delta < 0"
    using that uint_lt_0 [of cur] by (simp add: not_less)
  show ?thesis using sum neg less pos by (auto simp: counter_add_def)
qed

lemma uint_counter_add_nonneg:
  "0 \<le> sint delta \<Longrightarrow> uint cur + sint delta < 2 ^ 64 \<Longrightarrow> uint (counter_add cur delta) = uint cur + sint delta"
proof -
  assume a: "0 \<le> sint delta" "uint cur + sint delta < 2 ^ 64"
  then have "0 \<le> uint cur + sint delta" by (intro add_nonneg_nonneg) simp_all
  with a show ?thesis by (simp add: uint_counter_add not_less)
qed

lemma counter_add_one: "unat c < 2 ^ 64 - 1 \<Longrightarrow> unat (counter_add c 1) = unat c + 1"
proof -
  assume "unat c < 2 ^ 64 - 1"
  moreover have "counter_add c 1 = c + 1" by (simp add: counter_add_def word_sless_alt)
  ultimately show ?thesis by (simp add: unat_word_ariths)
qed

lemma counter_add_minus_one: "unat (counter_add c (- 1)) = unat c - 1"
proof (cases "c = 0")
  case True
  then show ?thesis by (simp add: counter_add_def word_sless_alt)
next
  case False
  then have "1 \<le> c" by (simp add: word_le_nat_alt unat_gt_0 Suc_leI)
  then have "counter_add c (- 1) = c - 1" by (simp add: counter_add_def not_less [symmetric])
  with \<open>1 \<le> c\<close> show ?thesis by (simp add: unat_sub)
qed

section \<open>Keys\<close>

lemmas counter_key_defs = userPrivateGenCountKey_def personCountKey_def

lemma counter_keys [simp, key_simps]:
  "userPrivateGenCountKey s = userPrivateGenCountKey t \<longleftrightarrow> s = t"
  "personCountKey g = personCountKey h \<longleftrightarrow> g = h"
  "userPrivateGenCountKey s \<noteq> personCountKey g" "personCountKey g \<noteq> userPrivateGenCountKey s"
  "prefix ''c/'' (userPrivateGenCountKey s)" "prefix ''c/'' (personCountKey g)"
  by (simp_all add: counter_key_defs)

lemma counter_key_kinds [simp, key_simps]:
  assumes "prefix ''c/'' k"
  shows "k \<noteq> userKey s" "k \<noteq> genealogyKey g" "k \<noteq> membershipKey g s" "k \<noteq> reverseMembershipKey s g"
    "k \<noteq> banKey g s" "userKey s \<noteq> k" "genealogyKey g \<noteq> k" "membershipKey g s \<noteq> k"
    "reverseMembershipKey s g \<noteq> k" "banKey g s \<noteq> k"
  using assms by auto

lemma counter_key_prefixes:
  assumes "prefix ''c/'' k"
  shows "\<not> prefix ''m/'' k" "\<not> prefix ''mr/'' k" "\<not> prefix ''b/'' k"
  using assms by (auto simp: prefix_def)

section \<open>Contents\<close>

definition counter_of :: "blob option \<Rightarrow> err + uint64" where
  "counter_of b =
     (case b of
        None \<Rightarrow> Inr 0
      | Some (Raw bs) \<Rightarrow>
          if length bs \<noteq> 8 then Inl (ErrNew ''platform: corrupt counter'') else Inr (Uint64 bs)
      | Some (Doc _) \<Rightarrow> Inl (ErrNew ''platform: corrupt counter''))"

text \<open>Every counter key holds eight bytes.\<close>

definition counters_wf :: "(string \<Rightarrow> blob option) \<Rightarrow> bool" where
  "counters_wf m \<longleftrightarrow> (\<forall>k b. prefix ''c/'' k \<and> m k = Some b \<longrightarrow> (\<exists>n. b = Raw (PutUint64 n)))"

lemma counters_wf_empty: "counters_wf Map.empty"
  by (simp add: counters_wf_def)

lemma counters_wf_upd: "counters_wf m \<Longrightarrow> counters_wf (m(k \<mapsto> Raw (PutUint64 n)))"
  by (auto simp: counters_wf_def)

lemma counters_wf_frame: "counters_wf m \<Longrightarrow> \<not> prefix ''c/'' k \<Longrightarrow> counters_wf (m(k := x))"
  by (auto simp: counters_wf_def)

lemma platform_wf_counter: "platform_wf m \<Longrightarrow> prefix ''c/'' k \<Longrightarrow> platform_wf (m(k := x))"
  by (intro platform_wf_frame) (simp_all add: counter_key_prefixes)

text \<open>The value of a counter in well-formed contents.\<close>

definition counter_at :: "(string \<Rightarrow> blob option) \<Rightarrow> string \<Rightarrow> uint64" where
  "counter_at m k = projr (counter_of (m k))"

lemma counter_of_wf: "counters_wf m \<Longrightarrow> prefix ''c/'' k \<Longrightarrow> counter_of (m k) = Inr (counter_at m k)"
  by (cases "m k") (fastforce simp: counters_wf_def counter_at_def counter_of_def)+

lemma counter_at_upd_same [simp]: "counter_at (m(k \<mapsto> Raw (PutUint64 n))) k = n"
  by (simp add: counter_at_def counter_of_def)

lemma counter_at_other [simp]: "k \<noteq> k' \<Longrightarrow> counter_at (m(k := x)) k' = counter_at m k'"
  by (simp add: counter_at_def)

context badger_db
begin

lemma incCounter_effect:
  assumes "incCounter B k delta db = (r, db')"
  shows "(\<exists>cur. counter_of (kv db k) = Inr cur \<and> r = Inr (counter_add cur delta) \<and>
            kv db' = (kv db)(k \<mapsto> Raw (PutUint64 (counter_add cur delta))))
         \<or> (\<exists>e. r = Inl e) \<and> db' = db"
proof (cases r)
  case (Inl e)
  with assms show ?thesis by (auto simp: incCounter_def Update_def Let_def split: sum.splits)
next
  case (Inr n)
  from assms Inr obtain cur tx' where
    rd: "readCounterTx B (NewTransaction B db) k = Inr cur" and
    st: "TxnSet B (NewTransaction B db) k (Raw (PutUint64 (counter_add cur delta))) = Inr tx'" and
    c: "TxnCommit B db tx' = Inr db'" "n = counter_add cur delta"
    by (auto simp: incCounter_def Update_def Let_def split: sum.splits)
  have "counter_of (kv db k) = Inr cur"
    using rd get_found [of "NewTransaction B db" k] get_missing [of "NewTransaction B db" k]
    by (auto simp: readCounterTx_def counter_of_def new_view split: sum.splits blob.splits if_splits)
  moreover have "kv db' = (kv db)(k \<mapsto> Raw (PutUint64 (counter_add cur delta)))"
    using commit_view [OF txn_set [OF txn_new st] c(1)] set_view [OF st] new_view by simp
  ultimately show ?thesis using Inr c(2) by blast
qed

lemma incCounter_wf:
  "incCounter B k delta db = (r, db') \<Longrightarrow> prefix ''c/'' k \<Longrightarrow>
   platform_wf (kv db) \<and> counters_wf (kv db) \<Longrightarrow> platform_wf (kv db') \<and> counters_wf (kv db')"
  by (auto dest!: incCounter_effect simp: counters_wf_upd platform_wf_counter)

end

section \<open>The counter contract\<close>

locale counter_store =
  fixes inc :: "'k \<Rightarrow> int64 \<Rightarrow> 'db \<Rightarrow> (err + uint64) \<times> 'db"
    and rd :: "'k \<Rightarrow> 'db \<Rightarrow> err + uint64"
    and cval :: "'db \<Rightarrow> 'k \<Rightarrow> uint64"
    and ok :: "'db \<Rightarrow> bool"
  assumes rd_value: "ok db \<Longrightarrow> rd k db = Inr (cval db k)"
    and inc_result: "ok db \<Longrightarrow> fst (inc k d db) = Inr (counter_add (cval db k) d)"
    and inc_ok: "ok db \<Longrightarrow> ok (snd (inc k d db))"
    and inc_value: "ok db \<Longrightarrow>
          cval (snd (inc k d db)) = (cval db)(k := counter_add (cval db k) d)"
begin

definition run_incs :: "('k \<times> int64) list \<Rightarrow> 'db \<Rightarrow> 'db" where
  "run_incs ds db = fold (\<lambda>(k, d) db. snd (inc k d db)) ds db"

text \<open>
  Increments serialised in any order lose no update: with non-negative steps whose total
  fits, the counter ends at its start plus the sum of the steps for its key.
\<close>

lemma run_incs_sum:
  assumes "ok db" and "\<forall>(k', d) \<in> set ds. 0 \<le> sint d"
    and "uint (cval db k) + (\<Sum>(k', d) \<leftarrow> ds. if k' = k then sint d else 0) < 2 ^ 64"
  shows "ok (run_incs ds db) \<and>
    uint (cval (run_incs ds db) k) = uint (cval db k) + (\<Sum>(k', d) \<leftarrow> ds. if k' = k then sint d else 0)"
  using assms
proof (induction ds arbitrary: db)
  case Nil
  then show ?case by (simp add: run_incs_def)
next
  case (Cons kd ds)
  obtain k0 d where kd: "kd = (k0, d)" by (cases kd)
  let ?db = "snd (inc k0 d db)"
  let ?sum = "\<Sum>(k', d) \<leftarrow> ds. if k' = k then sint d else 0"
  have nonneg: "0 \<le> ?sum" using Cons.prems(2) by (intro sum_list_nonneg) (auto split: if_splits)
  have d: "0 \<le> sint d" using Cons.prems(2) by (simp add: kd)
  have val: "uint (cval ?db k) = uint (cval db k) + (if k0 = k then sint d else 0)"
    using Cons.prems nonneg d by (auto simp: inc_value kd uint_counter_add_nonneg)
  have "ok ?db" using Cons.prems(1) by (rule inc_ok)
  from Cons.IH [OF this] Cons.prems val show ?case by (simp add: run_incs_def kd algebra_simps)
qed

end

context badger_total
begin

lemma readCounterTx_eq: "readCounterTx B tx k = counter_of (tkv tx k)"
  by (simp add: readCounterTx_def counter_of_def get_total split: option.splits blob.splits)

lemma readCounter_eq [total_simps]: "readCounter B k db = counter_of (kv db k)"
  by (simp add: readCounter_def View_def readCounterTx_eq new_view)

definition dinc where "dinc k delta db = snd (incCounter B k delta db)"

lemma incCounter_eq [total_simps]:
  assumes "counters_wf (kv db)" and "prefix ''c/'' k"
  shows "incCounter B k delta db = (Inr (counter_add (counter_at (kv db) k) delta), dinc k delta db)"
proof -
  let ?n = "counter_add (counter_at (kv db) k) delta"
  obtain tx' where t: "TxnSet B (NewTransaction B db) k (Raw (PutUint64 ?n)) = Inr tx'"
    using set_total by blast
  have "txn_on B db tx'" by (rule txn_set [OF txn_new t])
  then obtain db' where "TxnCommit B db tx' = Inr db'" using commit_total by blast
  then have "incCounter B k delta db = (Inr ?n, db')"
    using t counter_of_wf [OF assms]
    by (simp add: incCounter_def Update_def readCounterTx_eq new_view Let_def)
  then show ?thesis by (simp add: dinc_def)
qed

lemma kv_dinc [simp]:
  assumes "counters_wf (kv db)" and "prefix ''c/'' k"
  shows "kv (dinc k delta db) = (kv db)(k \<mapsto> Raw (PutUint64 (counter_add (counter_at (kv db) k) delta)))"
  using incCounter_effect [OF incCounter_eq [OF assms]] counter_of_wf [OF assms] by auto

lemma Counter_eqs [total_simps]:
  assumes "counters_wf (kv db)"
  shows "GetUserPrivateGenCount B sub db = Inr (counter_at (kv db) (userPrivateGenCountKey sub))"
    and "GetPersonCount B gid db = Inr (counter_at (kv db) (personCountKey gid))"
  using assms by (simp_all add: GetUserPrivateGenCount_def GetPersonCount_def readCounter_eq counter_of_wf)

end

sublocale badger_total \<subseteq> user_count: counter_store "IncUserPrivateGenCount B" "GetUserPrivateGenCount B"
  "\<lambda>db sub. counter_at (kv db) (userPrivateGenCountKey sub)" "\<lambda>db. counters_wf (kv db)"
  by unfold_locales
    (auto simp: total_simps IncUserPrivateGenCount_def counters_wf_upd fun_eq_iff)

sublocale badger_total \<subseteq> person_count: counter_store "IncPersonCount B" "GetPersonCount B"
  "\<lambda>db gid. counter_at (kv db) (personCountKey gid)" "\<lambda>db. counters_wf (kv db)"
  by unfold_locales
    (auto simp: total_simps IncPersonCount_def counters_wf_upd fun_eq_iff)

section \<open>Properties\<close>

text \<open>
  A counter update computes \<open>cur + delta\<close> over the integers, cut off at zero below and
  reduced modulo \<open>2^64\<close> above, and the stored bytes read back as the value.
\<close>

theorem counter_arithmetic:
  "uint (counter_add cur delta) =
     (if uint cur + sint delta < 0 then 0 else (uint cur + sint delta) mod 2 ^ 64) \<and>
   Uint64 (PutUint64 n) = n \<and> length (PutUint64 n) = 8"
  using uint_counter_add by simp

context badger_total
begin

lemma incs_sum:
  assumes "counters_wf (kv db)" and "\<forall>(sub', d) \<in> set ds. 0 \<le> sint d"
    and "uint (counter_at (kv db) (userPrivateGenCountKey sub)) + (\<Sum>(sub', d) \<leftarrow> ds. if sub' = sub then sint d else 0) < 2 ^ 64"
  defines "db' \<equiv> fold (\<lambda>(sub', d) db. snd (IncUserPrivateGenCount B sub' d db)) ds db"
  shows "\<exists>n. GetUserPrivateGenCount B sub db' = Inr n \<and>
    uint n = uint (counter_at (kv db) (userPrivateGenCountKey sub)) + (\<Sum>(sub', d) \<leftarrow> ds. if sub' = sub then sint d else 0)"
proof -
  from user_count.run_incs_sum [OF assms(1-3)]
  have "counters_wf (kv db')" and "uint (counter_at (kv db') (userPrivateGenCountKey sub)) =
      uint (counter_at (kv db) (userPrivateGenCountKey sub)) + (\<Sum>(sub', d) \<leftarrow> ds. if sub' = sub then sint d else 0)"
    by (simp_all add: user_count.run_incs_def db'_def)
  then show ?thesis by (simp add: Counter_eqs)
qed

end

text \<open>
  No increment is lost: in whatever order the mutex serialises them, a series of non-negative
  steps for many users leaves each user's counter at its start plus the sum of that user's steps,
  as long as that sum fits 64 bits.
\<close>

theorem counter_no_lost_update:
  assumes "badger_total B kv tkv" and "counters_wf (kv db)" and "\<forall>(sub', d) \<in> set ds. 0 \<le> sint d"
    and "uint (counter_at (kv db) (userPrivateGenCountKey sub)) + (\<Sum>(sub', d) \<leftarrow> ds. if sub' = sub then sint d else 0) < 2 ^ 64"
  shows "\<exists>n. GetUserPrivateGenCount B sub (fold (\<lambda>(sub', d) db. snd (IncUserPrivateGenCount B sub' d db)) ds db) = Inr n \<and>
    uint n = uint (counter_at (kv db) (userPrivateGenCountKey sub)) + (\<Sum>(sub', d) \<leftarrow> ds. if sub' = sub then sint d else 0)"
  using badger_total.incs_sum [OF assms] .

theorem counter_no_lost_update_witness:
  "\<exists>n. GetUserPrivateGenCount mem_badger ''ann''
     (fold (\<lambda>(sub', d) db. snd (IncUserPrivateGenCount mem_badger sub' d db)) [(''ann'', 1), (''bob'', 5), (''ann'', 1)] []) = Inr n \<and>
     uint n = 2"
proof -
  have "counters_wf (map_of ([] :: memdb))" by (simp add: counters_wf_empty)
  from counter_no_lost_update [OF mem.badger_total_axioms this, of "[(''ann'', 1), (''bob'', 5), (''ann'', 1)]" "''ann''"]
  show ?thesis by (simp add: counter_at_def counter_of_def)
qed

end
