(* ===== verification/Quotas.thy ===== *)
theory Quotas
  imports Counters
begin

text \<open>
  The quota enforcer (package \<open>internal/quotas\<close>): limits and the checks and counter
  updates made with them. A limit of zero means no limit. The locale \<open>quota_guard\<close> is
  what the two quotas (private genealogies per user, persons per genealogy) have in common:
  a check against a counter of the store and a use that counts up.
\<close>

record Limits =
  MaxPrivateGenealogiesPerUser :: uint64
  MaxPersonsPerGenealogy :: uint64

definition Default :: Limits where
  "Default = \<lparr>MaxPrivateGenealogiesPerUser = 5, MaxPersonsPerGenealogy = 1000\<rparr>"

definition CheckCreatePrivateGenealogy ::
  "('db, 'tx) badger \<Rightarrow> Limits \<Rightarrow> string \<Rightarrow> 'db \<Rightarrow> err + unit" where
  "CheckCreatePrivateGenealogy B limits sub db =
     (if MaxPrivateGenealogiesPerUser limits = 0 then nil_err
      else (case GetUserPrivateGenCount B sub db of
              Inl e \<Rightarrow> Inl e
            | Inr cur \<Rightarrow> if MaxPrivateGenealogiesPerUser limits \<le> cur then Inl ErrQuotaExceeded else nil_err))"

definition CheckCreatePerson ::
  "('db, 'tx) badger \<Rightarrow> Limits \<Rightarrow> string \<Rightarrow> 'db \<Rightarrow> err + unit" where
  "CheckCreatePerson B limits gid db =
     (if MaxPersonsPerGenealogy limits = 0 then nil_err
      else (case GetPersonCount B gid db of
              Inl e \<Rightarrow> Inl e
            | Inr cur \<Rightarrow> if MaxPersonsPerGenealogy limits \<le> cur then Inl ErrQuotaExceeded else nil_err))"

text \<open>\<open>_, err := inc(...); return err\<close>.\<close>

definition drop_value :: "(err + 'a) \<times> 'db \<Rightarrow> (err + unit) \<times> 'db" where
  "drop_value p = (case p of (Inl e, db) \<Rightarrow> (Inl e, db) | (Inr _, db) \<Rightarrow> (nil_err, db))"

definition IncPrivateGenealogy :: "('db, 'tx) badger \<Rightarrow> string \<Rightarrow> 'db \<Rightarrow> (err + unit) \<times> 'db" where
  "IncPrivateGenealogy B sub db = drop_value (IncUserPrivateGenCount B sub 1 db)"

definition DecPrivateGenealogy :: "('db, 'tx) badger \<Rightarrow> string \<Rightarrow> 'db \<Rightarrow> (err + unit) \<times> 'db" where
  "DecPrivateGenealogy B sub db = drop_value (IncUserPrivateGenCount B sub (- 1) db)"

definition IncPerson :: "('db, 'tx) badger \<Rightarrow> string \<Rightarrow> 'db \<Rightarrow> (err + unit) \<times> 'db" where
  "IncPerson B gid db = drop_value (IncPersonCount B gid 1 db)"

lemma snd_drop_value [simp]: "snd (drop_value p) = snd p"
  by (cases p) (auto simp: drop_value_def split: sum.splits)

lemma fst_drop_value: "fst (drop_value p) = (case fst p of Inl e \<Rightarrow> Inl e | Inr _ \<Rightarrow> nil_err)"
  by (cases p) (auto simp: drop_value_def split: sum.splits)

section \<open>Guarded counting\<close>

locale quota_guard = counter_store +
  fixes limit :: uint64
    and check :: "'a \<Rightarrow> 'b \<Rightarrow> err + unit"
    and use :: "'a \<Rightarrow> 'b \<Rightarrow> (err + unit) \<times> 'b"
  assumes check_eq: "ok db \<Longrightarrow>
        check k db = (if limit = 0 \<or> cval db k < limit then nil_err else Inl ErrQuotaExceeded)"
    and use_eq: "use k db = drop_value (inc k 1 db)"
begin

text \<open>One request: check, then count. The flag says whether it was let through.\<close>

definition request :: "'a \<Rightarrow> 'b \<Rightarrow> bool \<times> 'b" where
  "request k db = (case check k db of Inl e \<Rightarrow> (False, db) | Inr _ \<Rightarrow> (True, snd (use k db)))"

fun requests :: "'a list \<Rightarrow> 'b \<Rightarrow> bool list \<times> 'b" where
  "requests [] db = ([], db)"
| "requests (k # ks) db =
     (case request k db of (b, db') \<Rightarrow> case requests ks db' of (bs, db'') \<Rightarrow> (b # bs, db''))"

lemma request_ok: "ok db \<Longrightarrow> ok (snd (request k db))"
  by (auto simp: request_def use_eq inc_ok split: sum.splits)

lemma request_value:
  assumes "ok db" and "limit \<noteq> 0" and "cval db k \<le> limit"
  shows "fst (request k db) = (cval db k < limit)"
    and "unat (cval (snd (request k db)) k') =
      (if k' = k then min (unat (cval db k) + 1) (unat limit) else unat (cval db k'))"
proof -
  have lim: "unat (cval db k) \<le> unat limit" using assms(3) by (simp add: word_le_nat_alt)
  have add: "unat (counter_add (cval db k) 1) = unat (cval db k) + 1" if "cval db k < limit"
    using that unsigned_less [of limit, where 'a = nat] by (intro counter_add_one) (simp add: word_less_nat_alt)
  show "fst (request k db) = (cval db k < limit)"
    using assms(1,2) by (auto simp: request_def check_eq)
  show "unat (cval (snd (request k db)) k') =
      (if k' = k then min (unat (cval db k) + 1) (unat limit) else unat (cval db k'))"
    using assms(1,2) lim add
    by (auto simp: request_def check_eq use_eq inc_value word_less_nat_alt)
qed

text \<open>However often it is asked, the counter never passes the limit.\<close>

lemma requests_bounded:
  assumes "ok db" and "limit \<noteq> 0" and "\<forall>k. cval db k \<le> limit"
  shows "ok (snd (requests ks db)) \<and> (\<forall>k. cval (snd (requests ks db)) k \<le> limit)"
  using assms
proof (induction ks arbitrary: db)
  case Nil
  then show ?case by simp
next
  case (Cons k ks)
  have "ok (snd (request k db))" using Cons.prems(1) by (rule request_ok)
  moreover have "\<forall>k'. cval (snd (request k db)) k' \<le> limit"
    using request_value(2) [OF Cons.prems(1,2)] Cons.prems(3) by (auto simp: word_le_nat_alt)
  ultimately show ?case using Cons.IH Cons.prems(2) by (auto split: prod.splits) fastforce+
qed

text \<open>From a zero counter exactly the first \<open>limit\<close> requests are let through.\<close>

lemma requests_admit:
  assumes "ok db" and "limit \<noteq> 0" and "cval db k \<le> limit"
  shows "fst (requests (replicate n k) db) =
    map (\<lambda>i. unat (cval db k) + i < unat limit) [0..<n]"
  using assms
proof (induction n arbitrary: db)
  case 0
  then show ?case by simp
next
  case (Suc n)
  let ?db = "snd (request k db)"
  have v: "unat (cval ?db k) = min (unat (cval db k) + 1) (unat limit)"
    using request_value(2) [OF Suc.prems] by simp
  have "fst (requests (replicate n k) ?db) = map (\<lambda>i. unat (cval ?db k) + i < unat limit) [0..<n]"
    using Suc.IH [OF request_ok [OF Suc.prems(1)] Suc.prems(2)] v by (simp add: word_le_nat_alt)
  also have "\<dots> = map (\<lambda>i. unat (cval db k) + Suc i < unat limit) [0..<n]"
    unfolding v by (intro map_cong refl) (auto simp: min_def)
  finally have rest: "fst (requests (replicate n k) ?db) = \<dots>" .
  have first: "fst (request k db) = (unat (cval db k) < unat limit)"
    using request_value(1) [OF Suc.prems] by (simp add: word_less_nat_alt)
  have "fst (requests (replicate (Suc n) k) db) = fst (request k db) # fst (requests (replicate n k) ?db)"
    by (simp split: prod.splits)
  also have "\<dots> = map (\<lambda>i. unat (cval db k) + i < unat limit) (0 # map Suc [0..<n])"
    using first rest by (simp add: comp_def)
  finally show ?case by (simp only: map_Suc_upt upt_conv_Cons [OF zero_less_Suc])
qed

end

sublocale badger_total \<subseteq> private_quota: quota_guard "IncUserPrivateGenCount B" "GetUserPrivateGenCount B"
  "\<lambda>db sub. counter_at (kv db) (userPrivateGenCountKey sub)" "\<lambda>db. counters_wf (kv db)"
  "MaxPrivateGenealogiesPerUser limits" "CheckCreatePrivateGenealogy B limits" "IncPrivateGenealogy B"
  for limits
  by unfold_locales
    (auto simp: CheckCreatePrivateGenealogy_def Counter_eqs IncPrivateGenealogy_def)

sublocale badger_total \<subseteq> person_quota: quota_guard "IncPersonCount B" "GetPersonCount B"
  "\<lambda>db gid. counter_at (kv db) (personCountKey gid)" "\<lambda>db. counters_wf (kv db)"
  "MaxPersonsPerGenealogy limits" "CheckCreatePerson B limits" "IncPerson B"
  for limits
  by unfold_locales
    (auto simp: CheckCreatePerson_def Counter_eqs IncPerson_def)

context badger_total
begin

lemma Quota_eqs [total_simps]:
  assumes "counters_wf (kv db)"
  shows "CheckCreatePrivateGenealogy B limits sub db =
      (if MaxPrivateGenealogiesPerUser limits = 0 \<or>
          counter_at (kv db) (userPrivateGenCountKey sub) < MaxPrivateGenealogiesPerUser limits
       then nil_err else Inl ErrQuotaExceeded)"
    and "CheckCreatePerson B limits gid db =
      (if MaxPersonsPerGenealogy limits = 0 \<or>
          counter_at (kv db) (personCountKey gid) < MaxPersonsPerGenealogy limits
       then nil_err else Inl ErrQuotaExceeded)"
    and "IncPrivateGenealogy B sub db = (nil_err, dinc (userPrivateGenCountKey sub) 1 db)"
    and "DecPrivateGenealogy B sub db = (nil_err, dinc (userPrivateGenCountKey sub) (- 1) db)"
    and "IncPerson B gid db = (nil_err, dinc (personCountKey gid) 1 db)"
  using private_quota.check_eq [OF assms] person_quota.check_eq [OF assms] assms
  by (simp_all add: IncPrivateGenealogy_def DecPrivateGenealogy_def IncPerson_def drop_value_def
      IncUserPrivateGenCount_def IncPersonCount_def incCounter_eq)

end

section \<open>Properties\<close>

text \<open>One creation under the quota: check, then count. The flag says whether it was let through.\<close>

definition create_private :: "('db, 'tx) badger \<Rightarrow> Limits \<Rightarrow> string \<Rightarrow> 'db \<Rightarrow> bool \<times> 'db" where
  "create_private B limits sub db =
     (case CheckCreatePrivateGenealogy B limits sub db of
        Inl e \<Rightarrow> (False, db)
      | Inr _ \<Rightarrow> (True, snd (IncPrivateGenealogy B sub db)))"

fun create_privates :: "('db, 'tx) badger \<Rightarrow> Limits \<Rightarrow> string list \<Rightarrow> 'db \<Rightarrow> bool list \<times> 'db" where
  "create_privates B limits [] db = ([], db)"
| "create_privates B limits (sub # subs) db =
     (case create_private B limits sub db of
        (b, db') \<Rightarrow> case create_privates B limits subs db' of (bs, db'') \<Rightarrow> (b # bs, db''))"

context badger_total
begin

lemma create_private_request: "create_private B limits sub db = private_quota.request limits sub db"
  by (simp add: create_private_def private_quota.request_def split: sum.splits)

lemma create_privates_requests: "create_privates B limits subs db = private_quota.requests limits subs db"
  by (induction subs arbitrary: db) (simp_all add: create_private_request split: prod.splits)

lemma create_privates_quota:
  assumes "counters_wf (kv db)" and "MaxPrivateGenealogiesPerUser limits \<noteq> 0"
    and "\<forall>sub. counter_at (kv db) (userPrivateGenCountKey sub) \<le> MaxPrivateGenealogiesPerUser limits"
  shows "(\<forall>sub. counter_at (kv (snd (create_privates B limits subs db))) (userPrivateGenCountKey sub)
      \<le> MaxPrivateGenealogiesPerUser limits) \<and>
    fst (create_privates B limits (replicate n sub) db) =
      map (\<lambda>i. unat (counter_at (kv db) (userPrivateGenCountKey sub)) + i < unat (MaxPrivateGenealogiesPerUser limits)) [0..<n]"
  using private_quota.requests_bounded [OF assms, of subs]
    private_quota.requests_admit [OF assms(1,2), of sub n] assms(3)
  by (simp add: create_privates_requests)

end

text \<open>
  The private-genealogy quota. Whatever sequence of users asks, no counter passes the limit;
  and from a user's current count exactly as many of that user's requests are let through as
  there is room.
\<close>

theorem private_quota_exact:
  assumes "badger_total B kv tkv" and "counters_wf (kv db)" and "MaxPrivateGenealogiesPerUser limits \<noteq> 0"
    and "\<forall>sub. counter_at (kv db) (userPrivateGenCountKey sub) \<le> MaxPrivateGenealogiesPerUser limits"
  shows "(\<forall>sub. counter_at (kv (snd (create_privates B limits subs db))) (userPrivateGenCountKey sub)
      \<le> MaxPrivateGenealogiesPerUser limits) \<and>
    fst (create_privates B limits (replicate n sub) db) =
      map (\<lambda>i. unat (counter_at (kv db) (userPrivateGenCountKey sub)) + i < unat (MaxPrivateGenealogiesPerUser limits)) [0..<n]"
  using badger_total.create_privates_quota [OF assms] .

theorem private_quota_exact_witness:
  "fst (create_privates mem_badger Default (replicate 7 ''ann'') []) = [True, True, True, True, True, False, False]"
proof -
  have "counters_wf (map_of ([] :: memdb))" by (simp add: counters_wf_empty)
  then have "fst (create_privates mem_badger Default (replicate 7 ''ann'') []) =
      map (\<lambda>i. unat (counter_at (map_of []) (userPrivateGenCountKey ''ann'')) + i
        < unat (MaxPrivateGenealogiesPerUser Default)) [0..<7]"
    by (intro conjunct2 [OF private_quota_exact [OF mem.badger_total_axioms]])
       (simp_all add: Default_def counter_at_def counter_of_def)
  also have "\<dots> = [True, True, True, True, True, False, False]" by code_simp
  finally show ?thesis .
qed

end
