(* ===== verification/Authz.thy ===== *)
theory Authz
  imports Platform_Laws
begin

text \<open>
  The authorization resolver (package \<open>internal/authz\<close>): the per-request decision from
  explicit membership and genealogy visibility, and the cache of decisions with a time to live.
  Times and durations are nanoseconds; the two readings of \<open>time.Now()\<close> in one call of
  \<open>Resolve\<close> (when the cache is read and when it is written) are arguments.

  \<open>granted\<close> is the access rule as a function of the stored records alone. The lemmas show
  that \<open>Resolve\<close> computes it when no call fails, never exceeds it when calls fail, that the
  cache is transparent as long as it is coherent with the store, and that an entry is not
  served after its time to live.
\<close>

section \<open>Decisions\<close>

record Decision =
  d_GenealogyID :: string
  d_Role :: Role
  d_Implicit :: bool

definition Decision_zero :: Decision where
  "Decision_zero = \<lparr>d_GenealogyID = [], d_Role = 0, d_Implicit = False\<rparr>"

text \<open>
  \<open>WithDecision\<close> and \<open>DecisionOf\<close>: the part of a request context under this
  package's private key.
\<close>

definition WithDecision :: "Decision option \<Rightarrow> Decision \<Rightarrow> Decision option" where
  "WithDecision ctx d = Some d"

definition DecisionOf :: "Decision option \<Rightarrow> Decision" where
  "DecisionOf ctx = (case ctx of Some d \<Rightarrow> d | None \<Rightarrow> Decision_zero)"

definition implicitRole :: "Visibility \<Rightarrow> bool \<Rightarrow> Role" where
  "implicitRole v authenticated =
     (if v = VisibilityPublic then (if authenticated then RoleContributor else RoleViewer)
      else if v = VisibilityUnlisted then (if authenticated then RoleContributor else RoleNone)
      else if v = VisibilityPrivate then RoleNone
      else RoleNone)"

definition resolveLocked :: "('db, 'tx) badger \<Rightarrow> string \<Rightarrow> Genealogy \<Rightarrow> 'db \<Rightarrow> err + Decision" where
  "resolveLocked B subject g db =
     (let implicit =
        (let role = implicitRole (g_Visibility g) (subject \<noteq> []) in
         if role = RoleNone then Inl ErrNotAllowed
         else Inr \<lparr>d_GenealogyID = g_ID g, d_Role = role, d_Implicit = True\<rparr>)
      in
      if subject \<noteq> [] then
        (case GetMembership B (g_ID g) subject db of
           Inr m \<Rightarrow> Inr \<lparr>d_GenealogyID = g_ID g, d_Role = m_Role m, d_Implicit = False\<rparr>
         | Inl e \<Rightarrow> if \<not> errors_Is e ErrNotFound then Inl e else implicit)
      else implicit)"

section \<open>The cache\<close>

record cacheEntry =
  ce_d :: Decision
  ce_exp :: int

record cache =
  c_ttl :: int
  c_m :: "string \<times> string \<Rightarrow> cacheEntry option"

definition newCache :: "int \<Rightarrow> cache" where
  "newCache ttl = \<lparr>c_ttl = ttl, c_m = Map.empty\<rparr>"

definition cache_get :: "int \<Rightarrow> cache \<Rightarrow> string \<Rightarrow> string \<Rightarrow> Decision option" where
  "cache_get now c sub gid =
     (case c_m c (sub, gid) of
        None \<Rightarrow> None
      | Some e \<Rightarrow> if ce_exp e < now then None else Some (ce_d e))"

definition cache_put :: "int \<Rightarrow> string \<Rightarrow> string \<Rightarrow> Decision \<Rightarrow> cache \<Rightarrow> cache" where
  "cache_put now sub gid d c =
     c\<lparr>c_m := (c_m c)((sub, gid) \<mapsto> \<lparr>ce_d = d, ce_exp = now + c_ttl c\<rparr>)\<rparr>"

definition Invalidate :: "string \<Rightarrow> string \<Rightarrow> cache \<Rightarrow> cache" where
  "Invalidate sub gid c =
     c\<lparr>c_m := (\<lambda>k. if (sub = [] \<or> fst k = sub) \<and> (gid = [] \<or> snd k = gid) then None else c_m c k)\<rparr>"

section \<open>The resolver\<close>

text \<open>A duration of zero selects the default of five seconds.\<close>

definition NewResolver :: "int \<Rightarrow> cache" where
  "NewResolver cacheTTL = newCache (if cacheTTL = 0 then 5 * 10 ^ 9 else cacheTTL)"

definition Resolve ::
  "('db, 'tx) badger \<Rightarrow> int \<Rightarrow> int \<Rightarrow> string \<Rightarrow> string \<Rightarrow> cache \<Rightarrow> 'db \<Rightarrow> (err + Decision) \<times> cache" where
  "Resolve B t_get t_put subject gid c db =
     (if gid = [] then (Inl ErrNotAllowed, c)
      else
        case cache_get t_get c subject gid of
          Some d \<Rightarrow> (Inr d, c)
        | None \<Rightarrow>
            (case GetGenealogy B gid db of
               Inl e \<Rightarrow> if errors_Is e ErrNotFound then (Inl ErrNotAllowed, c) else (Inl e, c)
             | Inr g \<Rightarrow>
                 (case resolveLocked B subject g db of
                    Inl e \<Rightarrow> (Inl e, c)
                  | Inr d \<Rightarrow> (Inr d, cache_put t_put subject gid d c))))"

text \<open>
  The genealogy and the membership are read in two transactions. \<open>Resolve\<close> is a call during which nobody
  writes; here the first transaction sees \<open>db1\<close> and the second one, later, \<open>db2\<close>.
\<close>

definition Resolve_views ::
  "('db, 'tx) badger \<Rightarrow> int \<Rightarrow> int \<Rightarrow> string \<Rightarrow> string \<Rightarrow> cache \<Rightarrow> 'db \<Rightarrow> 'db \<Rightarrow> (err + Decision) \<times> cache" where
  "Resolve_views B t_get t_put subject gid c db1 db2 =
     (if gid = [] then (Inl ErrNotAllowed, c)
      else
        case cache_get t_get c subject gid of
          Some d \<Rightarrow> (Inr d, c)
        | None \<Rightarrow>
            (case GetGenealogy B gid db1 of
               Inl e \<Rightarrow> if errors_Is e ErrNotFound then (Inl ErrNotAllowed, c) else (Inl e, c)
             | Inr g \<Rightarrow>
                 (case resolveLocked B subject g db2 of
                    Inl e \<Rightarrow> (Inl e, c)
                  | Inr d \<Rightarrow> (Inr d, cache_put t_put subject gid d c))))"

lemma Resolve_views_same: "Resolve_views B t_get t_put subject gid c db db = Resolve B t_get t_put subject gid c db"
  by (simp add: Resolve_views_def Resolve_def)

section \<open>The access rule\<close>

text \<open>
  Who has which role, as a function of the contents: an explicit membership decides; without
  one the visibility does, with the rule of the README (anonymous Viewer on Public, signed-in
  Contributor on Public and Unlisted); without a genealogy nobody has access.
\<close>

definition visibility_rule :: "Visibility \<Rightarrow> bool \<Rightarrow> Role option" where
  "visibility_rule v signed_in =
     (if signed_in then (if v \<in> {VisibilityPublic, VisibilityUnlisted} then Some RoleContributor else None)
      else if v = VisibilityPublic then Some RoleViewer else None)"

definition granted :: "(string \<Rightarrow> blob option) \<Rightarrow> string \<Rightarrow> string \<Rightarrow> Decision option" where
  "granted m sub gid =
     (case gen_at m gid of
        Inl _ \<Rightarrow> None
      | Inr g \<Rightarrow>
          (case (if sub = [] then Inl ErrNotFound else mem_at m gid sub) of
             Inr r \<Rightarrow> Some \<lparr>d_GenealogyID = gid, d_Role = m_Role r, d_Implicit = False\<rparr>
           | Inl _ \<Rightarrow>
               map_option (\<lambda>role. \<lparr>d_GenealogyID = gid, d_Role = role, d_Implicit = True\<rparr>)
                 (visibility_rule (g_Visibility g) (sub \<noteq> []))))"

text \<open>The rule applied to a genealogy read from \<open>m1\<close> and a membership read from \<open>m2\<close>.\<close>

definition granted_views :: "(string \<Rightarrow> blob option) \<Rightarrow> (string \<Rightarrow> blob option) \<Rightarrow> string \<Rightarrow> string \<Rightarrow> Decision option" where
  "granted_views m1 m2 sub gid =
     (case gen_at m1 gid of
        Inl _ \<Rightarrow> None
      | Inr g \<Rightarrow>
          (case (if sub = [] then Inl ErrNotFound else mem_at m2 gid sub) of
             Inr r \<Rightarrow> Some \<lparr>d_GenealogyID = gid, d_Role = m_Role r, d_Implicit = False\<rparr>
           | Inl _ \<Rightarrow>
               map_option (\<lambda>role. \<lparr>d_GenealogyID = gid, d_Role = role, d_Implicit = True\<rparr>)
                 (visibility_rule (g_Visibility g) (sub \<noteq> []))))"

lemma granted_views_same: "granted_views m m sub gid = granted m sub gid"
  by (simp add: granted_views_def granted_def)

lemma implicitRole_rule:
  "visibility_rule v signed_in = (if implicitRole v signed_in = RoleNone then None else Some (implicitRole v signed_in))"
  by (simp add: visibility_rule_def implicitRole_def)

lemma granted_eq:
  "granted m sub gid =
     (case gen_at m gid of
        Inl _ \<Rightarrow> None
      | Inr g \<Rightarrow>
          (case (if sub = [] then Inl ErrNotFound else mem_at m gid sub) of
             Inr r \<Rightarrow> Some \<lparr>d_GenealogyID = gid, d_Role = m_Role r, d_Implicit = False\<rparr>
           | Inl _ \<Rightarrow>
               (let role = implicitRole (g_Visibility g) (sub \<noteq> []) in
                if role = RoleNone then None
                else Some \<lparr>d_GenealogyID = gid, d_Role = role, d_Implicit = True\<rparr>)))"
  by (auto simp: granted_def implicitRole_rule Let_def split: sum.splits)

text \<open>Every cached decision is what the store grants now.\<close>

definition coherent :: "(string \<Rightarrow> blob option) \<Rightarrow> cache \<Rightarrow> bool" where
  "coherent m c \<longleftrightarrow> (\<forall>sub gid e. c_m c (sub, gid) = Some e \<longrightarrow> gid \<noteq> [] \<and> granted m sub gid = Some (ce_d e))"

lemma coherent_new [simp]: "coherent m (newCache ttl)" "coherent m (NewResolver ttl)"
  by (simp_all add: coherent_def newCache_def NewResolver_def)

lemma coherent_put:
  "coherent m c \<Longrightarrow> gid \<noteq> [] \<Longrightarrow> granted m sub gid = Some d \<Longrightarrow> coherent m (cache_put now sub gid d c)"
  by (auto simp: coherent_def cache_put_def)

lemma coherent_get: "coherent m c \<Longrightarrow> cache_get now c sub gid = Some d \<Longrightarrow> granted m sub gid = Some d"
  by (auto simp: coherent_def cache_get_def split: option.splits if_splits)

text \<open>
  After a write the cache is coherent again once every pair whose grant changed has been
  invalidated.
\<close>

lemma coherent_Invalidate:
  assumes "coherent m c"
    and "\<forall>s g. granted m' s g \<noteq> granted m s g \<longrightarrow> (sub = [] \<or> s = sub) \<and> (gid = [] \<or> g = gid)"
  shows "coherent m' (Invalidate sub gid c)"
  using assms unfolding coherent_def Invalidate_def
  by (auto split: if_splits) metis+

lemma coherent_mono:
  "coherent m c \<Longrightarrow> (\<And>s g. granted m s g \<noteq> None \<Longrightarrow> granted m' s g = granted m s g) \<Longrightarrow> coherent m' c"
  by (auto simp: coherent_def)

lemma granted_no_genealogy: "m (genealogyKey gid) = None \<Longrightarrow> granted m sub gid = None"
  by (simp add: granted_eq lookup_def)

lemma granted_frame:
  assumes "m' (genealogyKey gid) = m (genealogyKey gid)"
    and "sub \<noteq> [] \<longrightarrow> m' (membershipKey gid sub) = m (membershipKey gid sub)"
  shows "granted m' sub gid = granted m sub gid"
proof -
  have "gen_at m' gid = gen_at m gid" using assms(1) by (simp add: lookup_def)
  moreover have "mem_at m' gid sub = mem_at m gid sub" if "sub \<noteq> []"
    using assms(2) that by (simp add: lookup_def)
  ultimately show ?thesis by (cases "sub = []") (simp_all add: granted_eq split: sum.splits)
qed

section \<open>Correctness\<close>

lemma wf_gen_at:
  assumes "platform_wf m" and "gen_at m gid = Inr g"
  shows "g_ID g = gid \<and> wf_genealogy g"
  using assms by (fastforce simp: platform_wf_def wf_gens_def lookup_def split: option.splits)

lemma wf_gen_cases:
  assumes "platform_wf m"
  shows "(m (genealogyKey gid) = None \<and> gen_at m gid = Inl ErrNotFound) \<or>
    (\<exists>g. m (genealogyKey gid) = Some (MarshalGenealogy g) \<and> gen_at m gid = Inr g \<and> g_ID g = gid \<and> wf_genealogy g)"
proof (cases "m (genealogyKey gid)")
  case None
  then show ?thesis by (simp add: lookup_def)
next
  case (Some b)
  with assms obtain g where "b = MarshalGenealogy g" "g_ID g = gid" "wf_genealogy g"
    unfolding platform_wf_def wf_gens_def by blast
  with Some show ?thesis by (simp add: lookup_def)
qed

lemma wf_mem_cases:
  assumes "platform_wf m" and "slash_free gid"
  shows "(m (membershipKey gid sub) = None \<and> mem_at m gid sub = Inl ErrNotFound) \<or>
    (\<exists>r. m (membershipKey gid sub) = Some (MarshalMembership r) \<and> mem_at m gid sub = Inr r \<and>
       m_GenealogyID r = gid \<and> m_Subject r = sub \<and> wf_membership r)"
proof (cases "m (membershipKey gid sub)")
  case None
  then show ?thesis by (simp add: lookup_def)
next
  case (Some b)
  then obtain r where r: "b = MarshalMembership r" "wf_membership r"
    "membershipKey gid sub = membershipKey (m_GenealogyID r) (m_Subject r)"
    using assms(1) key_prefixes(3) [of gid sub] unfolding platform_wf_def wf_mems_def by blast
  then have "m_GenealogyID r = gid \<and> m_Subject r = sub"
    using assms(2) by (auto simp: membershipKey_inject wf_membership_def)
  with Some r(1,2) show ?thesis by (simp add: lookup_def)
qed

context badger_db
begin

text \<open>Whatever fails, a freshly computed decision is one the store grants.\<close>

lemma resolveLocked_views:
  assumes "resolveLocked B sub g db = Inr d" and "gen_at m gid = Inr g" and "g_ID g = gid"
  shows "granted_views m (kv db) sub gid = Some d"
proof (cases "sub = []")
  case True
  with assms show ?thesis by (auto simp: resolveLocked_def granted_views_def implicitRole_rule Let_def split: if_splits)
next
  case False
  show ?thesis
  proof (cases "GetMembership B gid sub db")
    case (Inr r)
    then have "mem_at (kv db) gid sub = Inr r" unfolding GetMembership_def by (rule get_sound)
    with False Inr assms show ?thesis by (auto simp: resolveLocked_def granted_views_def Let_def)
  next
    case (Inl e)
    with False assms have e: "errors_Is e ErrNotFound" by (auto simp: resolveLocked_def Let_def split: if_splits)
    have "e = ErrNotFound"
    proof (rule ccontr)
      assume "e \<noteq> ErrNotFound"
      with Inl have "e = ErrJson \<or> (\<exists>b. e = ErrBadger b)"
        by (auto simp: GetMembership_def get_def View_def UnmarshalMembership_def
            split: sum.splits if_splits dest: Unmarshal_err)
      with e show False by auto
    qed
    with Inl have "kv db (membershipKey gid sub) = None"
      unfolding GetMembership_def by (intro get_absent) auto
    with Inl False assms e show ?thesis
      by (auto simp: resolveLocked_def granted_views_def implicitRole_rule lookup_def Let_def split: if_splits)
  qed
qed

lemma resolveLocked_sound:
  assumes "resolveLocked B sub g db = Inr d" and "gen_at (kv db) gid = Inr g" and "g_ID g = gid"
  shows "granted (kv db) sub gid = Some d"
  using resolveLocked_views [OF assms] by (simp add: granted_views_same)

lemma Resolve_sound:
  assumes "Resolve B t_get t_put sub gid c db = (Inr d, c')" and "platform_wf (kv db)" and "coherent (kv db) c"
  shows "granted (kv db) sub gid = Some d \<and> coherent (kv db) c'"
proof (cases "cache_get t_get c sub gid")
  case (Some d')
  with assms show ?thesis by (auto simp: Resolve_def split: if_splits dest: coherent_get)
next
  case None
  from assms(1) None obtain g where gid: "gid \<noteq> []" and g: "GetGenealogy B gid db = Inr g"
    and d: "resolveLocked B sub g db = Inr d" and c': "c' = cache_put t_put sub gid d c"
    by (auto simp: Resolve_def split: if_splits sum.splits)
  from g have "gen_at (kv db) gid = Inr g" unfolding GetGenealogy_def by (rule get_sound)
  moreover from this have "g_ID g = gid" using wf_gen_at [OF assms(2)] by blast
  ultimately have "granted (kv db) sub gid = Some d" by (rule resolveLocked_sound [OF d])
  with c' gid assms(3) show ?thesis by (simp add: coherent_put)
qed

lemma Resolve_coherent:
  assumes "Resolve B t_get t_put sub gid c db = (r, c')" and "platform_wf (kv db)" and "coherent (kv db) c"
  shows "coherent (kv db) c'"
proof (cases r)
  case (Inr d)
  with assms show ?thesis using Resolve_sound by blast
next
  case (Inl e)
  with assms have "c' = c" by (auto simp: Resolve_def split: if_splits option.splits sum.splits)
  with assms(3) show ?thesis by simp
qed

end

context badger_total
begin

lemma resolveLocked_eq:
  assumes "platform_wf (kv db)" and "gen_at (kv db) gid = Inr g"
  shows "resolveLocked B sub g db = (case granted (kv db) sub gid of Some d \<Rightarrow> Inr d | None \<Rightarrow> Inl ErrNotAllowed)"
proof -
  from wf_gen_at [OF assms] have g: "g_ID g = gid" "slash_free gid" by (auto simp: wf_genealogy_def)
  from wf_mem_cases [OF assms(1) g(2), of sub] show ?thesis
    using assms(2) g(1) by (auto simp: resolveLocked_def granted_eq Get_eqs Let_def)
qed

text \<open>The cache is transparent: with coherent entries \<open>Resolve\<close> is the access rule.\<close>

lemma Resolve_eq:
  assumes "platform_wf (kv db)" and "coherent (kv db) c" and "gid \<noteq> []"
  shows "fst (Resolve B t_get t_put sub gid c db) =
    (case granted (kv db) sub gid of Some d \<Rightarrow> Inr d | None \<Rightarrow> Inl ErrNotAllowed)"
proof (cases "cache_get t_get c sub gid")
  case (Some d)
  with assms coherent_get [OF assms(2) Some] show ?thesis by (simp add: Resolve_def)
next
  case None
  from wf_gen_cases [OF assms(1), of gid] show ?thesis
  proof (elim disjE conjE exE)
    assume "gen_at (kv db) gid = Inl ErrNotFound"
    with None assms(3) show ?thesis by (simp add: Resolve_def Get_eqs granted_eq)
  next
    fix g assume "gen_at (kv db) gid = Inr g"
    with resolveLocked_eq [OF assms(1) this, of sub] None assms(3) show ?thesis
      by (auto simp: Resolve_def Get_eqs split: option.splits)
  qed
qed

end

section \<open>Staleness\<close>

text \<open>
  \<open>h t\<close> is the contents at time \<open>t\<close>; writers need not invalidate. A decision is backed by two moments
  \<open>t1 \<le> t2\<close> when the rule grants it on the genealogy as it was at \<open>t1\<close> and the membership as it was at \<open>t2\<close>.
  Every entry of a cache is backed and expires at most one time to live, plus the time \<open>lat\<close> one call of
  \<open>Resolve\<close> takes, after its first moment.
\<close>

definition backed :: "(int \<Rightarrow> string \<Rightarrow> blob option) \<Rightarrow> int \<Rightarrow> int \<Rightarrow> string \<Rightarrow> string \<Rightarrow> Decision \<Rightarrow> bool" where
  "backed h t1 t2 sub gid d \<longleftrightarrow> t1 \<le> t2 \<and> granted_views (h t1) (h t2) sub gid = Some d"

definition dated :: "(int \<Rightarrow> string \<Rightarrow> blob option) \<Rightarrow> int \<Rightarrow> int \<Rightarrow> cache \<Rightarrow> bool" where
  "dated h lat now c \<longleftrightarrow> (\<forall>sub gid e. c_m c (sub, gid) = Some e \<longrightarrow>
     (\<exists>t1 t2. t2 \<le> now \<and> backed h t1 t2 sub gid (ce_d e) \<and> ce_exp e \<le> t1 + lat + c_ttl c))"

lemma dated_new [simp]: "dated h lat now (newCache ttl)" "dated h lat now (NewResolver ttl)"
  by (simp_all add: dated_def newCache_def NewResolver_def)

lemma dated_later: "dated h lat now c \<Longrightarrow> now \<le> now' \<Longrightarrow> dated h lat now' c"
  unfolding dated_def by (meson order_trans)

lemma dated_Invalidate: "dated h lat now c \<Longrightarrow> dated h lat now (Invalidate sub gid c)"
  by (auto simp: dated_def Invalidate_def)

lemma dated_get:
  assumes "dated h lat now c" and "cache_get now c sub gid = Some d"
  shows "\<exists>t1 t2. now - lat - c_ttl c \<le> t1 \<and> t2 \<le> now \<and> backed h t1 t2 sub gid d"
proof -
  from assms(2) obtain e where e: "c_m c (sub, gid) = Some e" "now \<le> ce_exp e" "d = ce_d e"
    by (auto simp: cache_get_def split: option.splits if_splits)
  with assms(1) obtain t1 t2 where "t2 \<le> now" "backed h t1 t2 sub gid d" "ce_exp e \<le> t1 + lat + c_ttl c"
    unfolding dated_def by blast
  with e(2) show ?thesis by (intro exI [of _ t1] exI [of _ t2]) simp
qed

lemma dated_put:
  assumes "dated h lat now c" and "backed h t1 t2 sub gid d" and "t2 \<le> now" and "now \<le> t1 + lat"
  shows "dated h lat now (cache_put now sub gid d c)"
  using assms by (fastforce simp: dated_def cache_put_def)

context badger_db
begin

text \<open>
  A decision handed out by a call that reads the genealogy at \<open>t1\<close> and the membership at \<open>t2\<close> is backed
  by moments no further back than the time to live plus the duration of a call.
\<close>

lemma Resolve_dated:
  assumes "Resolve_views B t_get t_put sub gid c db1 db2 = (Inr d, c')" and "platform_wf (kv db1)"
    and "kv db1 = h t1" and "kv db2 = h t2" and "dated h lat t_get c"
    and "t_get \<le> t1" and "t1 \<le> t2" and "t2 \<le> t_put" and "t_put \<le> t1 + lat" and "0 \<le> c_ttl c"
  shows "dated h lat t_put c' \<and>
    (\<exists>u1 u2. t_get - lat - c_ttl c \<le> u1 \<and> u2 \<le> t2 \<and> backed h u1 u2 sub gid d)"
proof (cases "cache_get t_get c sub gid")
  case (Some d')
  with assms(1) have "d' = d" "c' = c" by (auto simp: Resolve_views_def split: if_splits)
  moreover from dated_get [OF assms(5) Some] obtain u1 u2 where "t_get - lat - c_ttl c \<le> u1" "u2 \<le> t_get" "backed h u1 u2 sub gid d'"
    by blast
  moreover have "dated h lat t_put c" using assms(6-8) by (intro dated_later [OF assms(5)]) simp
  ultimately show ?thesis using assms(6,7) by (intro conjI exI [of _ u1] exI [of _ u2]) auto
next
  case None
  from assms(1) None obtain g where g: "GetGenealogy B gid db1 = Inr g"
    and d: "resolveLocked B sub g db2 = Inr d" and c': "c' = cache_put t_put sub gid d c"
    by (auto simp: Resolve_views_def split: if_splits sum.splits)
  from g have gen: "gen_at (kv db1) gid = Inr g" unfolding GetGenealogy_def by (rule get_sound)
  then have "g_ID g = gid" using wf_gen_at [OF assms(2)] by blast
  from resolveLocked_views [OF d gen this] have b: "backed h t1 t2 sub gid d"
    using assms(3,4,7) by (simp add: backed_def)
  then have "dated h lat t_put c'"
    unfolding c' using assms(6-9) by (intro dated_put dated_later [OF assms(5)]) auto
  with b show ?thesis using assms(6-10) by (intro conjI exI [of _ t1] exI [of _ t2]) auto
qed

end

section \<open>Properties\<close>

text \<open>
  C4: the cache is transparent. With a cache whose entries agree with the store, \<open>Resolve\<close>
  returns exactly the decision of the access rule on the stored records, or
  \<open>ErrNotAllowed\<close> when the rule denies access, and leaves such a cache behind.
\<close>

theorem Resolve_is_access_rule:
  assumes "badger_total B kv tkv" and "platform_wf (kv db)" and "coherent (kv db) c" and "gid \<noteq> []"
  shows "fst (Resolve B t_get t_put sub gid c db) =
      (case granted (kv db) sub gid of Some d \<Rightarrow> Inr d | None \<Rightarrow> Inl ErrNotAllowed) \<and>
    coherent (kv db) (snd (Resolve B t_get t_put sub gid c db))"
  using badger_total.Resolve_eq [OF assms]
    badger_db.Resolve_coherent [OF badger_total.axioms(1) [OF assms(1)] surjective_pairing assms(2,3)] by simp

definition sim_public :: memdb where
  "sim_public = [(genealogyKey ''g1'', MarshalGenealogy
     \<lparr>g_ID = ''g1'', g_Name = ''Smith'', g_Visibility = VisibilityPublic, g_CreatedBy = ''ann'', g_CreatedAt = 7\<rparr>)]"

lemma sim_public_wf: "platform_wf (map_of sim_public)"
  using platform_wf_genealogy [OF platform_wf_empty,
      of "\<lparr>g_ID = ''g1'', g_Name = ''Smith'', g_Visibility = VisibilityPublic, g_CreatedBy = ''ann'', g_CreatedAt = 7\<rparr>"]
  by (simp add: sim_public_def wf_genealogy_def slash_free_def Visibility_IsValid_def)

theorem Resolve_is_access_rule_witness:
  "fst (Resolve mem_badger 3 4 ''bob'' ''g1'' (NewResolver 0) sim_public) =
     Inr \<lparr>d_GenealogyID = ''g1'', d_Role = RoleContributor, d_Implicit = True\<rparr> \<and>
   fst (Resolve mem_badger 3 4 [] ''g1'' (NewResolver 0) sim_public) =
     Inr \<lparr>d_GenealogyID = ''g1'', d_Role = RoleViewer, d_Implicit = True\<rparr>"
  using Resolve_is_access_rule [OF mem.badger_total_axioms sim_public_wf coherent_new(2), of "''g1''" 3 4 "''bob''"]
    Resolve_is_access_rule [OF mem.badger_total_axioms sim_public_wf coherent_new(2), of "''g1''" 3 4 "[]"]
  by (simp add: granted_def lookup_def sim_public_def visibility_rule_def)

lemma sim_public_resolve:
  "Resolve mem_badger 3 4 ''bob'' ''g1'' (NewResolver 0) sim_public =
     (Inr \<lparr>d_GenealogyID = ''g1'', d_Role = RoleContributor, d_Implicit = True\<rparr>,
      cache_put 4 ''bob'' ''g1'' \<lparr>d_GenealogyID = ''g1'', d_Role = RoleContributor, d_Implicit = True\<rparr> (NewResolver 0))"
  by (simp add: Resolve_def cache_get_def NewResolver_def newCache_def mem.Get_eqs resolveLocked_def Let_def
      lookup_def sim_public_def implicitRole_def)



text \<open>
  C11: bounded staleness without any invalidation. Let \<open>h t\<close> be the stored records at time \<open>t\<close>, changed by
  anybody at any time, also between the two transactions of one call. A call reads the genealogy at \<open>t1\<close> and
  the membership at \<open>t2\<close>, and takes at most \<open>lat\<close> from \<open>t1\<close> to its end. A decision it hands out is the one
  the access rule gives on the genealogy at some moment and the caller's membership at the same or a
  later one, both no further back than one time to live plus \<open>lat\<close>. The two moments can differ: the
  combination need not have been in force at either of them.
\<close>

theorem Resolve_bounded_staleness:
  assumes "badger_db B kv tkv" and "Resolve_views B t_get t_put sub gid c db1 db2 = (Inr d, c')"
    and "platform_wf (kv db1)" and "kv db1 = h t1" and "kv db2 = h t2" and "dated h lat t_get c"
    and "t_get \<le> t1" and "t1 \<le> t2" and "t2 \<le> t_put" and "t_put \<le> t1 + lat" and "0 \<le> c_ttl c"
  shows "dated h lat t_put c' \<and>
    (\<exists>u1 u2. t_get - lat - c_ttl c \<le> u1 \<and> u1 \<le> u2 \<and> u2 \<le> t2 \<and>
       granted_views (h u1) (h u2) sub gid = Some d)"
  using badger_db.Resolve_dated [OF assms] by (auto simp: backed_def)

text \<open>
  Bob is a Viewer of a public genealogy; between the readings it becomes private and he is removed. He
  gets the role of a Contributor, which nobody ever granted him.
\<close>

definition sim_viewer :: memdb where
  "sim_viewer = (membershipKey ''g1'' ''bob'', MarshalMembership
     \<lparr>m_Subject = ''bob'', m_GenealogyID = ''g1'', m_Role = RoleViewer, m_GrantedBy = ''ann'', m_GrantedAt = 7\<rparr>) #
   (reverseMembershipKey ''bob'' ''g1'', MarshalMembership
     \<lparr>m_Subject = ''bob'', m_GenealogyID = ''g1'', m_Role = RoleViewer, m_GrantedBy = ''ann'', m_GrantedAt = 7\<rparr>) # sim_public"

definition sim_private :: memdb where
  "sim_private = [(genealogyKey ''g1'', MarshalGenealogy
     \<lparr>g_ID = ''g1'', g_Name = ''Smith'', g_Visibility = VisibilityPrivate, g_CreatedBy = ''ann'', g_CreatedAt = 7\<rparr>)]"

definition sim_history :: "int \<Rightarrow> string \<Rightarrow> blob option" where
  "sim_history t = (if t < 4 then map_of sim_viewer else map_of sim_private)"

lemma sim_viewer_wf: "platform_wf (map_of sim_viewer)"
  using platform_wf_membership [OF sim_public_wf,
      of "\<lparr>m_Subject = ''bob'', m_GenealogyID = ''g1'', m_Role = RoleViewer, m_GrantedBy = ''ann'', m_GrantedAt = 7\<rparr>"]
  by (simp add: sim_viewer_def wf_membership_def slash_free_def Role_IsValid_def fun_upd_twist)

theorem Resolve_bounded_staleness_witness:
  "(\<exists>u1 u2. 3 - 2 - 5 * 10 ^ 9 \<le> u1 \<and> u1 \<le> u2 \<and> u2 \<le> 5 \<and> granted_views (sim_history u1) (sim_history u2) ''bob'' ''g1'' =
      Some \<lparr>d_GenealogyID = ''g1'', d_Role = RoleContributor, d_Implicit = True\<rparr>) \<and>
   granted (sim_history 3) ''bob'' ''g1'' = Some \<lparr>d_GenealogyID = ''g1'', d_Role = RoleViewer, d_Implicit = False\<rparr> \<and>
   granted (sim_history 5) ''bob'' ''g1'' = None"
proof -
  have run: "Resolve_views mem_badger 3 5 ''bob'' ''g1'' (NewResolver 0) sim_viewer sim_private =
      (Inr \<lparr>d_GenealogyID = ''g1'', d_Role = RoleContributor, d_Implicit = True\<rparr>,
       cache_put 5 ''bob'' ''g1'' \<lparr>d_GenealogyID = ''g1'', d_Role = RoleContributor, d_Implicit = True\<rparr> (NewResolver 0))"
    by (simp add: Resolve_views_def cache_get_def NewResolver_def newCache_def mem.Get_eqs resolveLocked_def Let_def
        lookup_def sim_public_def sim_viewer_def sim_private_def implicitRole_def)
  have h: "map_of sim_viewer = sim_history 3" "map_of sim_private = sim_history 5" by (simp_all add: sim_history_def)
  have g: "granted (sim_history 3) ''bob'' ''g1'' = Some \<lparr>d_GenealogyID = ''g1'', d_Role = RoleViewer, d_Implicit = False\<rparr>"
    "granted (sim_history 5) ''bob'' ''g1'' = None"
    by (simp_all add: sim_history_def granted_def lookup_def sim_public_def sim_viewer_def sim_private_def visibility_rule_def)
  from Resolve_bounded_staleness [OF mem.badger_db_axioms run sim_viewer_wf h, of 2] g show ?thesis
    by (simp add: NewResolver_def newCache_def dated_def)
qed

end
