(* ===== verification/Tenants.thy ===== *)
theory Tenants
  imports Prelude "HOL-Library.Multiset" "HOL-Library.While_Combinator"
begin

text \<open>
  The tenant manager (package \<open>internal/tenants\<close>): an LRU cache of open per-genealogy
  stores with coalesced opening. The store library and the file system are parameters
  (\<open>corefs\<close>): opening a store directory, closing a handle and removing a directory tree act
  on an abstract outside state.

  One call of \<open>Get\<close> has two critical sections with the open in between; they are the
  functions \<open>Get_enter\<close> and \<open>Get_exit\<close>, composed in \<open>Get\<close> for a call
  that runs alone and interleaved by the step relation \<open>tstep\<close> for concurrent callers.
  Go's nil map is \<^const>\<open>None\<close>: \<open>Close\<close> sets the index to it, and writing to it panics.

  The lemmas show the LRU behaviour against a specification on lists of ids, that the index and
  the list agree and stay within \<open>MaxOpen\<close>, that distinct genealogies use distinct
  directories, that no id is opened twice in parallel, and that a load that is in flight
  during \<open>Close\<close> ends in a panic.
\<close>

section \<open>Paths\<close>

text \<open>\<open>filepath.Clean\<close>: the lexical rules of the documentation, on the segments between slashes.\<close>

fun clean_segs :: "bool \<Rightarrow> string list \<Rightarrow> string list \<Rightarrow> string list" where
  "clean_segs rooted [] stack = rev stack"
| "clean_segs rooted (s # ss) stack =
     (if s = [] \<or> s = ''.'' then clean_segs rooted ss stack
      else if s = ''..'' then
        (case stack of
           [] \<Rightarrow> clean_segs rooted ss (if rooted then [] else [''..''])
         | t # ts \<Rightarrow> clean_segs rooted ss (if t = ''..'' then ''..'' # stack else ts))
      else clean_segs rooted ss (s # stack))"

fun join_segs :: "string list \<Rightarrow> string" where
  "join_segs [] = []"
| "join_segs [s] = s"
| "join_segs (s # ss) = s @ ''/'' @ join_segs ss"

definition Clean :: "string \<Rightarrow> string" where
  "Clean p =
     (if p = [] then ''.''
      else
        (let rooted = (hd p = CHR ''/'');
             out = (if rooted then ''/'' else []) @ join_segs (clean_segs rooted (Split (CHR ''/'') p) [])
         in if out = [] then ''.'' else out))"

definition filepath_Join :: "string \<Rightarrow> string \<Rightarrow> string" where
  "filepath_Join a b =
     (if a = [] \<and> b = [] then []
      else if a = [] then Clean b
      else if b = [] then Clean a
      else Clean (a @ ''/'' @ b))"

section \<open>State\<close>

record ('fs, 'h) corefs =
  OpenStore :: "string \<Rightarrow> 'fs \<Rightarrow> (err + 'h) \<times> 'fs"
  CloseStore :: "'h \<Rightarrow> 'fs \<Rightarrow> (err + unit) \<times> 'fs"
  RemoveAll :: "string \<Rightarrow> 'fs \<Rightarrow> (err + unit) \<times> 'fs"

record Config =
  cfg_Root :: string
  cfg_MaxOpen :: int

text \<open>
  A list element is named by its entry \<open>(id, store)\<close>; the front of the list is the most
  recently used. \<open>loading\<close> points to the load operation of an id by number.
\<close>

type_synonym 'h entry = "string \<times> 'h"

record 'h Manager =
  mg_cfg :: Config
  mg_cache :: "'h entry list"
  mg_index :: "(string \<Rightarrow> 'h entry option) option"
  mg_loading :: "string \<Rightarrow> nat option"
  mg_closed :: bool

definition New :: "Config \<Rightarrow> err + 'h Manager" where
  "New cfg =
     (if cfg_Root cfg = [] then Inl (ErrNew ''tenants: Config.Root is required'')
      else if cfg_MaxOpen cfg < 1 then Inl (ErrNew ''tenants: Config.MaxOpen must be >= 1'')
      else Inr \<lparr>mg_cfg = cfg, mg_cache = [], mg_index = Some Map.empty,
                mg_loading = Map.empty, mg_closed = False\<rparr>)"

section \<open>The LRU list and its index\<close>

text \<open>Reading and deleting in a nil map are allowed.\<close>

definition index_get :: "'h Manager \<Rightarrow> string \<Rightarrow> 'h entry option" where
  "index_get m k = (case mg_index m of None \<Rightarrow> None | Some ix \<Rightarrow> ix k)"

definition index_delete :: "string \<Rightarrow> 'h Manager \<Rightarrow> 'h Manager" where
  "index_delete k m = m\<lparr>mg_index := map_option (\<lambda>ix. ix(k := None)) (mg_index m)\<rparr>"

definition MoveToFront :: "'h entry \<Rightarrow> 'h entry list \<Rightarrow> 'h entry list" where
  "MoveToFront e es = (if e \<in> set es then e # remove1 e es else es)"

text \<open>The loop of \<open>evictLocked\<close>; the error of closing an evicted store is dropped.\<close>

function evictLocked :: "('fs, 'h) corefs \<Rightarrow> 'h Manager \<Rightarrow> 'fs \<Rightarrow> 'h Manager \<times> 'fs" where
  "evictLocked C m fs =
     (if cfg_MaxOpen (mg_cfg m) < int (length (mg_cache m)) \<and> mg_cache m \<noteq> [] then
        (let e = last (mg_cache m) in
         evictLocked C (index_delete (fst e) (m\<lparr>mg_cache := butlast (mg_cache m)\<rparr>))
           (snd (CloseStore C (snd e) fs)))
      else (m, fs))"
  by pat_completeness auto
termination
  by (relation "measure (\<lambda>(C, m, fs). length (mg_cache m))") (auto simp: index_delete_def)

declare evictLocked.simps [simp del]

definition installLocked ::
  "('fs, 'h) corefs \<Rightarrow> string \<Rightarrow> 'h \<Rightarrow> 'h Manager \<Rightarrow> 'fs \<Rightarrow> ('h Manager \<times> 'fs) outcome" where
  "installLocked C k st m fs =
     (case index_get m k of
        Some e \<Rightarrow>
          Ret (m\<lparr>mg_cache := MoveToFront e (mg_cache m)\<rparr>, snd (CloseStore C st fs))
      | None \<Rightarrow>
          (let m1 = m\<lparr>mg_cache := (k, st) # mg_cache m\<rparr> in
           case mg_index m1 of
             None \<Rightarrow> Panic
           | Some ix \<Rightarrow> Ret (evictLocked C (m1\<lparr>mg_index := Some (ix(k \<mapsto> (k, st)))\<rparr>) fs)))"

section \<open>Operations\<close>

definition openLocked :: "('fs, 'h) corefs \<Rightarrow> string \<Rightarrow> 'h Manager \<Rightarrow> 'fs \<Rightarrow> (err + 'h) \<times> 'fs" where
  "openLocked C k m fs =
     (case OpenStore C (filepath_Join (cfg_Root (mg_cfg m)) k) fs of
        (Inl e, fs') \<Rightarrow> (Inl (Wrap (''tenants: open '' @ k) e), fs')
      | (Inr st, fs') \<Rightarrow> (Inr st, fs'))"

text \<open>What the first critical section of \<open>Get\<close> decides: return, wait for a load, or load.\<close>

datatype 'h entered = EReturn "err + 'h" | EWait nat | ELoad

definition Get_enter :: "nat \<Rightarrow> string \<Rightarrow> 'h Manager \<Rightarrow> 'h entered \<times> 'h Manager" where
  "Get_enter op k m =
     (if k = [] then (EReturn (Inl (ErrNew ''tenants: id is required'')), m)
      else if mg_closed m then (EReturn (Inl ErrShutdown), m)
      else
        (case index_get m k of
           Some e \<Rightarrow> (EReturn (Inr (snd e)), m\<lparr>mg_cache := MoveToFront e (mg_cache m)\<rparr>)
         | None \<Rightarrow>
             (case mg_loading m k of
                Some op' \<Rightarrow> (EWait op', m)
              | None \<Rightarrow> (ELoad, m\<lparr>mg_loading := (mg_loading m)(k \<mapsto> op)\<rparr>))))"

definition Get_exit ::
  "('fs, 'h) corefs \<Rightarrow> string \<Rightarrow> err + 'h \<Rightarrow> 'h Manager \<Rightarrow> 'fs \<Rightarrow> ('h Manager \<times> 'fs) outcome" where
  "Get_exit C k r m fs =
     (let m1 = m\<lparr>mg_loading := (mg_loading m)(k := None)\<rparr> in
      case r of
        Inl _ \<Rightarrow> Ret (m1, fs)
      | Inr st \<Rightarrow> installLocked C k st m1 fs)"

text \<open>
  A call of \<open>Get\<close> with no other call in flight. Waiting for a load cannot happen then;
  the branch stands for a call that never returns.
\<close>

definition Get ::
  "('fs, 'h) corefs \<Rightarrow> string \<Rightarrow> 'h Manager \<Rightarrow> 'fs \<Rightarrow> ((err + 'h) \<times> 'h Manager \<times> 'fs) outcome option" where
  "Get C k m fs =
     (case Get_enter 0 k m of
        (EReturn r, m1) \<Rightarrow> Some (Ret (r, m1, fs))
      | (EWait _, m1) \<Rightarrow> None
      | (ELoad, m1) \<Rightarrow>
          (case openLocked C k m1 fs of
             (r, fs1) \<Rightarrow>
               (case Get_exit C k r m1 fs1 of
                  Panic \<Rightarrow> Some Panic
                | Ret (m2, fs2) \<Rightarrow> Some (Ret (r, m2, fs2)))))"

definition Drop :: "('fs, 'h) corefs \<Rightarrow> string \<Rightarrow> 'h Manager \<Rightarrow> 'fs \<Rightarrow> (err + unit) \<times> 'h Manager \<times> 'fs" where
  "Drop C k m fs =
     (case index_get m k of
        None \<Rightarrow> (nil_err, m, fs)
      | Some e \<Rightarrow>
          (let m1 = index_delete k (m\<lparr>mg_cache := remove1 e (mg_cache m)\<rparr>) in
           case CloseStore C (snd e) fs of (r, fs') \<Rightarrow> (r, m1, fs')))"

definition RemoveOnDisk :: "('fs, 'h) corefs \<Rightarrow> string \<Rightarrow> 'h Manager \<Rightarrow> 'fs \<Rightarrow> (err + unit) \<times> 'fs" where
  "RemoveOnDisk C k m fs = RemoveAll C (filepath_Join (cfg_Root (mg_cfg m)) k) fs"

fun close_all :: "('fs, 'h) corefs \<Rightarrow> 'h entry list \<Rightarrow> err + unit \<Rightarrow> 'fs \<Rightarrow> (err + unit) \<times> 'fs" where
  "close_all C [] firstErr fs = (firstErr, fs)"
| "close_all C (e # es) firstErr fs =
     (case CloseStore C (snd e) fs of
        (r, fs') \<Rightarrow> close_all C es (if firstErr = nil_err then r else firstErr) fs')"

definition Close :: "('fs, 'h) corefs \<Rightarrow> 'h Manager \<Rightarrow> 'fs \<Rightarrow> (err + unit) \<times> 'h Manager \<times> 'fs" where
  "Close C m fs =
     (if mg_closed m then (nil_err, m, fs)
      else
        (case close_all C (mg_cache m) nil_err fs of
           (r, fs') \<Rightarrow> (r, m\<lparr>mg_closed := True, mg_cache := [], mg_index := None\<rparr>, fs')))"

definition Len :: "'h Manager \<Rightarrow> nat" where
  "Len m = length (mg_cache m)"

section \<open>Concurrent callers\<close>

text \<open>
  Where a caller is: before a call, loading an id (after its first critical section), with an
  open result in hand (before the second), waiting for another caller's load, or back with a
  result. \<open>ops\<close> holds the result of each load operation once its channel is closed.
\<close>

datatype 'h pc =
    Idle
  | Loading string nat
  | Opened string nat "err + 'h"
  | Waiting nat
  | Done "err + 'h"

record ('fs, 'h) tsys =
  ts_mgr :: "'h Manager"
  ts_fs :: 'fs
  ts_next :: nat
  ts_ops :: "nat \<Rightarrow> (err + 'h) option"
  ts_pc :: "nat \<Rightarrow> 'h pc"
  ts_crashed :: bool

definition enter_pc :: "string \<Rightarrow> nat \<Rightarrow> 'h entered \<Rightarrow> 'h pc" where
  "enter_pc k op r = (case r of EReturn x \<Rightarrow> Done x | EWait op' \<Rightarrow> Waiting op' | ELoad \<Rightarrow> Loading k op)"

inductive tstep :: "('fs, 'h) corefs \<Rightarrow> ('fs, 'h) tsys \<Rightarrow> ('fs, 'h) tsys \<Rightarrow> bool" for C where
  enter: "ts_pc s t = Idle \<Longrightarrow> \<not> ts_crashed s \<Longrightarrow> Get_enter (ts_next s) k (ts_mgr s) = (r, m') \<Longrightarrow>
     tstep C s (s\<lparr>ts_mgr := m', ts_next := Suc (ts_next s),
                  ts_pc := (ts_pc s)(t := enter_pc k (ts_next s) r)\<rparr>)"
| opened: "ts_pc s t = Loading k op \<Longrightarrow> \<not> ts_crashed s \<Longrightarrow> openLocked C k (ts_mgr s) (ts_fs s) = (r, fs') \<Longrightarrow>
     tstep C s (s\<lparr>ts_fs := fs', ts_pc := (ts_pc s)(t := Opened k op r)\<rparr>)"
| exit: "ts_pc s t = Opened k op r \<Longrightarrow> \<not> ts_crashed s \<Longrightarrow>
     Get_exit C k r (ts_mgr s) (ts_fs s) = Ret (m', fs') \<Longrightarrow>
     tstep C s (s\<lparr>ts_mgr := m', ts_fs := fs', ts_ops := (ts_ops s)(op \<mapsto> r),
                  ts_pc := (ts_pc s)(t := Done r)\<rparr>)"
| crash: "ts_pc s t = Opened k op r \<Longrightarrow> \<not> ts_crashed s \<Longrightarrow>
     Get_exit C k r (ts_mgr s) (ts_fs s) = Panic \<Longrightarrow>
     tstep C s (s\<lparr>ts_crashed := True\<rparr>)"
| woken: "ts_pc s t = Waiting op \<Longrightarrow> \<not> ts_crashed s \<Longrightarrow> ts_ops s op = Some r \<Longrightarrow>
     tstep C s (s\<lparr>ts_pc := (ts_pc s)(t := Done r)\<rparr>)"
| again: "ts_pc s t = Done r \<Longrightarrow> tstep C s (s\<lparr>ts_pc := (ts_pc s)(t := Idle)\<rparr>)"
| drop: "\<not> ts_crashed s \<Longrightarrow> Drop C k (ts_mgr s) (ts_fs s) = (r, m', fs') \<Longrightarrow>
     tstep C s (s\<lparr>ts_mgr := m', ts_fs := fs'\<rparr>)"
| close: "\<not> ts_crashed s \<Longrightarrow> Close C (ts_mgr s) (ts_fs s) = (r, m', fs') \<Longrightarrow>
     tstep C s (s\<lparr>ts_mgr := m', ts_fs := fs'\<rparr>)"

definition tinit :: "'h Manager \<Rightarrow> 'fs \<Rightarrow> ('fs, 'h) tsys" where
  "tinit m fs = \<lparr>ts_mgr = m, ts_fs = fs, ts_next = 0, ts_ops = Map.empty, ts_pc = (\<lambda>_. Idle), ts_crashed = False\<rparr>"

inductive treach :: "('fs, 'h) corefs \<Rightarrow> Config \<Rightarrow> ('fs, 'h) tsys \<Rightarrow> bool" for C cfg where
  init: "New cfg = Inr m \<Longrightarrow> treach C cfg (tinit m fs)"
| step: "treach C cfg s \<Longrightarrow> tstep C s s' \<Longrightarrow> treach C cfg s'"


section \<open>Paths\<close>

text \<open>A path segment that \<open>Clean\<close> keeps as it is.\<close>

definition plain_seg :: "string \<Rightarrow> bool" where
  "plain_seg s \<longleftrightarrow> s \<noteq> [] \<and> s \<noteq> ''.'' \<and> s \<noteq> ''..'' \<and> CHR ''/'' \<notin> set s"

lemma Split_append_sep: "Split c (a @ c # b) = Split c a @ Split c b"
  by (induction a) (auto split: list.splits)

lemma Split_no_sep: "c \<notin> set s \<Longrightarrow> Split c s = [s]"
  by (induction s) auto

lemma clean_segs_snoc:
  "plain_seg s \<Longrightarrow> clean_segs r (ss @ [s]) st = clean_segs r ss st @ [s]"
  by (induction r ss st rule: clean_segs.induct) (auto simp: plain_seg_def split: list.splits)

lemma join_segs_snoc: "join_segs (ss @ [s]) = (if ss = [] then s else join_segs ss @ ''/'' @ s)"
  by (induction ss rule: join_segs.induct) auto

lemma join_segs_inject: "join_segs (ss @ [s]) = join_segs (ss @ [t]) \<longleftrightarrow> s = t"
  by (simp add: join_segs_snoc)

text \<open>Different plain ids live in different directories under one root.\<close>

lemma filepath_Join_inject:
  assumes "root \<noteq> []" and "plain_seg a" and "plain_seg b"
  shows "filepath_Join root a = filepath_Join root b \<longleftrightarrow> a = b"
proof -
  let ?r = "hd root = CHR ''/''"
  let ?segs = "clean_segs ?r (Split (CHR ''/'') root) []"
  have join: "filepath_Join root s = (if ?r then ''/'' else []) @ join_segs (?segs @ [s])" if "plain_seg s" for s
  proof -
    have "clean_segs ?r (Split (CHR ''/'') (root @ ''/'' @ s)) [] = ?segs @ [s]"
      using that clean_segs_snoc [OF that, of ?r "Split (CHR ''/'') root" "[]"]
      by (simp add: Split_append_sep Split_no_sep plain_seg_def)
    moreover have "join_segs (?segs @ [s]) \<noteq> []" using that by (simp add: join_segs_snoc plain_seg_def)
    ultimately show ?thesis
      using assms(1) that by (simp add: filepath_Join_def Clean_def Let_def plain_seg_def hd_append)
  qed
  show ?thesis by (simp add: join assms(2,3) join_segs_inject)
qed

section \<open>Eviction\<close>

lemma index_delete_simps [simp]:
  "mg_cfg (index_delete k m) = mg_cfg m" "mg_cache (index_delete k m) = mg_cache m"
  "mg_loading (index_delete k m) = mg_loading m" "mg_closed (index_delete k m) = mg_closed m"
  "mg_index (index_delete k m) = map_option (\<lambda>ix. ix(k := None)) (mg_index m)"
  by (simp_all add: index_delete_def)

lemma evictLocked_frame:
  "mg_cfg (fst (evictLocked C m fs)) = mg_cfg m"
  "mg_loading (fst (evictLocked C m fs)) = mg_loading m"
  "mg_closed (fst (evictLocked C m fs)) = mg_closed m"
  by (induction C m fs rule: evictLocked.induct; subst evictLocked.simps; simp add: Let_def)+

text \<open>Evicting keeps the most recently used \<open>MaxOpen\<close> entries and closes the rest, oldest first.\<close>

lemma evictLocked_all:
  "0 \<le> cfg_MaxOpen (mg_cfg m) \<Longrightarrow> n = nat (cfg_MaxOpen (mg_cfg m)) \<Longrightarrow>
   mg_cache (fst (evictLocked C m fs)) = take n (mg_cache m) \<and>
   snd (evictLocked C m fs) = fold (\<lambda>e fs. snd (CloseStore C (snd e) fs)) (rev (drop n (mg_cache m))) fs \<and>
   mg_index (fst (evictLocked C m fs)) =
     map_option (\<lambda>ix k. if k \<in> fst ` set (drop n (mg_cache m)) then None else ix k) (mg_index m)"
proof (induction C m fs rule: evictLocked.induct)
  case (1 C m fs)
  let ?es = "mg_cache m"
  let ?m = "index_delete (fst (last ?es)) (m\<lparr>mg_cache := butlast ?es\<rparr>)"
  let ?fs = "snd (CloseStore C (snd (last ?es)) fs)"
  show ?case
  proof (cases "cfg_MaxOpen (mg_cfg m) < int (length ?es) \<and> ?es \<noteq> []")
    case False
    then have "length ?es \<le> n" using "1.prems" by (cases ?es) auto
    moreover have "evictLocked C m fs = (m, fs)" using False by (subst evictLocked.simps) (rule if_not_P)
    ultimately show ?thesis by (simp add: option.map_ident)
  next
    case True
    then have eq: "evictLocked C m fs = evictLocked C ?m ?fs" by (subst evictLocked.simps) (simp add: Let_def)
    have es: "?es = butlast ?es @ [last ?es]" using True by simp
    have len: "n \<le> length (butlast ?es)" using True "1.prems" by simp linarith
    have dr: "drop n ?es = drop n (butlast ?es) @ [last ?es]"
      using len by (subst es) (simp del: append_butlast_last_id)
    have tk: "take n ?es = take n (butlast ?es)"
      using len by (subst es) (simp del: append_butlast_last_id)
    have fn: "(\<lambda>ix k. if k \<in> fst ` set (drop n (butlast ?es)) then None else (ix(fst (last ?es) := None)) k) =
      (\<lambda>ix k. if k \<in> fst ` set (drop n ?es) then None else ix k)"
      unfolding dr by (auto simp: fun_eq_iff)
    have "mg_cache (fst (evictLocked C ?m ?fs)) = take n (butlast ?es) \<and>
      snd (evictLocked C ?m ?fs) = fold (\<lambda>e fs. snd (CloseStore C (snd e) fs)) (rev (drop n (butlast ?es))) ?fs \<and>
      mg_index (fst (evictLocked C ?m ?fs)) =
        map_option (\<lambda>ix k. if k \<in> fst ` set (drop n (butlast ?es)) then None else (ix(fst (last ?es) := None)) k) (mg_index m)"
      using "1.IH" [OF True refl] "1.prems" by (simp add: option.map_comp comp_def)
    then show ?thesis unfolding eq fn dr tk by simp
  qed
qed

lemmas evictLocked_spec = evictLocked_all [OF _ refl, THEN conjunct1]
  evictLocked_all [OF _ refl, THEN conjunct2, THEN conjunct1]
  evictLocked_all [OF _ refl, THEN conjunct2, THEN conjunct2]

section \<open>Invariant\<close>

text \<open>
  The index holds exactly the entries of the list, ids occur once, the list respects
  \<open>MaxOpen\<close>; after \<open>Close\<close> the list is empty and the index is nil.
\<close>

definition index_agrees :: "'h Manager \<Rightarrow> bool" where
  "index_agrees m \<longleftrightarrow>
     mg_index m = Some (\<lambda>k. map_option (\<lambda>st. (k, st)) (map_of (mg_cache m) k))"

definition manager_inv :: "'h Manager \<Rightarrow> bool" where
  "manager_inv m \<longleftrightarrow>
     1 \<le> cfg_MaxOpen (mg_cfg m) \<and> distinct (map fst (mg_cache m)) \<and>
     int (length (mg_cache m)) \<le> cfg_MaxOpen (mg_cfg m) \<and>
     (if mg_closed m then mg_index m = None \<and> mg_cache m = [] else index_agrees m)"

lemma manager_inv_New: "New cfg = Inr m \<Longrightarrow> manager_inv m"
  by (auto simp: New_def manager_inv_def index_agrees_def split: if_splits)

lemma mset_MoveToFront: "mset (MoveToFront e es) = mset es"
  by (simp add: MoveToFront_def)

lemma MoveToFront_simps [simp]:
  "set (MoveToFront e es) = set es" "length (MoveToFront e es) = length es"
  "distinct (map fst (MoveToFront e es)) = distinct (map fst es)"
  using mset_MoveToFront [of e es]
  by (metis set_mset_mset, metis size_mset, metis mset_map mset_eq_imp_distinct_iff)

lemma map_of_MoveToFront: "distinct (map fst es) \<Longrightarrow> map_of (MoveToFront e es) = map_of es"
  by (intro map_of_inject_set [THEN iffD2]) simp_all

lemma remove1_filter_fst:
  "distinct (map fst es) \<Longrightarrow> (k, st) \<in> set es \<Longrightarrow> remove1 (k, st) es = filter (\<lambda>e. fst e \<noteq> k) es"
proof (induction es)
  case (Cons e es)
  then show ?case by (auto simp: rev_image_eqI intro!: filter_True [symmetric])
qed simp

lemma MoveToFront_ids:
  assumes "distinct (map fst es)" and "map_of es k = Some st"
  shows "map fst (MoveToFront (k, st) es) = k # filter (\<lambda>x. x \<noteq> k) (map fst es)"
  using map_of_SomeD [OF assms(2)] remove1_filter_fst [OF assms(1), of k st]
  by (simp add: MoveToFront_def filter_map comp_def)

lemma map_of_take:
  "distinct (map fst es) \<Longrightarrow>
   map_of (take n es) k = (if k \<in> fst ` set (drop n es) then None else map_of es k)"
proof (induction es arbitrary: n)
  case (Cons e es)
  then show ?case by (cases n) (auto simp: rev_image_eqI dest: in_set_dropD
        intro!: map_of_eq_None_iff [THEN iffD2, symmetric])
qed simp

lemma index_get_inv:
  "manager_inv m \<Longrightarrow> index_get m k = map_option (\<lambda>st. (k, st)) (map_of (mg_cache m) k)"
  by (auto simp: manager_inv_def index_get_def index_agrees_def split: if_splits)

lemma manager_inv_hit:
  assumes "manager_inv m" and "index_get m k = Some e"
  shows "manager_inv (m\<lparr>mg_cache := MoveToFront e (mg_cache m)\<rparr>)"
  using assms
  by (auto simp: manager_inv_def index_get_def index_agrees_def map_of_MoveToFront split: if_splits)

text \<open>Installing a store for an id that is not cached: the id moves to the front, the list is cut.\<close>

lemma installLocked_fresh:
  assumes inv: "manager_inv m" and open_m: "\<not> mg_closed m" and new: "map_of (mg_cache m) k = None"
  defines "n \<equiv> nat (cfg_MaxOpen (mg_cfg m))"
  shows "\<exists>m' fs'. installLocked C k st m fs = Ret (m', fs') \<and> manager_inv m' \<and>
    mg_cache m' = take n ((k, st) # mg_cache m) \<and> mg_cfg m' = mg_cfg m \<and>
    mg_loading m' = mg_loading m \<and> mg_closed m' = mg_closed m \<and>
    fs' = fold (\<lambda>e fs. snd (CloseStore C (snd e) fs)) (rev (drop n ((k, st) # mg_cache m))) fs"
proof -
  let ?es = "(k, st) # mg_cache m"
  let ?ix = "\<lambda>k'. map_option (\<lambda>s. (k', s)) (map_of (mg_cache m) k')"
  let ?m1 = "m\<lparr>mg_cache := ?es, mg_index := Some (?ix(k \<mapsto> (k, st)))\<rparr>"
  have ix: "mg_index m = Some ?ix" using inv open_m by (simp add: manager_inv_def index_agrees_def)
  have "index_get m k = None" using index_get_inv [OF inv] new by simp
  then have run: "installLocked C k st m fs = Ret (evictLocked C ?m1 fs)"
    using ix by (simp add: installLocked_def Let_def)
  have max: "0 \<le> cfg_MaxOpen (mg_cfg ?m1)" and n1: "1 \<le> n" using inv by (auto simp: manager_inv_def n_def)
  note spec = evictLocked_all [OF max refl, of C fs]
  have dist: "distinct (map fst ?es)"
    using inv new by (auto simp: manager_inv_def map_of_eq_None_iff)
  note cut = map_of_take [OF dist, of n]
  have idx: "mg_index (fst (evictLocked C ?m1 fs)) =
      Some (\<lambda>k'. map_option (\<lambda>s. (k', s)) (map_of (take n ?es) k'))"
    using spec cut by (auto simp: n_def fun_eq_iff)
  have "manager_inv (fst (evictLocked C ?m1 fs))"
    using spec idx inv open_m dist n1
    by (auto simp: manager_inv_def index_agrees_def evictLocked_frame n_def distinct_map take_map [symmetric]
        simp del: take_Cons' intro: distinct_take)
  moreover obtain m' fs' where ev: "evictLocked C ?m1 fs = (m', fs')" by (cases "evictLocked C ?m1 fs")
  ultimately show ?thesis
    using run spec evictLocked_frame [of C ?m1 fs] by (simp add: n_def)
qed

text \<open>Every operation keeps the invariant.\<close>

lemma Get_enter_inv: "manager_inv m \<Longrightarrow> Get_enter op k m = (r, m') \<Longrightarrow> manager_inv m'"
  using manager_inv_hit [of m k]
  by (auto simp: Get_enter_def split: if_splits option.splits)
     (auto simp: manager_inv_def index_agrees_def)

lemma Drop_inv:
  assumes inv: "manager_inv m" and run: "Drop C k m fs = (r, m', fs')"
  shows "manager_inv m' \<and> mg_cache m' = filter (\<lambda>e. fst e \<noteq> k) (mg_cache m) \<and>
    mg_loading m' = mg_loading m \<and> mg_closed m' = mg_closed m \<and> mg_cfg m' = mg_cfg m"
proof (cases "map_of (mg_cache m) k")
  case None
  then have "index_get m k = None" by (simp add: index_get_inv [OF inv])
  moreover from None have "filter (\<lambda>e. fst e \<noteq> k) (mg_cache m) = mg_cache m"
    by (intro filter_True) (auto simp: map_of_eq_None_iff)
  ultimately show ?thesis using inv run by (simp add: Drop_def)
next
  case (Some st)
  then have ix: "index_get m k = Some (k, st)" by (simp add: index_get_inv [OF inv])
  have dist: "distinct (map fst (mg_cache m))" and op: "\<not> mg_closed m"
    using inv Some by (auto simp: manager_inv_def split: if_splits)
  have rm: "remove1 (k, st) (mg_cache m) = filter (\<lambda>e. fst e \<noteq> k) (mg_cache m)"
    using dist map_of_SomeD [OF Some] by (rule remove1_filter_fst)
  have fil: "map_of (filter (\<lambda>e. fst e \<noteq> k) es) k' = (if k' = k then None else map_of es k')" for es k'
    by (induction es) auto
  have len: "length (filter (\<lambda>e. fst e \<noteq> k) (mg_cache m)) \<le> length (mg_cache m)" by simp
  have m': "m' = index_delete k (m\<lparr>mg_cache := filter (\<lambda>e. fst e \<noteq> k) (mg_cache m)\<rparr>)"
    using run ix rm by (auto simp: Drop_def Let_def split: prod.splits)
  show ?thesis
    using inv op dist len unfolding m'
    by (auto simp: manager_inv_def index_agrees_def distinct_map_filter fun_eq_iff fil simp del: length_filter_le)
qed

lemma Close_inv:
  assumes "manager_inv m" and "Close C m fs = (r, m', fs')"
  shows "manager_inv m' \<and> mg_closed m' \<and> mg_loading m' = mg_loading m \<and> mg_cfg m' = mg_cfg m"
  using assms by (auto simp: Close_def manager_inv_def split: if_splits prod.splits)

lemma Get_exit_inv:
  assumes inv: "manager_inv m" and free: "\<not> mg_closed m \<Longrightarrow> map_of (mg_cache m) k = None"
    and run: "Get_exit C k r m fs = Ret (m', fs')"
  shows "manager_inv m' \<and> mg_loading m' = (mg_loading m)(k := None) \<and> mg_closed m' = mg_closed m \<and>
    mg_cfg m' = mg_cfg m \<and> fst ` set (mg_cache m') \<subseteq> insert k (fst ` set (mg_cache m))"
proof (cases r)
  case (Inl e)
  with inv run show ?thesis by (auto simp: Get_exit_def Let_def manager_inv_def index_agrees_def)
next
  case (Inr st)
  let ?m = "m\<lparr>mg_loading := (mg_loading m)(k := None)\<rparr>"
  have inv': "manager_inv ?m" using inv by (auto simp: manager_inv_def index_agrees_def)
  have run': "installLocked C k st ?m fs = Ret (m', fs')" using run Inr by (simp add: Get_exit_def Let_def)
  have op: "\<not> mg_closed ?m"
  proof
    assume "mg_closed ?m"
    with inv' have "mg_index ?m = None" by (simp add: manager_inv_def)
    with run' show False by (simp add: installLocked_def index_get_def Let_def)
  qed
  have "map_of (mg_cache ?m) k = None" using free op by simp
  from installLocked_fresh [OF inv' op this, of C st fs] run'
  have m': "manager_inv m' \<and> mg_cache m' = take (nat (cfg_MaxOpen (mg_cfg m))) ((k, st) # mg_cache m) \<and>
      mg_loading m' = (mg_loading m)(k := None) \<and> mg_closed m' = mg_closed m \<and> mg_cfg m' = mg_cfg m"
    by auto
  moreover from m' have "fst ` set (mg_cache m') \<subseteq> fst ` set ((k, st) # mg_cache m)"
    by (metis image_mono set_take_subset)
  ultimately show ?thesis by simp
qed

lemma Get_exit_Panic_iff:
  assumes "manager_inv m"
  shows "Get_exit C k r m fs = Panic \<longleftrightarrow> mg_closed m \<and> (\<exists>st. r = Inr st)"
  using assms
  by (auto simp: Get_exit_def installLocked_def index_get_def manager_inv_def index_agrees_def Let_def
      split: sum.splits option.splits if_splits)

section \<open>A call that runs alone\<close>

text \<open>The specification: ids in order of use, at most \<open>n\<close> of them.\<close>

definition lru_use :: "nat \<Rightarrow> string \<Rightarrow> string list \<Rightarrow> string list" where
  "lru_use n k ids = take n (k # filter (\<lambda>x. x \<noteq> k) ids)"

lemma Get_spec:
  assumes inv: "manager_inv m" and alone: "mg_loading m = Map.empty" and op: "\<not> mg_closed m" and k: "k \<noteq> []"
    and opens: "\<And>fs. \<exists>st fs'. openLocked C k m fs = (Inr st, fs')"
  shows "\<exists>st m' fs'. Get C k m fs = Some (Ret (Inr st, m', fs')) \<and> manager_inv m' \<and>
    mg_loading m' = Map.empty \<and> \<not> mg_closed m' \<and> mg_cfg m' = mg_cfg m \<and> map_of (mg_cache m') k = Some st \<and>
    map fst (mg_cache m') = lru_use (nat (cfg_MaxOpen (mg_cfg m))) k (map fst (mg_cache m))"
proof -
  let ?n = "nat (cfg_MaxOpen (mg_cfg m))"
  have dist: "distinct (map fst (mg_cache m))" and len: "length (mg_cache m) \<le> ?n" and n1: "1 \<le> ?n"
    using inv by (auto simp: manager_inv_def)
  show ?thesis
  proof (cases "map_of (mg_cache m) k")
    case (Some st)
    let ?m = "m\<lparr>mg_cache := MoveToFront (k, st) (mg_cache m)\<rparr>"
    have ix: "index_get m k = Some (k, st)" using Some by (simp add: index_get_inv [OF inv])
    then have run: "Get C k m fs = Some (Ret (Inr st, ?m, fs))"
      using k op by (simp add: Get_def Get_enter_def)
    have "manager_inv ?m" using inv ix by (rule manager_inv_hit)
    moreover have "map fst (mg_cache ?m) = lru_use ?n k (map fst (mg_cache m))"
    proof -
      have "length (k # filter (\<lambda>x. x \<noteq> k) (map fst (mg_cache m))) = length (mg_cache m)"
        using MoveToFront_ids [OF dist Some] MoveToFront_simps(2) by (metis length_map)
      with len show ?thesis using MoveToFront_ids [OF dist Some] by (simp add: lru_use_def)
    qed
    moreover have "map_of (mg_cache ?m) k = Some st" using Some dist by (simp add: map_of_MoveToFront)
    ultimately show ?thesis using run alone op by (intro exI [of _ st] exI [of _ ?m] exI [of _ fs]) simp
  next
    case None
    let ?m1 = "m\<lparr>mg_loading := (mg_loading m)(k \<mapsto> 0)\<rparr>"
    let ?m2 = "?m1\<lparr>mg_loading := (mg_loading ?m1)(k := None)\<rparr>"
    have ix: "index_get m k = None" using None by (simp add: index_get_inv [OF inv])
    obtain st fs1 where o: "openLocked C k ?m1 fs = (Inr st, fs1)"
      using opens [of fs] by (auto simp: openLocked_def)
    have inv2: "manager_inv ?m2" using inv by (auto simp: manager_inv_def index_agrees_def)
    obtain m' fs' where i: "installLocked C k st ?m2 fs1 = Ret (m', fs')" "manager_inv m'"
      "mg_cache m' = take ?n ((k, st) # mg_cache m)" "mg_loading m' = mg_loading ?m2" "mg_closed m' = mg_closed m" "mg_cfg m' = mg_cfg m"
      using installLocked_fresh [OF inv2, of k C st fs1] None op by auto
    have run: "Get C k m fs = Some (Ret (Inr st, m', fs'))"
      using k op alone ix o i(1) by (simp add: Get_def Get_enter_def Get_exit_def Let_def)
    have "filter (\<lambda>x. x \<noteq> k) (map fst (mg_cache m)) = map fst (mg_cache m)"
      using None by (intro filter_True) (auto simp: map_of_eq_None_iff)
    with i(3) have "map fst (mg_cache m') = lru_use ?n k (map fst (mg_cache m))"
      by (simp add: lru_use_def take_map [symmetric])
    moreover have "map_of (mg_cache m') k = Some st" using i(3) n1 by (cases ?n) auto
    ultimately show ?thesis using run i alone op by (intro exI [of _ st] exI [of _ m'] exI [of _ fs']) auto
  qed
qed

section \<open>Concurrent callers\<close>

definition inflight :: "'h pc \<Rightarrow> (string \<times> nat) option" where
  "inflight p = (case p of Loading k op \<Rightarrow> Some (k, op) | Opened k op r \<Rightarrow> Some (k, op) | _ \<Rightarrow> None)"

lemma inflight_simps [simp]:
  "inflight Idle = None" "inflight (Loading k op) = Some (k, op)" "inflight (Opened k op r) = Some (k, op)"
  "inflight (Waiting op) = None" "inflight (Done r) = None"
  by (simp_all add: inflight_def)

text \<open>
  The loads in flight are exactly the entries of \<open>loading\<close>, one caller each; an id being
  loaded is not cached; a waiting caller waits for a load that is in flight or finished.
\<close>

definition tinv :: "Config \<Rightarrow> ('fs, 'h) tsys \<Rightarrow> bool" where
  "tinv cfg s \<longleftrightarrow>
     manager_inv (ts_mgr s) \<and> mg_cfg (ts_mgr s) = cfg \<and>
     (\<forall>t k op. inflight (ts_pc s t) = Some (k, op) \<longrightarrow> mg_loading (ts_mgr s) k = Some op) \<and>
     (\<forall>k op. mg_loading (ts_mgr s) k = Some op \<longrightarrow> (\<exists>t. inflight (ts_pc s t) = Some (k, op))) \<and>
     (\<forall>t t' k op op'. inflight (ts_pc s t) = Some (k, op) \<and> inflight (ts_pc s t') = Some (k, op') \<longrightarrow> t = t') \<and>
     (\<forall>k op. mg_loading (ts_mgr s) k = Some op \<and> \<not> mg_closed (ts_mgr s) \<longrightarrow>
        map_of (mg_cache (ts_mgr s)) k = None) \<and>
     (\<forall>t op. ts_pc s t = Waiting op \<longrightarrow>
        ts_ops s op \<noteq> None \<or> (\<exists>t' k. inflight (ts_pc s t') = Some (k, op))) \<and>
     (ts_crashed s \<longrightarrow> mg_closed (ts_mgr s))"

lemma tinv_init: "New cfg = Inr m \<Longrightarrow> tinv cfg (tinit m fs)"
  using manager_inv_New [of cfg m] by (auto simp: tinv_def tinit_def New_def split: if_splits)

lemma Get_enter_cases:
  assumes "Get_enter op k m = (r, m')" and "manager_inv m"
  shows "(\<exists>x. r = EReturn x) \<and> set (mg_cache m') = set (mg_cache m) \<and> mg_loading m' = mg_loading m \<and>
           mg_closed m' = mg_closed m \<and> mg_cfg m' = mg_cfg m \<and> map_of (mg_cache m') = map_of (mg_cache m)
       \<or> (\<exists>op'. r = EWait op' \<and> mg_loading m k = Some op' \<and> m' = m)
       \<or> r = ELoad \<and> mg_loading m k = None \<and> map_of (mg_cache m) k = None \<and> \<not> mg_closed m \<and>
           m' = m\<lparr>mg_loading := (mg_loading m)(k \<mapsto> op)\<rparr>"
  using assms index_get_inv [OF assms(2), of k]
  by (auto simp: Get_enter_def manager_inv_def map_of_MoveToFront split: if_splits option.splits)

lemma tinv_enter:
  assumes inv: "tinv cfg s" and idle: "ts_pc s t = Idle"
    and run: "Get_enter (ts_next s) k (ts_mgr s) = (r, m')"
  shows "tinv cfg (s\<lparr>ts_mgr := m', ts_next := Suc (ts_next s),
           ts_pc := (ts_pc s)(t := enter_pc k (ts_next s) r)\<rparr>)"
proof -
  have minv: "manager_inv (ts_mgr s)" using inv by (simp add: tinv_def)
  have minv': "manager_inv m'" by (rule Get_enter_inv [OF minv run])
  from Get_enter_cases [OF run minv] show ?thesis
  proof (elim disjE conjE exE)
    fix x assume "r = EReturn x" "mg_loading m' = mg_loading (ts_mgr s)" "mg_closed m' = mg_closed (ts_mgr s)"
      "mg_cfg m' = mg_cfg (ts_mgr s)" "map_of (mg_cache m') = map_of (mg_cache (ts_mgr s))"
    with inv minv' idle show ?thesis unfolding tinv_def enter_pc_def
      by (simp, intro conjI allI impI) (metis inflight_simps(1) option.distinct(1) pc.distinct)+
  next
    fix op' assume "r = EWait op'" "mg_loading (ts_mgr s) k = Some op'" "m' = ts_mgr s"
    with inv minv' idle show ?thesis unfolding tinv_def enter_pc_def
      by (simp, intro conjI allI impI) (metis inflight_simps(1) option.distinct(1) pc.distinct)+
  next
    assume r: "r = ELoad" "mg_loading (ts_mgr s) k = None" "map_of (mg_cache (ts_mgr s)) k = None"
      "m' = ts_mgr s\<lparr>mg_loading := (mg_loading (ts_mgr s))(k \<mapsto> ts_next s)\<rparr>"
    have fresh: "inflight (ts_pc s t') \<noteq> Some (k, op)" for t' op
      using inv r(2) unfolding tinv_def by (metis option.distinct(1))
    from r fresh inv minv' idle show ?thesis unfolding tinv_def enter_pc_def
      by (simp, intro conjI allI impI) (metis inflight_simps(1) option.distinct(1) pc.distinct)+
  qed
qed

lemma tinv_opened:
  assumes "tinv cfg s" and "ts_pc s t = Loading k op"
  shows "tinv cfg (s\<lparr>ts_fs := fs', ts_pc := (ts_pc s)(t := Opened k op r)\<rparr>)"
proof -
  have "inflight (((ts_pc s)(t := Opened k op r)) t') = inflight (ts_pc s t')" for t'
    using assms(2) by simp
  moreover have "((ts_pc s)(t := Opened k op r)) t' = Waiting op' \<longleftrightarrow> ts_pc s t' = Waiting op'" for t' op'
    using assms(2) by simp
  ultimately show ?thesis using assms(1) by (simp add: tinv_def del: fun_upd_apply)
qed

lemma tinvD:
  assumes "tinv cfg s"
  shows "manager_inv (ts_mgr s)" "mg_cfg (ts_mgr s) = cfg"
    "inflight (ts_pc s t) = Some (k, op) \<Longrightarrow> mg_loading (ts_mgr s) k = Some op"
    "mg_loading (ts_mgr s) k = Some op \<Longrightarrow> \<exists>t. inflight (ts_pc s t) = Some (k, op)"
    "inflight (ts_pc s t) = Some (k, op) \<Longrightarrow> inflight (ts_pc s t') = Some (k, op') \<Longrightarrow> t = t'"
    "mg_loading (ts_mgr s) k = Some op \<Longrightarrow> \<not> mg_closed (ts_mgr s) \<Longrightarrow> map_of (mg_cache (ts_mgr s)) k = None"
    "ts_pc s t = Waiting op \<Longrightarrow> ts_ops s op \<noteq> None \<or> (\<exists>t' k. inflight (ts_pc s t') = Some (k, op))"
    "ts_crashed s \<Longrightarrow> mg_closed (ts_mgr s)"
  using assms by (simp_all add: tinv_def)

lemma tinv_upd:
  "tinv cfg (s\<lparr>ts_mgr := m, ts_fs := fs, ts_ops := ops, ts_pc := p\<rparr>) \<longleftrightarrow>
     manager_inv m \<and> mg_cfg m = cfg \<and>
     (\<forall>t k op. inflight (p t) = Some (k, op) \<longrightarrow> mg_loading m k = Some op) \<and>
     (\<forall>k op. mg_loading m k = Some op \<longrightarrow> (\<exists>t. inflight (p t) = Some (k, op))) \<and>
     (\<forall>t t' k op op'. inflight (p t) = Some (k, op) \<and> inflight (p t') = Some (k, op') \<longrightarrow> t = t') \<and>
     (\<forall>k op. mg_loading m k = Some op \<and> \<not> mg_closed m \<longrightarrow> map_of (mg_cache m) k = None) \<and>
     (\<forall>t op. p t = Waiting op \<longrightarrow> ops op \<noteq> None \<or> (\<exists>t' k. inflight (p t') = Some (k, op))) \<and>
     (ts_crashed s \<longrightarrow> mg_closed m)"
  by (simp add: tinv_def)

lemma tinv_exit:
  assumes inv: "tinv cfg s" and pc: "ts_pc s t = Opened k op r" and up: "\<not> ts_crashed s"
    and run: "Get_exit C k r (ts_mgr s) (ts_fs s) = Ret (m', fs')"
  shows "tinv cfg (s\<lparr>ts_mgr := m', ts_fs := fs', ts_ops := (ts_ops s)(op \<mapsto> r),
           ts_pc := (ts_pc s)(t := Done r)\<rparr>)"
proof -
  note D = tinvD [OF inv]
  have fl: "inflight (ts_pc s t) = Some (k, op)" using pc by simp
  note ex = Get_exit_inv [OF D(1) D(6) [OF D(3) [OF fl]] run]
  have fl': "inflight (((ts_pc s)(t := Done r)) t') = (if t' = t then None else inflight (ts_pc s t'))" for t'
    by simp
  have w': "((ts_pc s)(t := Done r)) t' = Waiting op' \<longleftrightarrow> t' \<noteq> t \<and> ts_pc s t' = Waiting op'" for t' op'
    by simp
  have other: "k' \<noteq> k" if "inflight (ts_pc s t') = Some (k', op')" "t' \<noteq> t" for t' k' op'
    using D(5) [OF fl] that by metis
  have cache: "map_of (mg_cache m') k' = None"
    if "k' \<noteq> k" "map_of (mg_cache (ts_mgr s)) k' = None" for k'
    using ex that by (auto simp: map_of_eq_None_iff)
  show ?thesis unfolding tinv_upd fl' w'
  proof (intro conjI allI impI)
    fix t' k' op' assume "(if t' = t then None else inflight (ts_pc s t')) = Some (k', op')"
    then show "mg_loading m' k' = Some op'" using ex D(3) [of t' k' op'] other [of t' k' op'] by (auto split: if_splits)
  next
    fix k' op' assume "mg_loading m' k' = Some op'"
    then have k': "k' \<noteq> k" "mg_loading (ts_mgr s) k' = Some op'" using ex by (auto split: if_splits)
    obtain t' where "inflight (ts_pc s t') = Some (k', op')" using D(4) [OF k'(2)] by blast
    then show "\<exists>t'. (if t' = t then None else inflight (ts_pc s t')) = Some (k', op')"
      using fl k'(1) by (intro exI [of _ t']) auto
  next
    fix t' op' assume "t' \<noteq> t \<and> ts_pc s t' = Waiting op'"
    then show "((ts_ops s)(op \<mapsto> r)) op' \<noteq> None \<or>
        (\<exists>t'' k'. (if t'' = t then None else inflight (ts_pc s t'')) = Some (k', op'))"
      using D(7) [of t' op'] fl by (cases "op' = op") (auto, metis option.inject prod.inject)
  next
    fix k' op' assume "mg_loading m' k' = Some op' \<and> \<not> mg_closed m'"
    then show "map_of (mg_cache m') k' = None" using ex D(6) [of k' op'] cache [of k'] by (auto split: if_splits)
  qed (use ex D up in \<open>auto split: if_splits\<close>)
qed

lemma tinv_frame:
  assumes "tinv cfg s" and "manager_inv m'" and "mg_cfg m' = mg_cfg (ts_mgr s)"
    and "mg_loading m' = mg_loading (ts_mgr s)" and "mg_closed (ts_mgr s) \<longrightarrow> mg_closed m'"
    and "\<And>k. map_of (mg_cache (ts_mgr s)) k = None \<Longrightarrow> \<not> mg_closed m' \<Longrightarrow> map_of (mg_cache m') k = None"
  shows "tinv cfg (s\<lparr>ts_mgr := m', ts_fs := fs'\<rparr>)"
  using assms by (auto simp: tinv_def)

lemma tinv_rest:
  assumes inv: "tinv cfg s" and "inflight (ts_pc s t) = None" and "inflight p = None" and "\<And>op. p \<noteq> Waiting op"
  shows "tinv cfg (s\<lparr>ts_pc := (ts_pc s)(t := p)\<rparr>)"
proof -
  have fl: "inflight (((ts_pc s)(t := p)) t') = inflight (ts_pc s t')" for t' using assms(2,3) by simp
  have w: "((ts_pc s)(t := p)) t' = Waiting op \<Longrightarrow> ts_pc s t' = Waiting op" for t' op
    using assms(4) by (auto split: if_splits)
  show ?thesis using inv w by (simp add: tinv_def fl del: fun_upd_apply) blast
qed

lemma tinv_step:
  assumes "tstep C s s'" and inv: "tinv cfg s"
  shows "tinv cfg s'"
  using assms(1)
proof cases
  case (enter t k r m')
  with tinv_enter [OF inv] show ?thesis by simp
next
  case (opened t k op r fs')
  with tinv_opened [OF inv] show ?thesis by simp
next
  case (exit t k op r m' fs')
  show ?thesis unfolding exit(1) by (rule tinv_exit [OF inv exit(2,3,4)])
next
  case (crash t k op r)
  have "mg_closed (ts_mgr s)"
    using Get_exit_Panic_iff [OF tinvD(1) [OF inv], THEN iffD1, OF crash(4)] by (rule conjunct1)
  then show ?thesis unfolding crash(1) using inv by (simp add: tinv_def)
next
  case (woken t op r)
  with tinv_rest [OF inv, of t "Done r"] show ?thesis by simp
next
  case (again t r)
  with tinv_rest [OF inv, of t Idle] show ?thesis by simp
next
  case (drop k r m' fs')
  from Drop_inv [OF tinvD(1) [OF inv] drop(3)] tinv_frame [OF inv, of m' fs'] drop(1) show ?thesis
    by (auto simp: map_of_eq_None_iff)
next
  case (close r m' fs')
  from Close_inv [OF tinvD(1) [OF inv] close(3)] tinv_frame [OF inv, of m' fs'] close(1) show ?thesis by auto
qed

lemma treach_tinv: "treach C cfg s \<Longrightarrow> tinv cfg s"
  by (induction rule: treach.induct) (auto intro: tinv_init tinv_step)

section \<open>Properties\<close>

text \<open>A sequence of calls by one caller.\<close>

fun run_gets :: "('fs, 'h) corefs \<Rightarrow> string list \<Rightarrow> 'h Manager \<Rightarrow> 'fs \<Rightarrow> ('h Manager \<times> 'fs) option" where
  "run_gets C [] m fs = Some (m, fs)"
| "run_gets C (k # ks) m fs =
     (case Get C k m fs of Some (Ret (Inr st, m', fs')) \<Rightarrow> run_gets C ks m' fs' | _ \<Rightarrow> None)"

definition disk_ok :: "('fs, 'h) corefs \<Rightarrow> bool" where
  "disk_ok C \<longleftrightarrow> (\<forall>d fs. \<exists>st fs'. OpenStore C d fs = (Inr st, fs'))"

lemma openLocked_ok: "disk_ok C \<Longrightarrow> \<exists>st fs'. openLocked C k m fs = (Inr st, fs')"
  unfolding disk_ok_def openLocked_def
  by (elim allE [of _ "filepath_Join (cfg_Root (mg_cfg m)) k"] allE [of _ fs] exE) simp

lemma run_gets_spec:
  assumes "disk_ok C"
  shows "manager_inv m \<Longrightarrow> mg_loading m = Map.empty \<Longrightarrow> \<not> mg_closed m \<Longrightarrow> [] \<notin> set ks \<Longrightarrow>
    \<exists>m' fs'. run_gets C ks m fs = Some (m', fs') \<and> manager_inv m' \<and>
      map fst (mg_cache m') = fold (lru_use (nat (cfg_MaxOpen (mg_cfg m)))) ks (map fst (mg_cache m))"
proof (induction ks arbitrary: m fs)
  case (Cons k ks)
  then have "k \<noteq> []" by auto
  from Get_spec [OF Cons.prems(1,2,3) this openLocked_ok [OF assms], of fs]
  obtain st m1 fs1 where g: "Get C k m fs = Some (Ret (Inr st, m1, fs1))" "manager_inv m1"
    "mg_loading m1 = Map.empty" "\<not> mg_closed m1" "mg_cfg m1 = mg_cfg m"
    "map fst (mg_cache m1) = lru_use (nat (cfg_MaxOpen (mg_cfg m))) k (map fst (mg_cache m))" by blast
  from Cons.IH [OF g(2,3,4), of fs1] Cons.prems(4) g(1,5,6) show ?case by simp
qed simp

text \<open>A store library whose calls always succeed, for concrete runs; a handle is its directory.\<close>

definition sim_fs :: "('fs, string) corefs" where
  "sim_fs = \<lparr>OpenStore = (\<lambda>d fs. (Inr d, fs)), CloseStore = (\<lambda>h fs. (nil_err, fs)),
             RemoveAll = (\<lambda>d fs. (nil_err, fs))\<rparr>"

definition sim_cfg :: Config where
  "sim_cfg = \<lparr>cfg_Root = ''data'', cfg_MaxOpen = 2\<rparr>"

definition sim_mgr :: "string Manager" where
  "sim_mgr = \<lparr>mg_cfg = sim_cfg, mg_cache = [], mg_index = Some Map.empty,
              mg_loading = Map.empty, mg_closed = False\<rparr>"

lemma sim_New: "New sim_cfg = Inr sim_mgr"
  by (simp add: New_def sim_cfg_def sim_mgr_def)

lemma disk_ok_sim: "disk_ok sim_fs"
  by (simp add: disk_ok_def sim_fs_def)

text \<open>
  C26: a sequence of \<open>Get\<close> calls on a fresh manager succeeds whenever opening does, and
  leaves exactly the ids that a least-recently-used list of \<open>MaxOpen\<close> ids holds, in
  order of use.
\<close>

lemma Get_lru:
  assumes "New cfg = Inr m" and "disk_ok C" and "[] \<notin> set ks"
  shows "\<exists>m' fs'. run_gets C ks m fs = Some (m', fs') \<and> manager_inv m' \<and>
    map fst (mg_cache m') = fold (lru_use (nat (cfg_MaxOpen cfg))) ks []"
proof -
  have "mg_cfg m = cfg \<and> mg_cache m = [] \<and> mg_loading m = Map.empty \<and> \<not> mg_closed m"
    using assms(1) by (auto simp: New_def split: if_splits)
  then show ?thesis
    using run_gets_spec [OF assms(2) manager_inv_New [OF assms(1)] _ _ assms(3), of fs] by simp
qed

lemma Get_lru_witness:
  "\<exists>m' fs'. run_gets sim_fs [''a'', ''b'', ''a'', ''c''] sim_mgr () = Some (m', fs') \<and>
     manager_inv m' \<and> map fst (mg_cache m') = [''c'', ''a'']"
  using Get_lru [OF sim_New disk_ok_sim, of "[''a'', ''b'', ''a'', ''c'']" "()"]
  by (simp add: lru_use_def sim_cfg_def eval_nat_numeral)

text \<open>
  C5: in every interleaving of concurrent calls of \<open>Get\<close>, \<open>Drop\<close> and
  \<open>Close\<close>, each id is being opened by at most one caller, and an id that is being
  opened is not already open in the cache.
\<close>

lemma Get_single_flight:
  assumes "treach C cfg s" and "inflight (ts_pc s t) = Some (k, op)"
  shows "(\<forall>t' op'. inflight (ts_pc s t') = Some (k, op') \<longrightarrow> t' = t \<and> op' = op) \<and>
    (\<not> mg_closed (ts_mgr s) \<longrightarrow> map_of (mg_cache (ts_mgr s)) k = None)"
proof -
  note D = tinvD [OF treach_tinv [OF assms(1)]]
  show ?thesis using D(3) [OF assms(2)] D(5) [OF assms(2)] D(6) D(3) by (metis option.inject)
qed

text \<open>A caller that has started to load, and one that has the opened store in hand.\<close>

definition sim_loading :: "(unit, string) tsys" where
  "sim_loading = (tinit sim_mgr ())\<lparr>ts_mgr := sim_mgr\<lparr>mg_loading := [''a'' \<mapsto> 0]\<rparr>, ts_next := 1,
     ts_pc := (\<lambda>_. Idle)(0 := Loading ''a'' 0)\<rparr>"

definition sim_waiting :: "(unit, string) tsys" where
  "sim_waiting = sim_loading\<lparr>ts_next := 2, ts_pc := (\<lambda>_. Idle)(0 := Loading ''a'' 0, 1 := Waiting 0)\<rparr>"

definition sim_opened :: "(unit, string) tsys" where
  "sim_opened = sim_loading\<lparr>ts_pc := (\<lambda>_. Idle)(0 := Opened ''a'' 0 (Inr ''data/a''))\<rparr>"

lemma reach_loading: "treach sim_fs sim_cfg sim_loading"
proof (rule treach.step [OF treach.init [OF sim_New, of sim_fs "()"]])
  show "tstep sim_fs (tinit sim_mgr ()) sim_loading"
    using tstep.enter [of "tinit sim_mgr ()" 0 "''a''" ELoad "sim_mgr\<lparr>mg_loading := [''a'' \<mapsto> 0]\<rparr>" sim_fs]
    by (simp add: sim_loading_def tinit_def sim_mgr_def Get_enter_def index_get_def enter_pc_def)
qed

lemma step_waiting: "tstep sim_fs sim_loading sim_waiting"
  using tstep.enter [of sim_loading 1 "''a''" "EWait 0" "ts_mgr sim_loading" sim_fs]
  by (simp add: sim_waiting_def sim_loading_def tinit_def sim_mgr_def Get_enter_def index_get_def enter_pc_def
      eval_nat_numeral)

lemma reach_waiting: "treach sim_fs sim_cfg sim_waiting"
  by (rule treach.step [OF reach_loading step_waiting])

lemma open_a: "openLocked sim_fs ''a'' (ts_mgr sim_loading) () = (Inr ''data/a'', ())"
  by (simp add: openLocked_def sim_fs_def sim_loading_def sim_mgr_def sim_cfg_def filepath_Join_def Clean_def)

lemma reach_opened: "treach sim_fs sim_cfg sim_opened"
proof (rule treach.step [OF reach_loading])
  show "tstep sim_fs sim_loading sim_opened"
    using open_a tstep.opened [of sim_loading 0 "''a''" 0 sim_fs "Inr ''data/a''" "()"]
    by (simp add: sim_opened_def sim_loading_def tinit_def)
qed

lemma Get_single_flight_witness:
  "{t. \<exists>op. inflight (ts_pc sim_waiting t) = Some (''a'', op)} = {0}"
proof -
  have at: "inflight (ts_pc sim_waiting 0) = Some (''a'', 0)" by (simp add: sim_waiting_def)
  from Get_single_flight [OF reach_waiting at] at show ?thesis by auto
qed

text \<open>
  C9: in every interleaving, at most \<open>MaxOpen\<close> stores are cached, each id at most once,
  and until \<open>Close\<close> the index finds exactly the entries of the list.
\<close>

lemma cache_bounded:
  assumes "treach C cfg s"
  shows "int (Len (ts_mgr s)) \<le> cfg_MaxOpen cfg \<and> distinct (map fst (mg_cache (ts_mgr s))) \<and>
    (\<forall>k. index_get (ts_mgr s) k = map_option (\<lambda>st. (k, st)) (map_of (mg_cache (ts_mgr s)) k))"
  using tinvD(1,2) [OF treach_tinv [OF assms]] index_get_inv [OF tinvD(1) [OF treach_tinv [OF assms]]]
  by (auto simp: manager_inv_def Len_def)

lemma cache_bounded_witness: "int (Len (ts_mgr sim_opened)) \<le> cfg_MaxOpen sim_cfg"
  using cache_bounded [OF reach_opened] by simp

text \<open>
  C29: the process can only crash in \<open>Get\<close> after \<open>Close\<close>, and it does crash
  for every load that has opened its store when \<open>Close\<close> runs: whatever the caller
  does next, its second critical section cannot return, it writes to the nil index.
\<close>

lemma Close_crashes_inflight_load:
  assumes "treach C cfg s" and "\<not> ts_crashed s" and "ts_pc s t = Opened k op (Inr st)"
    and "Close C (ts_mgr s) (ts_fs s) = (r, m', fs')"
  defines "s1 \<equiv> s\<lparr>ts_mgr := m', ts_fs := fs'\<rparr>"
  shows "tstep C s s1 \<and> tstep C s1 (s1\<lparr>ts_crashed := True\<rparr>) \<and>
    (\<forall>s2. tstep C s1 s2 \<longrightarrow> ts_crashed s2 \<or> ts_pc s2 t = Opened k op (Inr st)) \<and>
    (\<forall>s. treach C cfg s \<and> ts_crashed s \<longrightarrow> mg_closed (ts_mgr s))"
proof -
  have st: "tstep C s s1" unfolding s1_def using assms(2,4) by (rule tstep.close)
  have cl: "manager_inv m'" "mg_closed m'"
    using Close_inv [OF tinvD(1) [OF treach_tinv [OF assms(1)]] assms(4)] by simp_all
  have pan: "Get_exit C k (Inr st) m' fs = Panic" for fs
    using Get_exit_Panic_iff [OF cl(1), of C k "Inr st" fs] cl(2) by simp
  have crash: "tstep C s1 (s1\<lparr>ts_crashed := True\<rparr>)"
    by (rule tstep.crash) (use assms(2,3) pan in \<open>simp_all add: s1_def\<close>)
  have stay: "ts_crashed s2 \<or> ts_pc s2 t = Opened k op (Inr st)" if "tstep C s1 s2" for s2
    using that assms(3) pan by cases (auto simp: s1_def)
  show ?thesis using st crash stay tinvD(8) [OF treach_tinv] by blast
qed

lemma Close_crashes_inflight_load_witness:
  "\<exists>s1. tstep sim_fs sim_opened s1 \<and> tstep sim_fs s1 (s1\<lparr>ts_crashed := True\<rparr>)"
proof -
  obtain r m' fs' where c: "Close sim_fs (ts_mgr sim_opened) (ts_fs sim_opened) = (r, m', fs')"
    by (cases "Close sim_fs (ts_mgr sim_opened) (ts_fs sim_opened)")
  show ?thesis
    using Close_crashes_inflight_load [OF reach_opened _ _ c, of 0 "''a''" 0 "''data/a''"]
    by (auto simp: sim_opened_def sim_loading_def tinit_def)
qed

text \<open>
  Distinct genealogy ids that are plain path segments are opened and removed in distinct
  directories under the root.
\<close>

lemma tenant_directories_distinct:
  assumes "New cfg = Inr (m :: 'h Manager)" and "plain_seg a" and "plain_seg b" and "a \<noteq> b"
  shows "\<exists>da db. da \<noteq> db \<and> (\<forall>C :: ('fs, 'h) corefs. \<forall>fs.
    RemoveOnDisk C a m fs = RemoveAll C da fs \<and> RemoveOnDisk C b m fs = RemoveAll C db fs \<and>
    snd (openLocked C a m fs) = snd (OpenStore C da fs) \<and> snd (openLocked C b m fs) = snd (OpenStore C db fs))"
proof -
  have "mg_cfg m = cfg" "cfg_Root cfg \<noteq> []" using assms(1) by (auto simp: New_def split: if_splits)
  then show ?thesis
    using filepath_Join_inject [of "cfg_Root cfg" a b] assms(2-4)
    by (intro exI [of _ "filepath_Join (cfg_Root cfg) a"] exI [of _ "filepath_Join (cfg_Root cfg) b"])
       (auto simp: RemoveOnDisk_def openLocked_def split: prod.splits sum.splits)
qed

lemma tenant_directories_distinct_witness:
  "\<exists>da db. da \<noteq> db \<and> RemoveOnDisk sim_fs ''g1'' sim_mgr () = RemoveAll sim_fs da () \<and>
     RemoveOnDisk sim_fs ''g2'' sim_mgr () = RemoveAll sim_fs db ()"
proof -
  have "plain_seg ''g1''" "plain_seg ''g2''" by (simp_all add: plain_seg_def)
  from tenant_directories_distinct [where 'fs = unit, OF sim_New this] show ?thesis by auto
qed

section \<open>The loop of eviction\<close>

definition evict_more :: "'h Manager \<times> 'fs \<Rightarrow> bool" where
  "evict_more = (\<lambda>(m, fs). cfg_MaxOpen (mg_cfg m) < int (length (mg_cache m)) \<and> mg_cache m \<noteq> [])"

definition evict_one :: "('fs, 'h) corefs \<Rightarrow> 'h Manager \<times> 'fs \<Rightarrow> 'h Manager \<times> 'fs" where
  "evict_one C = (\<lambda>(m, fs). (index_delete (fst (last (mg_cache m))) (m\<lparr>mg_cache := butlast (mg_cache m)\<rparr>),
     snd (CloseStore C (snd (last (mg_cache m))) fs)))"

lemma evict_while: "while_option evict_more (evict_one C) (m, fs) = Some (evictLocked C m fs)"
proof (induction C m fs rule: evictLocked.induct)
  case (1 C m fs)
  show ?case
  proof (cases "evict_more (m, fs)")
    case True
    then have "while_option evict_more (evict_one C) (m, fs) = while_option evict_more (evict_one C) (evict_one C (m, fs))"
      by (simp add: while_option_unfold)
    then show ?thesis
      using 1 True by (subst evictLocked.simps) (simp add: evict_more_def evict_one_def Let_def)
  next
    case False
    then show ?thesis by (subst evictLocked.simps, subst while_option_unfold) (auto simp: evict_more_def)
  qed
qed

text \<open>
  C28: eviction ends. The loop of \<open>evictLocked\<close>, run as a loop that might not stop, returns for every
  cache, limit and outcome of closing the evicted stores, errors included; with the limit of a
  manager it leaves the \<open>MaxOpen\<close> most recently used stores and has closed the others, the least
  recently used first.
\<close>

theorem evictLocked_terminates:
  "while_option evict_more (evict_one C) (m, fs) = Some (evictLocked C m fs) \<and>
   (0 \<le> cfg_MaxOpen (mg_cfg m) \<longrightarrow>
      mg_cache (fst (evictLocked C m fs)) = take (nat (cfg_MaxOpen (mg_cfg m))) (mg_cache m) \<and>
      snd (evictLocked C m fs) =
        fold (\<lambda>e fs. snd (CloseStore C (snd e) fs)) (rev (drop (nat (cfg_MaxOpen (mg_cfg m))) (mg_cache m))) fs)"
  using evict_while [of C m fs] evictLocked_spec(1,2) [of m C fs] by simp

definition sim_failing_fs :: "(string list, string) corefs" where
  "sim_failing_fs = \<lparr>OpenStore = (\<lambda>d fs. (Inr d, fs)), CloseStore = (\<lambda>h fs. (Inl (ErrExt ''busy''), fs @ [h])),
     RemoveAll = (\<lambda>d fs. (nil_err, fs))\<rparr>"

lemma evictLocked_terminates_witness:
  "snd (evictLocked sim_failing_fs (sim_mgr\<lparr>mg_cache := [(''d'', ''D''), (''c'', ''C''), (''b'', ''B''), (''a'', ''A'')]\<rparr>) []) = [''A'', ''B'']"
  using evictLocked_terminates [of sim_failing_fs "sim_mgr\<lparr>mg_cache := [(''d'', ''D''), (''c'', ''C''), (''b'', ''B''), (''a'', ''A'')]\<rparr>" "[]"]
  by (simp add: sim_mgr_def sim_cfg_def sim_failing_fs_def)

end
