(* ===== verification/Genealogies.thy ===== *)
theory Genealogies
  imports Mappers Quotas Authz Tenants
begin

text \<open>
  The genealogies service (\<open>internal/service/genealogies.go\<close> with \<open>deps.go\<close>): the
  lifecycle of genealogies, memberships and bans. One definition per remote procedure, from the
  request to the response and the new server state; state changes made before an error return
  stay, as in the code.

  The state is the platform database, the decision cache, the tenant manager and the outside
  world of the per-genealogy stores. What a call reads from its environment is an argument
  \<open>q\<close>: the caller's subject (\<open>auth.IdentityOf(ctx).Subject\<close>), the two clock readings
  of the decision cache, the successive readings of \<open>platform.Now()\<close> and the fresh UUID.
  A handler runs without interleaving with another one here.
\<close>

section \<open>State and environment\<close>

record ('db, 'h, 'fs) server =
  sv_db :: 'db
  sv_cache :: cache
  sv_mgr :: "'h Manager"
  sv_fs :: 'fs

text \<open>\<open>platformDeps\<close>: the libraries behind the state, and the limits of the quota enforcer.\<close>

record ('db, 'tx, 'fs, 'h) platformDeps =
  dp_badger :: "('db, 'tx) badger"
  dp_store :: "('fs, 'h) corefs"
  dp_limits :: Limits

record callenv =
  q_Subject :: string
  q_t_get :: int
  q_t_put :: int
  q_Now :: "nat \<Rightarrow> int64"
  q_uuid :: string

definition on_db :: "('db \<Rightarrow> (err + 'a) \<times> 'db) \<Rightarrow> ('db, 'h, 'fs) server \<Rightarrow> (err + 'a) \<times> ('db, 'h, 'fs) server" where
  "on_db f s = (case f (sv_db s) of (r, db') \<Rightarrow> (r, s\<lparr>sv_db := db'\<rparr>))"

definition on_cache :: "(cache \<Rightarrow> cache) \<Rightarrow> ('db, 'h, 'fs) server \<Rightarrow> ('db, 'h, 'fs) server" where
  "on_cache f s = s\<lparr>sv_cache := f (sv_cache s)\<rparr>"

definition authz_Resolve ::
  "('db, 'tx, 'fs, 'h) platformDeps \<Rightarrow> callenv \<Rightarrow> string \<Rightarrow> string \<Rightarrow> ('db, 'h, 'fs) server \<Rightarrow>
   (err + Decision) \<times> ('db, 'h, 'fs) server" where
  "authz_Resolve D q sub gid s =
     (case Resolve (dp_badger D) (q_t_get q) (q_t_put q) sub gid (sv_cache s) (sv_db s) of
        (r, c') \<Rightarrow> (r, s\<lparr>sv_cache := c'\<rparr>))"

section \<open>Helpers\<close>

definition mapAuthzError :: "err \<Rightarrow> err" where
  "mapAuthzError e =
     (if errors_Is e ErrNotAllowed then LError CodePersonNotFound ''genealogy not found or access denied'' else e)"

definition insufficient_role :: "Role \<Rightarrow> Role \<Rightarrow> err" where
  "insufficient_role have_role need =
     LError CodeInvalidArgument
       (''insufficient role: have '' @ Role_String have_role @ '', need '' @ Role_String need)"

definition requireRole ::
  "('db, 'tx, 'fs, 'h) platformDeps \<Rightarrow> callenv \<Rightarrow> string \<Rightarrow> string \<Rightarrow> Role \<Rightarrow> ('db, 'h, 'fs) server \<Rightarrow>
   (err + unit) \<times> ('db, 'h, 'fs) server" where
  "requireRole D q sub gid minRole s =
     (case authz_Resolve D q sub gid s of
        (Inl e, s1) \<Rightarrow> (Inl (mapAuthzError e), s1)
      | (Inr d, s1) \<Rightarrow>
          if d_Role d < minRole then (Inl (insufficient_role (d_Role d) minRole), s1) else (nil_err, s1))"

definition countOwners :: "('db, 'tx) badger \<Rightarrow> string \<Rightarrow> 'db \<Rightarrow> err + nat" where
  "countOwners B gid db =
     (case IterateMembershipsForGenealogy B db gid
             (\<lambda>m n. (True, if m_Role m = RoleOwner then Suc n else n)) 0 of
        (Inl e, n) \<Rightarrow> Inl e
      | (Inr _, n) \<Rightarrow> Inr n)"

abbreviation invalid :: "string \<Rightarrow> err" where
  "invalid \<equiv> LError CodeInvalidArgument"

section \<open>Genealogies\<close>

definition CreateGenealogy ::
  "('db, 'tx, 'fs, 'h) platformDeps \<Rightarrow> callenv \<Rightarrow> pb_CreateGenealogyRequest \<Rightarrow> ('db, 'h, 'fs) server \<Rightarrow>
   (err + pb_CreateGenealogyResponse) \<times> ('db, 'h, 'fs) server" where
  "CreateGenealogy D q req s =
     (let sub = q_Subject q;
          name = TrimSpace (CreateGenealogyRequest_Name req);
          vis0 = visibilityFromProto (CreateGenealogyRequest_Visibility req);
          vis = (if vis0 = 0 then VisibilityPrivate else vis0);
          gid = q_uuid q;
          g = \<lparr>g_ID = gid, g_Name = name, g_Visibility = vis, g_CreatedBy = sub, g_CreatedAt = q_Now q 0\<rparr>;
          m = \<lparr>m_Subject = sub, m_GenealogyID = gid, m_Role = RoleOwner, m_GrantedBy = sub, m_GrantedAt = q_Now q 1\<rparr>
      in
      if sub = [] then (Inl (invalid ''authentication required''), s)
      else if name = [] then (Inl (invalid ''name is required''), s)
      else if vis = VisibilityPrivate \<and>
              CheckCreatePrivateGenealogy (dp_badger D) (dp_limits D) sub (sv_db s) \<noteq> nil_err
      then (Inl (invalid ''private-genealogy quota exceeded''), s)
      else
        (case on_db (PutGenealogy (dp_badger D) g) s of
           (Inl e, s1) \<Rightarrow> (Inl e, s1)
         | (Inr _, s1) \<Rightarrow>
        (case on_db (PutMembership (dp_badger D) (q_Now q 2) m) s1 of
           (Inl e, s2) \<Rightarrow> (Inl e, s2)
         | (Inr _, s2) \<Rightarrow>
        (case (if vis = VisibilityPrivate then on_db (IncPrivateGenealogy (dp_badger D) sub) s2 else (nil_err, s2)) of
           (Inl e, s3) \<Rightarrow> (Inl e, s3)
         | (Inr _, s3) \<Rightarrow>
             (Inr \<lparr>CreateGenealogyResponse_Genealogy = Some (genealogyToProto g RoleOwner)\<rparr>,
              on_cache (Invalidate sub gid) s3)))))"

text \<open>The closure \<open>addUnique\<close> of \<open>ListGenealogies\<close> on the ids seen and the output.\<close>

definition addUnique :: "Genealogy \<Rightarrow> Role \<Rightarrow> string set \<times> pb_Genealogy list \<Rightarrow> string set \<times> pb_Genealogy list" where
  "addUnique g role acc =
     (case acc of (seen, out) \<Rightarrow>
        if g_ID g \<in> seen then acc
        else (insert (g_ID g) seen, out @ [genealogyToProto g role]))"

definition ListGenealogies ::
  "('db, 'tx, 'fs, 'h) platformDeps \<Rightarrow> callenv \<Rightarrow> ('db, 'h, 'fs) server \<Rightarrow> err + pb_ListGenealogiesResponse" where
  "ListGenealogies D q s =
     (let B = dp_badger D; db = sv_db s; sub = q_Subject q in
      case (if sub \<noteq> [] then
              IterateMembershipsForUser B db sub
                (\<lambda>m acc. (True, case GetGenealogy B (m_GenealogyID m) db of
                                  Inl _ \<Rightarrow> acc
                                | Inr g \<Rightarrow> addUnique g (m_Role m) acc)) ({}, [])
            else (nil_err, ({}, []))) of
        (Inl e, acc) \<Rightarrow> Inl e
      | (Inr _, acc) \<Rightarrow>
          (case IterateGenealogies B db
                  (\<lambda>g acc. (True, if g_Visibility g \<noteq> VisibilityPublic then acc
                                  else addUnique g (if sub \<noteq> [] then RoleContributor else RoleViewer) acc)) acc of
             (Inl e, acc') \<Rightarrow> Inl e
           | (Inr _, acc') \<Rightarrow>
               Inr \<lparr>ListGenealogiesResponse_Genealogies = snd acc', ListGenealogiesResponse_NextPageToken = []\<rparr>))"

definition GetGenealogy_rpc ::
  "('db, 'tx, 'fs, 'h) platformDeps \<Rightarrow> callenv \<Rightarrow> pb_GetGenealogyRequest \<Rightarrow> ('db, 'h, 'fs) server \<Rightarrow>
   (err + pb_GetGenealogyResponse) \<times> ('db, 'h, 'fs) server" where
  "GetGenealogy_rpc D q req s =
     (let gid = GetGenealogyRequest_Id req in
      case authz_Resolve D q (q_Subject q) gid s of
        (Inl e, s1) \<Rightarrow> (Inl (mapAuthzError e), s1)
      | (Inr d, s1) \<Rightarrow>
          (case GetGenealogy (dp_badger D) gid (sv_db s1) of
             Inl e \<Rightarrow> (Inl e, s1)
           | Inr g \<Rightarrow> (Inr \<lparr>GetGenealogyResponse_Genealogy = Some (genealogyToProto g (d_Role d))\<rparr>, s1)))"

definition UpdateVisibility ::
  "('db, 'tx, 'fs, 'h) platformDeps \<Rightarrow> callenv \<Rightarrow> pb_UpdateVisibilityRequest \<Rightarrow> ('db, 'h, 'fs) server \<Rightarrow>
   (err + pb_Genealogy) \<times> ('db, 'h, 'fs) server" where
  "UpdateVisibility D q req s =
     (let B = dp_badger D; gid = UpdateVisibilityRequest_Id req;
          vis = visibilityFromProto (UpdateVisibilityRequest_Visibility req) in
      case requireRole D q (q_Subject q) gid RoleOwner s of
        (Inl e, s1) \<Rightarrow> (Inl e, s1)
      | (Inr _, s1) \<Rightarrow>
          if vis = 0 then (Inl (invalid ''visibility is required''), s1)
          else
            (case GetGenealogy B gid (sv_db s1) of
               Inl e \<Rightarrow> (Inl e, s1)
             | Inr g0 \<Rightarrow>
                 (let prev = g_Visibility g0; g = g0\<lparr>g_Visibility := vis\<rparr> in
                  if prev \<noteq> VisibilityPrivate \<and> vis = VisibilityPrivate \<and>
                     CheckCreatePrivateGenealogy B (dp_limits D) (g_CreatedBy g) (sv_db s1) \<noteq> nil_err
                  then (Inl (invalid ''private-genealogy quota exceeded''), s1)
                  else
                    (case on_db (PutGenealogy B g) s1 of
                       (Inl e, s2) \<Rightarrow> (Inl e, s2)
                     | (Inr _, s2) \<Rightarrow>
                         (let s3 = (if prev = VisibilityPrivate \<and> vis \<noteq> VisibilityPrivate
                                    then snd (on_db (DecPrivateGenealogy B (g_CreatedBy g)) s2)
                                    else if prev \<noteq> VisibilityPrivate \<and> vis = VisibilityPrivate
                                    then snd (on_db (IncPrivateGenealogy B (g_CreatedBy g)) s2)
                                    else s2)
                          in (Inr (genealogyToProto g RoleOwner), on_cache (Invalidate [] gid) s3))))))"

definition DeleteGenealogy_rpc ::
  "('db, 'tx, 'fs, 'h) platformDeps \<Rightarrow> callenv \<Rightarrow> pb_DeleteGenealogyRequest \<Rightarrow> ('db, 'h, 'fs) server \<Rightarrow>
   (err + unit) \<times> ('db, 'h, 'fs) server" where
  "DeleteGenealogy_rpc D q req s =
     (let B = dp_badger D; gid = DeleteGenealogyRequest_Id req in
      case requireRole D q (q_Subject q) gid RoleOwner s of
        (Inl e, s1) \<Rightarrow> (Inl e, s1)
      | (Inr _, s1) \<Rightarrow>
      (case GetGenealogy B gid (sv_db s1) of
         Inl e \<Rightarrow> (Inl e, s1)
       | Inr g \<Rightarrow>
      (case Drop (dp_store D) gid (sv_mgr s1) (sv_fs s1) of
         (_, mgr', fs1) \<Rightarrow>
      (case RemoveOnDisk (dp_store D) gid mgr' fs1 of
         (Inl e, fs2) \<Rightarrow> (Inl (Wrap ''delete on-disk'' e), s1\<lparr>sv_mgr := mgr', sv_fs := fs2\<rparr>)
       | (Inr _, fs2) \<Rightarrow>
           (let s2 = s1\<lparr>sv_mgr := mgr', sv_fs := fs2\<rparr> in
            case IterateMembershipsForGenealogy B (sv_db s2) gid (\<lambda>m mems. (True, mems @ [m_Subject m])) [] of
              (Inl e, _) \<Rightarrow> (Inl e, s2)
            | (Inr _, mems) \<Rightarrow>
                (let s3 = fold (\<lambda>sub s. snd (on_db (DeleteMembership B gid sub) s)) mems s2 in
                 case on_db (DeleteGenealogy B gid) s3 of
                   (Inl e, s4) \<Rightarrow> (Inl e, s4)
                 | (Inr _, s4) \<Rightarrow>
                     (let s5 = (if g_Visibility g = VisibilityPrivate
                                then snd (on_db (DecPrivateGenealogy B (g_CreatedBy g)) s4) else s4)
                      in (nil_err, on_cache (Invalidate [] gid) s5))))))))"

section \<open>Members\<close>

definition UpsertMembership ::
  "('db, 'tx, 'fs, 'h) platformDeps \<Rightarrow> callenv \<Rightarrow> pb_UpsertMembershipRequest \<Rightarrow> ('db, 'h, 'fs) server \<Rightarrow>
   (err + pb_Membership) \<times> ('db, 'h, 'fs) server" where
  "UpsertMembership D q req s =
     (let gid = UpsertMembershipRequest_GenealogyId req;
          target = TrimSpace (UpsertMembershipRequest_Subject req);
          role = roleFromProto (UpsertMembershipRequest_Role req);
          m = \<lparr>m_Subject = target, m_GenealogyID = gid, m_Role = role,
               m_GrantedBy = q_Subject q, m_GrantedAt = q_Now q 0\<rparr> in
      case authz_Resolve D q (q_Subject q) gid s of
        (Inl e, s1) \<Rightarrow> (Inl (mapAuthzError e), s1)
      | (Inr d, s1) \<Rightarrow>
          if d_Role d < RoleCurator then (Inl (invalid ''Curator or Owner role required''), s1)
          else if \<not> Role_IsValid role then (Inl (invalid ''invalid role''), s1)
          else if role = RoleOwner \<and> d_Role d < RoleOwner
          then (Inl (invalid ''only an Owner may grant Owner''), s1)
          else
            (case on_db (PutMembership (dp_badger D) (q_Now q 1) m) s1 of
               (Inl e, s2) \<Rightarrow> (Inl e, s2)
             | (Inr _, s2) \<Rightarrow> (Inr (membershipToProto m), on_cache (Invalidate target gid) s2)))"

definition RemoveMember ::
  "('db, 'tx, 'fs, 'h) platformDeps \<Rightarrow> callenv \<Rightarrow> pb_RemoveMemberRequest \<Rightarrow> ('db, 'h, 'fs) server \<Rightarrow>
   (err + unit) \<times> ('db, 'h, 'fs) server" where
  "RemoveMember D q req s =
     (let B = dp_badger D; gid = RemoveMemberRequest_GenealogyId req;
          target = TrimSpace (RemoveMemberRequest_Subject req);
          remove = (\<lambda>s1. case on_db (DeleteMembership B gid target) s1 of
                           (Inl e, s2) \<Rightarrow> (Inl e, s2)
                         | (Inr _, s2) \<Rightarrow> (nil_err, on_cache (Invalidate target gid) s2)) in
      case authz_Resolve D q (q_Subject q) gid s of
        (Inl e, s1) \<Rightarrow> (Inl (mapAuthzError e), s1)
      | (Inr d, s1) \<Rightarrow>
          if d_Role d < RoleCurator then (Inl (invalid ''Curator or Owner role required''), s1)
          else
            (case GetMembership B gid target (sv_db s1) of
               Inl e \<Rightarrow> if errors_Is e ErrNotFound then (nil_err, s1) else (Inl e, s1)
             | Inr existing \<Rightarrow>
                 if m_Role existing = RoleOwner then
                   (if d_Role d < RoleOwner then (Inl (invalid ''only an Owner may remove an Owner''), s1)
                    else
                      (case countOwners B gid (sv_db s1) of
                         Inl e \<Rightarrow> (Inl e, s1)
                       | Inr owners \<Rightarrow>
                           if owners \<le> 1
                           then (Inl (invalid ''cannot remove the last Owner; transfer ownership or delete the genealogy''), s1)
                           else remove s1))
                 else remove s1))"

definition LeaveGenealogy ::
  "('db, 'tx, 'fs, 'h) platformDeps \<Rightarrow> callenv \<Rightarrow> pb_LeaveGenealogyRequest \<Rightarrow> ('db, 'h, 'fs) server \<Rightarrow>
   (err + unit) \<times> ('db, 'h, 'fs) server" where
  "LeaveGenealogy D q req s =
     (let B = dp_badger D; gid = LeaveGenealogyRequest_Id req; sub = q_Subject q;
          leave = (case on_db (DeleteMembership B gid sub) s of
                     (Inl e, s2) \<Rightarrow> (Inl e, s2)
                   | (Inr _, s2) \<Rightarrow> (nil_err, on_cache (Invalidate sub gid) s2)) in
      if sub = [] then (Inl (invalid ''authentication required''), s)
      else
        (case GetMembership B gid sub (sv_db s) of
           Inl e \<Rightarrow> if errors_Is e ErrNotFound then (nil_err, s) else (Inl e, s)
         | Inr existing \<Rightarrow>
             if m_Role existing = RoleOwner then
               (case countOwners B gid (sv_db s) of
                  Inl e \<Rightarrow> (Inl e, s)
                | Inr owners \<Rightarrow>
                    if owners \<le> 1
                    then (Inl (invalid ''the last Owner cannot leave; transfer ownership or delete the genealogy''), s)
                    else leave)
             else leave))"

definition ListMembers ::
  "('db, 'tx, 'fs, 'h) platformDeps \<Rightarrow> callenv \<Rightarrow> pb_ListMembersRequest \<Rightarrow> ('db, 'h, 'fs) server \<Rightarrow>
   (err + pb_ListMembersResponse) \<times> ('db, 'h, 'fs) server" where
  "ListMembers D q req s =
     (let gid = ListMembersRequest_GenealogyId req in
      case requireRole D q (q_Subject q) gid RoleViewer s of
        (Inl e, s1) \<Rightarrow> (Inl e, s1)
      | (Inr _, s1) \<Rightarrow>
          (case IterateMembershipsForGenealogy (dp_badger D) (sv_db s1) gid
                  (\<lambda>m out. (True, out @ [membershipToProto m])) [] of
             (Inl e, _) \<Rightarrow> (Inl e, s1)
           | (Inr _, out) \<Rightarrow>
               (Inr \<lparr>ListMembersResponse_Memberships = out, ListMembersResponse_NextPageToken = []\<rparr>, s1)))"

section \<open>Bans\<close>

definition BanUser ::
  "('db, 'tx, 'fs, 'h) platformDeps \<Rightarrow> callenv \<Rightarrow> pb_BanUserRequest \<Rightarrow> ('db, 'h, 'fs) server \<Rightarrow>
   (err + pb_Ban) \<times> ('db, 'h, 'fs) server" where
  "BanUser D q req s =
     (let gid = BanUserRequest_GenealogyId req;
          b = \<lparr>b_Subject = BanUserRequest_Subject req, b_GenealogyID = gid, b_Reason = BanUserRequest_Reason req,
               b_By = q_Subject q, b_At = q_Now q 0\<rparr> in
      case requireRole D q (q_Subject q) gid RoleCurator s of
        (Inl e, s1) \<Rightarrow> (Inl e, s1)
      | (Inr _, s1) \<Rightarrow>
          (case on_db (PutBan (dp_badger D) (q_Now q 1) b) s1 of
             (Inl e, s2) \<Rightarrow> (Inl e, s2)
           | (Inr _, s2) \<Rightarrow> (Inr (banToProto b), s2)))"

definition UnbanUser ::
  "('db, 'tx, 'fs, 'h) platformDeps \<Rightarrow> callenv \<Rightarrow> pb_UnbanUserRequest \<Rightarrow> ('db, 'h, 'fs) server \<Rightarrow>
   (err + unit) \<times> ('db, 'h, 'fs) server" where
  "UnbanUser D q req s =
     (let gid = UnbanUserRequest_GenealogyId req in
      case requireRole D q (q_Subject q) gid RoleCurator s of
        (Inl e, s1) \<Rightarrow> (Inl e, s1)
      | (Inr _, s1) \<Rightarrow>
          (case on_db (DeleteBan (dp_badger D) gid (UnbanUserRequest_Subject req)) s1 of
             (Inl e, s2) \<Rightarrow> (Inl e, s2)
           | (Inr _, s2) \<Rightarrow> (nil_err, s2)))"

end
