(* ===== verification/Genealogies_Laws.thy ===== *)
theory Genealogies_Laws
  imports Genealogies
begin

text \<open>
  Correctness of the genealogies service. The locale \<open>service\<close> is the setting of a handler
  over a database that does not fail; in it every handler has a specification of its result
  and of the contents afterwards, with the invariant \<open>server_ok\<close>: the records are
  well-formed, the counters are eight bytes, and every cached decision is what the records
  grant. The sections follow the handlers; the private-genealogy counter is compared with the
  number of genealogies it stands for.
\<close>

section \<open>How writes change access\<close>

lemma granted_slash_free: "platform_wf m \<Longrightarrow> granted m sub gid = Some d \<Longrightarrow> slash_free gid \<and> gid \<noteq> []"
  using wf_gen_cases [of m gid] by (auto simp: granted_eq wf_genealogy_def)

lemma granted_genealogy: "platform_wf m \<Longrightarrow> granted m sub gid = Some d \<Longrightarrow> \<exists>g. gen_at m gid = Inr g"
  using wf_gen_cases [of m gid] by (auto simp: granted_eq)

lemma granted_upd_membership:
  assumes "platform_wf m" and "slash_free gid" and "\<not> (s = sub \<and> g = gid)"
  shows "granted (m(membershipKey gid sub := x, reverseMembershipKey sub gid := y)) s g = granted m s g"
proof (cases "slash_free g")
  case True
  then have "membershipKey gid sub \<noteq> membershipKey g s" using assms by (simp add: membershipKey_inject) blast
  then show ?thesis by (intro granted_frame) simp_all
next
  case False
  then have "m (genealogyKey g) = None" using wf_gen_cases [OF assms(1), of g] by (auto simp: wf_genealogy_def)
  then show ?thesis by (simp add: granted_no_genealogy)
qed

lemma granted_upd_genealogy: "g \<noteq> gid \<Longrightarrow> granted (m(genealogyKey gid := x)) s g = granted m s g"
  by (intro granted_frame) simp_all

lemma granted_upd_other [simp]:
  "granted (m(banKey g' s' := x)) s g = granted m s g" "granted (m(userKey s' := x)) s g = granted m s g"
  "prefix ''c/'' k \<Longrightarrow> granted (m(k := x)) s g = granted m s g"
  by (intro granted_frame; simp)+

section \<open>The invariant of the server state\<close>

definition server_ok :: "('db \<Rightarrow> string \<Rightarrow> blob option) \<Rightarrow> ('db, 'h, 'fs) server \<Rightarrow> bool" where
  "server_ok kv s \<longleftrightarrow> platform_wf (kv (sv_db s)) \<and> counters_wf (kv (sv_db s)) \<and>
     coherent (kv (sv_db s)) (sv_cache s)"

lemma server_okD:
  assumes "server_ok kv s"
  shows "platform_wf (kv (sv_db s))" "counters_wf (kv (sv_db s))" "coherent (kv (sv_db s)) (sv_cache s)"
  using assms by (simp_all add: server_ok_def)

text \<open>A state that differs only in coherent cache entries.\<close>

definition recached :: "('db, 'h, 'fs) server \<Rightarrow> ('db, 'h, 'fs) server \<Rightarrow> bool" where
  "recached s s1 \<longleftrightarrow> (\<exists>c. s1 = s\<lparr>sv_cache := c\<rparr>)"

lemma recached_same [simp]: "recached s s1 \<Longrightarrow> sv_db s1 = sv_db s" "recached s s1 \<Longrightarrow> sv_mgr s1 = sv_mgr s"
  "recached s s1 \<Longrightarrow> sv_fs s1 = sv_fs s" "recached s s"
  unfolding recached_def by (elim exE; simp)+ (rule exI [of _ "sv_cache s"], simp)

definition owners :: "(string \<Rightarrow> blob option) \<Rightarrow> string \<Rightarrow> string set" where
  "owners m gid = {sub. \<exists>r. mem_at m gid sub = Inr r \<and> m_Role r = RoleOwner}"

lemmas handler_defs = on_db_def on_cache_def requireRole_def

locale service = badger_total "dp_badger D" kv tkv
  for D :: "('db, 'tx, 'fs, 'h) platformDeps" and kv :: "'db \<Rightarrow> string \<Rightarrow> blob option"
    and tkv :: "'tx \<Rightarrow> string \<Rightarrow> blob option"
begin

abbreviation B where "B \<equiv> dp_badger D"

text \<open>The decision a handler sees is the access rule on the stored records.\<close>

lemma authz_Resolve_run:
  assumes "server_ok kv s"
  shows "\<exists>s1. recached s s1 \<and> server_ok kv s1 \<and> authz_Resolve D q sub gid s =
    (case granted (kv (sv_db s)) sub gid of Some d \<Rightarrow> Inr d | None \<Rightarrow> Inl ErrNotAllowed, s1)"
proof -
  obtain r c' where run: "Resolve B (q_t_get q) (q_t_put q) sub gid (sv_cache s) (sv_db s) = (r, c')"
    by (cases "Resolve B (q_t_get q) (q_t_put q) sub gid (sv_cache s) (sv_db s)")
  note ok = server_okD [OF assms]
  have "coherent (kv (sv_db s)) c'" using Resolve_coherent [OF run ok(1,3)] .
  then have s1: "server_ok kv (s\<lparr>sv_cache := c'\<rparr>)" using ok by (simp add: server_ok_def)
  have "r = (case granted (kv (sv_db s)) sub gid of Some d \<Rightarrow> Inr d | None \<Rightarrow> Inl ErrNotAllowed)"
  proof (cases "gid = []")
    case True
    have "granted (kv (sv_db s)) sub [] = None"
      using granted_slash_free [OF ok(1), of sub "[]"] by (cases "granted (kv (sv_db s)) sub []") auto
    with run True show ?thesis by (auto simp: Resolve_def)
  next
    case False
    with run Resolve_eq [OF ok(1,3) False, of "q_t_get q" "q_t_put q" sub] show ?thesis by simp
  qed
  then have "authz_Resolve D q sub gid s =
      (case granted (kv (sv_db s)) sub gid of Some d \<Rightarrow> Inr d | None \<Rightarrow> Inl ErrNotAllowed, s\<lparr>sv_cache := c'\<rparr>)"
    using run by (simp add: authz_Resolve_def)
  moreover have "recached s (s\<lparr>sv_cache := c'\<rparr>)" unfolding recached_def by (rule exI) (rule refl)
  ultimately show ?thesis using s1 by (intro exI conjI)
qed

lemma countOwners_eq:
  assumes "platform_wf (kv db)" and "slash_free gid"
  shows "countOwners B gid db = Inr (card (owners (kv db) gid))"
proof -
  let ?own = "filter (\<lambda>r. m_Role r = RoleOwner) (mlist db gid)"
  have fold: "fold (\<lambda>m n. if m_Role m = RoleOwner then Suc n else n) rs n =
      n + length (filter (\<lambda>r. m_Role r = RoleOwner) rs)" for rs n
    by (induction rs arbitrary: n) auto
  have "distinct (map m_Subject ?own)" by (rule distinct_map_filter [OF distinct_mlist [OF assms]])
  moreover have "set (map m_Subject ?own) = owners (kv db) gid"
  proof (intro set_eqI iffI)
    fix x assume "x \<in> owners (kv db) gid"
    then obtain r where r: "mem_at (kv db) gid x = Inr r" "m_Role r = RoleOwner" by (auto simp: owners_def)
    with wf_mem_cases [OF assms, of x] have "m_GenealogyID r = gid" "m_Subject r = x" by auto
    with r set_mlist [OF assms] show "x \<in> set (map m_Subject ?own)" by force
  qed (use set_mlist [OF assms] in \<open>auto simp: owners_def\<close>)
  ultimately have "length ?own = card (owners (kv db) gid)"
    by (metis distinct_card length_map)
  then show ?thesis by (simp add: countOwners_def Iterate_eqs [OF assms(1)] fold del: RoleOwner_def)
qed

lemma requireRole_run:
  assumes "server_ok kv s"
  shows "\<exists>s1. recached s s1 \<and> server_ok kv s1 \<and> requireRole D q sub gid minRole s =
    (case granted (kv (sv_db s)) sub gid of
       None \<Rightarrow> Inl (LError CodePersonNotFound ''genealogy not found or access denied'')
     | Some d \<Rightarrow> if d_Role d < minRole then Inl (insufficient_role (d_Role d) minRole) else nil_err, s1)"
proof -
  from authz_Resolve_run [OF assms, of q sub gid] obtain s1 where s1: "recached s s1" "server_ok kv s1"
    "authz_Resolve D q sub gid s =
      (case granted (kv (sv_db s)) sub gid of Some d \<Rightarrow> Inr d | None \<Rightarrow> Inl ErrNotAllowed, s1)" by blast
  then show ?thesis
    by (intro exI [of _ s1]) (auto simp: requireRole_def mapAuthzError_def split: option.splits)
qed

end

section \<open>Writes that keep the invariant\<close>

lemma platform_wf_index_upd:
  assumes "platform_wf m" and "slash_free gid"
    and "x = None \<or> (\<exists>r. x = Some (MarshalMembership r) \<and> wf_membership r \<and> m_GenealogyID r = gid \<and> m_Subject r = sub)"
  shows "platform_wf (m(membershipKey gid sub := x, reverseMembershipKey sub gid := x))"
  using assms platform_wf_membership [OF assms(1)] platform_wf_del_membership [OF assms(1,2), of sub] by auto

lemma counters_wf_index_upd:
  "counters_wf m \<Longrightarrow> counters_wf (m(membershipKey gid sub := x, reverseMembershipKey sub gid := y))"
  by (intro counters_wf_frame) simp_all

text \<open>A membership written or deleted in both indexes, and its subject's decision invalidated.\<close>

lemma server_ok_membership:
  assumes "server_ok kv s" and "slash_free gid"
    and "x = None \<or> (\<exists>r. x = Some (MarshalMembership r) \<and> wf_membership r \<and> m_GenealogyID r = gid \<and> m_Subject r = sub)"
    and "kv db' = (kv (sv_db s))(membershipKey gid sub := x, reverseMembershipKey sub gid := x)"
  shows "server_ok kv (on_cache (Invalidate sub gid) (s\<lparr>sv_db := db'\<rparr>))"
proof -
  note ok = server_okD [OF assms(1)]
  have "coherent (kv db') (Invalidate sub gid (sv_cache s))"
    using granted_upd_membership [OF ok(1) assms(2)] ok(3) unfolding assms(4)
    by (intro coherent_Invalidate [of "kv (sv_db s)"]) auto
  then show ?thesis
    using platform_wf_index_upd [OF ok(1) assms(2,3)] counters_wf_index_upd [OF ok(2), of gid sub x x] assms(4)
    by (simp add: server_ok_def on_cache_def)
qed

text \<open>A write that changes no grant.\<close>

lemma server_ok_frame:
  assumes "server_ok kv s" and "platform_wf (kv db')" and "counters_wf (kv db')"
    and "\<And>sub gid. granted (kv db') sub gid = granted (kv (sv_db s)) sub gid"
  shows "server_ok kv (s\<lparr>sv_db := db'\<rparr>)"
  using assms coherent_mono [of "kv (sv_db s)" "sv_cache s" "kv db'"] by (auto simp: server_ok_def)

text \<open>A genealogy's records changed, and everybody's decision on it invalidated.\<close>

lemma server_ok_genealogy:
  assumes "server_ok kv s" and "platform_wf (kv db')" and "counters_wf (kv db')"
    and "\<And>sub g. g \<noteq> gid \<Longrightarrow> granted (kv db') sub g = granted (kv (sv_db s)) sub g"
  shows "server_ok kv (on_cache (Invalidate [] gid) (s\<lparr>sv_db := db'\<rparr>))"
  using assms coherent_Invalidate [of "kv (sv_db s)" "sv_cache s" "kv db'" "[]" gid]
  by (auto simp: server_ok_def on_cache_def)

context service
begin

lemma PutMembership_if:
  "PutMembership B now m db =
     (if m_Subject m = [] \<or> m_GenealogyID m = []
      then (Inl (ErrNew ''platform: membership requires Subject and GenealogyID''), db)
      else if \<not> Role_IsValid (m_Role m) then (Inl (ErrNew ''platform: membership.Role invalid''), db)
      else (nil_err, dput_mem now m db))"
proof (cases "m_Subject m \<noteq> [] \<and> m_GenealogyID m \<noteq> [] \<and> Role_IsValid (m_Role m)")
  case True
  then show ?thesis by (simp add: PutMembership_eq)
next
  case False
  then show ?thesis by (auto simp: PutMembership_def)
qed

section \<open>Members\<close>

lemma UpsertMembership_spec:
  assumes ok: "server_ok kv s" and run: "UpsertMembership D q req s = (r, s')"
  defines "gid \<equiv> UpsertMembershipRequest_GenealogyId req" and "target \<equiv> TrimSpace (UpsertMembershipRequest_Subject req)"
    and "role \<equiv> roleFromProto (UpsertMembershipRequest_Role req)"
  shows "server_ok kv s' \<and> sv_mgr s' = sv_mgr s \<and> sv_fs s' = sv_fs s \<and>
    (case r of
       Inl e \<Rightarrow> sv_db s' = sv_db s
     | Inr p \<Rightarrow> \<exists>d m. granted (kv (sv_db s)) (q_Subject q) gid = Some d \<and> RoleCurator \<le> d_Role d \<and>
         (role = RoleOwner \<longrightarrow> RoleOwner \<le> d_Role d) \<and> wf_membership m \<and>
         m_Subject m = target \<and> m_GenealogyID m = gid \<and> m_Role m = role \<and>
         kv (sv_db s') = (kv (sv_db s))(membershipKey gid target \<mapsto> MarshalMembership m,
                                        reverseMembershipKey target gid \<mapsto> MarshalMembership m))"
proof -
  let ?new = "\<lparr>m_Subject = target, m_GenealogyID = gid, m_Role = role, m_GrantedBy = q_Subject q, m_GrantedAt = q_Now q 0\<rparr>"
  let ?rec = "stamp (q_Now q 1) ?new"
  from authz_Resolve_run [OF ok, of q "q_Subject q" gid] obtain s1 where s1: "recached s s1" "server_ok kv s1"
    and auth: "authz_Resolve D q (q_Subject q) gid s =
      (case granted (kv (sv_db s)) (q_Subject q) gid of Some d \<Rightarrow> Inr d | None \<Rightarrow> Inl ErrNotAllowed, s1)" by blast
  note defs = UpsertMembership_def Let_def gid_def [symmetric] target_def [symmetric] role_def [symmetric] auth
  show ?thesis
  proof (cases r)
    case (Inl e)
    then have "s' = s1"
      using run unfolding defs
      by (auto simp: on_db_def PutMembership_if split: option.splits if_splits)
    with Inl s1 show ?thesis by simp
  next
    case (Inr p)
    from run Inr obtain d where d: "granted (kv (sv_db s)) (q_Subject q) gid = Some d" "\<not> d_Role d < RoleCurator"
      "Role_IsValid role" "\<not> (role = RoleOwner \<and> d_Role d < RoleOwner)"
      and t: "target \<noteq> []"
      and s': "s' = on_cache (Invalidate target gid) (s1\<lparr>sv_db := dput_mem (q_Now q 1) ?new (sv_db s1)\<rparr>)"
      unfolding defs
      by (auto simp: on_db_def PutMembership_if simp del: RoleCurator_def RoleOwner_def split: option.splits if_splits)
    have sf: "slash_free gid" "gid \<noteq> []" using granted_slash_free [OF server_okD(1) [OF ok] d(1)] by auto
    let ?db = "dput_mem (q_Now q 1) ?new (sv_db s1)"
    have kv': "kv ?db = (kv (sv_db s1))
       (membershipKey gid target \<mapsto> MarshalMembership ?rec, reverseMembershipKey target gid \<mapsto> MarshalMembership ?rec)"
      using t sf d(3) by simp
    have wf: "wf_membership ?rec" using t sf d(3) by (simp add: wf_membership_def)
    have "server_ok kv s'" unfolding s' by (rule server_ok_membership [OF s1(2) sf(1) _ kv']) (use wf in auto)
    moreover have "sv_mgr s' = sv_mgr s \<and> sv_fs s' = sv_fs s \<and> sv_db s' = ?db"
      using s1(1) by (simp add: s' on_cache_def)
    moreover have "kv ?db = (kv (sv_db s))
       (membershipKey gid target \<mapsto> MarshalMembership ?rec, reverseMembershipKey target gid \<mapsto> MarshalMembership ?rec)"
      using kv' s1(1) by simp
    ultimately show ?thesis unfolding Inr sum.case
      by (intro conjI exI [of _ d] exI [of _ ?rec]) (use d wf in \<open>simp_all add: not_less\<close>)
  qed
qed

end

context service
begin

lemma DeleteMembership_run:
  assumes "server_ok kv s" and "slash_free gid"
  shows "\<exists>s'. (case on_db (DeleteMembership B gid sub) s of
       (Inl e, s2) \<Rightarrow> (Inl e, s2)
     | (Inr _, s2) \<Rightarrow> (nil_err, on_cache (Invalidate sub gid) s2)) = (nil_err, s') \<and>
    server_ok kv s' \<and> sv_mgr s' = sv_mgr s \<and> sv_fs s' = sv_fs s \<and>
    kv (sv_db s') = (kv (sv_db s))(membershipKey gid sub := None, reverseMembershipKey sub gid := None)"
proof -
  let ?db = "ddel_mem gid sub (sv_db s)"
  have "server_ok kv (on_cache (Invalidate sub gid) (s\<lparr>sv_db := ?db\<rparr>))"
    by (rule server_ok_membership [OF assms, of None]) simp_all
  then show ?thesis
    by (intro exI [of _ "on_cache (Invalidate sub gid) (s\<lparr>sv_db := ?db\<rparr>)"])
       (simp add: on_db_def on_cache_def DeleteMembership_eq)
qed

lemma RemoveMember_spec:
  assumes ok: "server_ok kv s" and run: "RemoveMember D q req s = (r, s')"
  defines "gid \<equiv> RemoveMemberRequest_GenealogyId req" and "target \<equiv> TrimSpace (RemoveMemberRequest_Subject req)"
  shows "server_ok kv s' \<and> sv_mgr s' = sv_mgr s \<and> sv_fs s' = sv_fs s \<and>
    (sv_db s' = sv_db s \<and> (r = nil_err \<longrightarrow> mem_at (kv (sv_db s)) gid target = Inl ErrNotFound)
     \<or> r = nil_err \<and> (\<exists>d ex. granted (kv (sv_db s)) (q_Subject q) gid = Some d \<and> RoleCurator \<le> d_Role d \<and>
         mem_at (kv (sv_db s)) gid target = Inr ex \<and>
         (m_Role ex = RoleOwner \<longrightarrow> RoleOwner \<le> d_Role d \<and> 1 < card (owners (kv (sv_db s)) gid)) \<and>
         kv (sv_db s') = (kv (sv_db s))(membershipKey gid target := None, reverseMembershipKey target gid := None)))"
proof -
  from authz_Resolve_run [OF ok, of q "q_Subject q" gid] obtain s1 where s1: "recached s s1" "server_ok kv s1"
    and auth: "authz_Resolve D q (q_Subject q) gid s =
      (case granted (kv (sv_db s)) (q_Subject q) gid of Some d \<Rightarrow> Inr d | None \<Rightarrow> Inl ErrNotAllowed, s1)" by blast
  note run' = run [unfolded RemoveMember_def Let_def, folded gid_def target_def, unfolded auth]
  note wf = server_okD(1) [OF ok]
  have db: "sv_db s1 = sv_db s" "sv_mgr s1 = sv_mgr s" "sv_fs s1 = sv_fs s" using s1(1) by simp_all
  show ?thesis
  proof (cases "granted (kv (sv_db s)) (q_Subject q) gid")
    case None
    then have "s' = s1 \<and> (\<exists>e. r = Inl e)" using run' by auto
    with s1 db show ?thesis by auto
  next
    case (Some d)
    have sf: "slash_free gid" using granted_slash_free [OF wf Some] by simp
    note own = countOwners_eq [OF wf sf]
    obtain s2 where s2: "(case on_db (DeleteMembership B gid target) s1 of
         (Inl e, s2) \<Rightarrow> (Inl e, s2) | (Inr _, s2) \<Rightarrow> (nil_err, on_cache (Invalidate target gid) s2)) = (nil_err, s2)"
      "server_ok kv s2" "sv_mgr s2 = sv_mgr s" "sv_fs s2 = sv_fs s"
      "kv (sv_db s2) = (kv (sv_db s))(membershipKey gid target := None, reverseMembershipKey target gid := None)"
      using DeleteMembership_run [OF s1(2) sf, of target] db by auto
    from wf_mem_cases [OF wf sf, of target] consider "mem_at (kv (sv_db s)) gid target = Inl ErrNotFound"
      | ex where "mem_at (kv (sv_db s)) gid target = Inr ex" by blast
    then show ?thesis
    proof cases
      case 1
      then have "s' = s1" using run' Some by (simp add: Get_eqs db s2(1) split: if_splits)
      with s1 db 1 show ?thesis by simp
    next
      case (2 ex)
      from run' Some 2 have "s' = s1 \<and> (\<exists>e. r = Inl e) \<or> s' = s2 \<and> r = nil_err \<and> \<not> d_Role d < RoleCurator \<and>
         (m_Role ex = RoleOwner \<longrightarrow> \<not> d_Role d < RoleOwner \<and> \<not> card (owners (kv (sv_db s)) gid) \<le> 1)"
        by (auto simp: Get_eqs db s2(1) own split: if_splits)
      then show ?thesis using s1(2) db s2(2-) Some 2 by (auto simp: not_less not_le)
    qed
  qed
qed

lemma LeaveGenealogy_spec:
  assumes ok: "server_ok kv s" and run: "LeaveGenealogy D q req s = (r, s')"
    and sf: "slash_free (LeaveGenealogyRequest_Id req)"
  defines "gid \<equiv> LeaveGenealogyRequest_Id req"
  shows "server_ok kv s' \<and> sv_mgr s' = sv_mgr s \<and> sv_fs s' = sv_fs s \<and>
    (sv_db s' = sv_db s \<and> (r = nil_err \<longrightarrow> mem_at (kv (sv_db s)) gid (q_Subject q) = Inl ErrNotFound)
     \<or> r = nil_err \<and> (\<exists>ex. mem_at (kv (sv_db s)) gid (q_Subject q) = Inr ex \<and>
         (m_Role ex = RoleOwner \<longrightarrow> 1 < card (owners (kv (sv_db s)) gid)) \<and>
         kv (sv_db s') = (kv (sv_db s))
           (membershipKey gid (q_Subject q) := None, reverseMembershipKey (q_Subject q) gid := None)))"
proof -
  note run' = run [unfolded LeaveGenealogy_def Let_def, folded gid_def]
  note wf = server_okD(1) [OF ok]
  have sf: "slash_free gid" using sf by (simp add: gid_def)
  note own = countOwners_eq [OF wf sf]
  obtain s2 where s2: "(case on_db (DeleteMembership B gid (q_Subject q)) s of
       (Inl e, s2) \<Rightarrow> (Inl e, s2) | (Inr _, s2) \<Rightarrow> (nil_err, on_cache (Invalidate (q_Subject q) gid) s2)) = (nil_err, s2)"
    "server_ok kv s2" "sv_mgr s2 = sv_mgr s" "sv_fs s2 = sv_fs s"
    "kv (sv_db s2) = (kv (sv_db s))
       (membershipKey gid (q_Subject q) := None, reverseMembershipKey (q_Subject q) gid := None)"
    using DeleteMembership_run [OF ok sf, of "q_Subject q"] by auto
  from wf_mem_cases [OF wf sf, of "q_Subject q"] consider "mem_at (kv (sv_db s)) gid (q_Subject q) = Inl ErrNotFound"
    | ex where "mem_at (kv (sv_db s)) gid (q_Subject q) = Inr ex" by blast
  then show ?thesis
  proof cases
    case 1
    then have "s' = s" using run' by (simp add: Get_eqs s2(1) split: if_splits)
    with ok 1 show ?thesis by simp
  next
    case (2 ex)
    from run' 2 have "s' = s \<and> (\<exists>e. r = Inl e) \<or> s' = s2 \<and> r = nil_err \<and>
       (m_Role ex = RoleOwner \<longrightarrow> \<not> card (owners (kv (sv_db s)) gid) \<le> 1)"
      by (auto simp: Get_eqs s2(1) own split: if_splits)
    then show ?thesis using ok s2(2-) 2 by (auto simp: not_le)
  qed
qed

lemma LeaveGenealogy_absent:
  assumes "LeaveGenealogy D q req s = (r, s')"
    and "kv (sv_db s) (membershipKey (LeaveGenealogyRequest_Id req) (q_Subject q)) = None"
  shows "s' = s"
proof -
  have "mem_at (kv (sv_db s)) (LeaveGenealogyRequest_Id req) (q_Subject q) = Inl ErrNotFound"
    using assms(2) by (simp add: lookup_def)
  then show ?thesis using assms(1) by (auto simp: LeaveGenealogy_def Let_def Get_eqs split: if_splits)
qed

end

text \<open>
  The ids \<open>LeaveGenealogy\<close> can be called with safely: a genealogy's id has no slash; an id with a slash must
  not spell the beginning of a membership's key, as it does when a member's subject has a slash too.
\<close>

definition leave_ok :: "(string \<Rightarrow> blob option) \<Rightarrow> string \<Rightarrow> bool" where
  "leave_ok m gid \<longleftrightarrow> slash_free gid \<or> (\<forall>sub. m (membershipKey gid sub) = None)"

text \<open>Deleting one of several owners, or a member that is none, leaves an owner.\<close>

lemma owners_delete:
  assumes "slash_free gid"
  shows "owners (m(membershipKey gid sub := None, reverseMembershipKey sub gid := None)) gid = owners m gid - {sub}"
  unfolding owners_def by (auto simp: lookup_def)

lemma owners_upsert:
  assumes "slash_free gid"
  shows "owners (m(membershipKey gid sub \<mapsto> MarshalMembership r, reverseMembershipKey sub gid \<mapsto> MarshalMembership r)) gid =
    (if m_Role r = RoleOwner then insert sub (owners m gid) else owners m gid - {sub})"
  unfolding owners_def by (auto simp: lookup_def)

lemma owners_other:
  assumes "slash_free gid" and "slash_free g" and "g \<noteq> gid"
  shows "owners (m(membershipKey gid sub := x, reverseMembershipKey sub gid := y)) g = owners m g"
  using assms unfolding owners_def by (simp add: lookup_def membershipKey_inject)

lemma owners_left:
  assumes "1 < card A \<or> sub \<notin> A" and "A \<noteq> {}"
  shows "A - {sub} \<noteq> {}"
  using assms by (cases "finite A") (auto simp: card_Suc_eq dest!: subset_singletonD intro: ccontr)

section \<open>Bans and reads\<close>

context service
begin

lemma BanUser_spec:
  assumes ok: "server_ok kv s" and run: "BanUser D q req s = (r, s')"
  defines "gid \<equiv> BanUserRequest_GenealogyId req"
  shows "server_ok kv s' \<and> sv_mgr s' = sv_mgr s \<and> sv_fs s' = sv_fs s \<and>
    (case r of
       Inl e \<Rightarrow> sv_db s' = sv_db s
     | Inr p \<Rightarrow> \<exists>d b. granted (kv (sv_db s)) (q_Subject q) gid = Some d \<and> RoleCurator \<le> d_Role d \<and>
         wf_ban b \<and> b_Subject b = BanUserRequest_Subject req \<and> b_GenealogyID b = gid \<and>
         kv (sv_db s') = (kv (sv_db s))(banKey gid (BanUserRequest_Subject req) \<mapsto> MarshalBan b))"
proof -
  let ?b = "\<lparr>b_Subject = BanUserRequest_Subject req, b_GenealogyID = gid, b_Reason = BanUserRequest_Reason req,
             b_By = q_Subject q, b_At = q_Now q 0\<rparr>"
  let ?st = "if b_At ?b = 0 then ?b\<lparr>b_At := q_Now q 1\<rparr> else ?b"
  let ?k = "banKey gid (BanUserRequest_Subject req)"
  note wf = server_okD [OF ok]
  from requireRole_run [OF ok, of q "q_Subject q" gid RoleCurator] obtain s1 where
    s1: "recached s s1" "server_ok kv s1" and rq: "requireRole D q (q_Subject q) gid RoleCurator s =
      (case granted (kv (sv_db s)) (q_Subject q) gid of
         None \<Rightarrow> Inl (LError CodePersonNotFound ''genealogy not found or access denied'')
       | Some d \<Rightarrow> if d_Role d < RoleCurator then Inl (insufficient_role (d_Role d) RoleCurator) else nil_err, s1)"
    by blast
  have db: "sv_db s1 = sv_db s" "sv_mgr s1 = sv_mgr s" "sv_fs s1 = sv_fs s" using s1(1) by simp_all
  note run' = run [unfolded BanUser_def Let_def, folded gid_def, unfolded rq]
  show ?thesis
  proof (cases "\<exists>d. granted (kv (sv_db s)) (q_Subject q) gid = Some d \<and> \<not> d_Role d < RoleCurator \<and> BanUserRequest_Subject req \<noteq> []")
    case False
    then have "s' = s1 \<and> (\<exists>e. r = Inl e)"
      using run' by (auto simp: on_db_def PutBan_def split: option.splits if_splits)
    with s1 db show ?thesis by auto
  next
    case True
    then obtain d where d: "granted (kv (sv_db s)) (q_Subject q) gid = Some d" "\<not> d_Role d < RoleCurator"
      and t: "BanUserRequest_Subject req \<noteq> []" by blast
    have sf: "slash_free gid" "gid \<noteq> []" using granted_slash_free [OF wf(1) d(1)] by simp_all
    obtain b where b: "b = ?st" by blast
    have w: "wf_ban b" "b_Subject b = BanUserRequest_Subject req" "b_GenealogyID b = gid"
      using t sf by (simp_all add: wf_ban_def b)
    have put: "PutBan B (q_Now q 1) ?b (sv_db s) = (nil_err, dset (sv_db s) ?k (MarshalBan b))"
      using PutBan_eq [of ?b "q_Now q 1" "sv_db s"] t sf by (simp add: b)
    have "s' = s1\<lparr>sv_db := dset (sv_db s) ?k (MarshalBan b)\<rparr> \<and> (\<exists>p. r = Inr p)"
      using run' d by (simp add: on_db_def db put del: One_nat_def) blast
    moreover have "server_ok kv (s1\<lparr>sv_db := dset (sv_db s) ?k (MarshalBan b)\<rparr>)"
      using platform_wf_ban [OF wf(1) w(1)] w(2,3) wf(2)
      by (intro server_ok_frame [OF s1(2)]) (simp_all add: db counters_wf_frame)
    ultimately show ?thesis
      using db d w by (auto simp: not_less)
  qed
qed

lemma UnbanUser_spec:
  assumes ok: "server_ok kv s" and run: "UnbanUser D q req s = (r, s')"
  defines "gid \<equiv> UnbanUserRequest_GenealogyId req"
  shows "server_ok kv s' \<and> sv_mgr s' = sv_mgr s \<and> sv_fs s' = sv_fs s \<and>
    (case r of
       Inl e \<Rightarrow> sv_db s' = sv_db s
     | Inr p \<Rightarrow> \<exists>d. granted (kv (sv_db s)) (q_Subject q) gid = Some d \<and> RoleCurator \<le> d_Role d \<and>
         kv (sv_db s') = (kv (sv_db s))(banKey gid (UnbanUserRequest_Subject req) := None))"
proof -
  let ?k = "banKey gid (UnbanUserRequest_Subject req)"
  note wf = server_okD [OF ok]
  from requireRole_run [OF ok, of q "q_Subject q" gid RoleCurator] obtain s1 where
    s1: "recached s s1" "server_ok kv s1" and rq: "requireRole D q (q_Subject q) gid RoleCurator s =
      (case granted (kv (sv_db s)) (q_Subject q) gid of
         None \<Rightarrow> Inl (LError CodePersonNotFound ''genealogy not found or access denied'')
       | Some d \<Rightarrow> if d_Role d < RoleCurator then Inl (insufficient_role (d_Role d) RoleCurator) else nil_err, s1)"
    by blast
  have db: "sv_db s1 = sv_db s" "sv_mgr s1 = sv_mgr s" "sv_fs s1 = sv_fs s" using s1(1) by simp_all
  note run' = run [unfolded UnbanUser_def Let_def, folded gid_def, unfolded rq]
  have ok2: "server_ok kv (s1\<lparr>sv_db := ddel (sv_db s) ?k\<rparr>)"
    using platform_wf_del_other(2) [OF wf(1)] wf(2)
    by (intro server_ok_frame [OF s1(2)]) (simp_all add: db counters_wf_frame)
  show ?thesis
  proof (cases "\<exists>d. granted (kv (sv_db s)) (q_Subject q) gid = Some d \<and> \<not> d_Role d < RoleCurator")
    case False
    then have "s' = s1 \<and> (\<exists>e. r = Inl e)" using run' by (auto split: option.splits if_splits)
    with s1 db show ?thesis by auto
  next
    case True
    then have "s' = s1\<lparr>sv_db := ddel (sv_db s) ?k\<rparr> \<and> r = nil_err"
      using run' by (auto simp: on_db_def db Delete_eqs)
    with True ok2 db show ?thesis by (auto simp: not_less)
  qed
qed

lemma GetGenealogy_rpc_spec:
  assumes ok: "server_ok kv s" and run: "GetGenealogy_rpc D q req s = (r, s')"
  defines "gid \<equiv> GetGenealogyRequest_Id req"
  shows "server_ok kv s' \<and> recached s s' \<and>
    r = (case granted (kv (sv_db s)) (q_Subject q) gid of
           None \<Rightarrow> Inl (LError CodePersonNotFound ''genealogy not found or access denied'')
         | Some d \<Rightarrow> Inr \<lparr>GetGenealogyResponse_Genealogy =
             Some (genealogyToProto (projr (gen_at (kv (sv_db s)) gid)) (d_Role d))\<rparr>)"
proof -
  from authz_Resolve_run [OF ok, of q "q_Subject q" gid] obtain s1 where s1: "recached s s1" "server_ok kv s1"
    and auth: "authz_Resolve D q (q_Subject q) gid s =
      (case granted (kv (sv_db s)) (q_Subject q) gid of Some d \<Rightarrow> Inr d | None \<Rightarrow> Inl ErrNotAllowed, s1)" by blast
  note run' = run [unfolded GetGenealogy_rpc_def Let_def, folded gid_def, unfolded auth]
  show ?thesis
  proof (cases "granted (kv (sv_db s)) (q_Subject q) gid")
    case None
    with run' s1 show ?thesis by (auto simp: mapAuthzError_def)
  next
    case (Some d)
    then obtain g where "gen_at (kv (sv_db s)) gid = Inr g" using granted_genealogy [OF server_okD(1) [OF ok]] by blast
    with Some run' s1 show ?thesis by (auto simp: Get_eqs)
  qed
qed

lemma ListMembers_spec:
  assumes ok: "server_ok kv s" and run: "ListMembers D q req s = (r, s')"
  defines "gid \<equiv> ListMembersRequest_GenealogyId req"
  shows "server_ok kv s' \<and> recached s s' \<and>
    r = (case granted (kv (sv_db s)) (q_Subject q) gid of
           None \<Rightarrow> Inl (LError CodePersonNotFound ''genealogy not found or access denied'')
         | Some d \<Rightarrow> if d_Role d < RoleViewer then Inl (insufficient_role (d_Role d) RoleViewer)
             else Inr \<lparr>ListMembersResponse_Memberships = map membershipToProto (mlist (sv_db s) gid),
                       ListMembersResponse_NextPageToken = []\<rparr>)"
proof -
  from requireRole_run [OF ok, of q "q_Subject q" gid RoleViewer] obtain s1 where
    s1: "recached s s1" "server_ok kv s1" and rq: "requireRole D q (q_Subject q) gid RoleViewer s =
      (case granted (kv (sv_db s)) (q_Subject q) gid of
         None \<Rightarrow> Inl (LError CodePersonNotFound ''genealogy not found or access denied'')
       | Some d \<Rightarrow> if d_Role d < RoleViewer then Inl (insufficient_role (d_Role d) RoleViewer) else nil_err, s1)"
    by blast
  have fold: "fold (\<lambda>m out. out @ [f m]) ms out = out @ map f ms" for f :: "Membership \<Rightarrow> pb_Membership" and ms out
    by (induction ms arbitrary: out) auto
  note run' = run [unfolded ListMembers_def Let_def, folded gid_def, unfolded rq]
  show ?thesis
    using run' s1 by (auto simp: Iterate_eqs [OF server_okD(1) [OF ok]] fold split: option.splits if_splits)
qed

end

section \<open>The private-genealogy counter\<close>

definition private_of :: "(string \<Rightarrow> blob option) \<Rightarrow> string \<Rightarrow> string set" where
  "private_of m sub = {gid. \<exists>g. gen_at m gid = Inr g \<and> g_Visibility g = VisibilityPrivate \<and> g_CreatedBy g = sub}"

text \<open>Every user's counter is the number of private genealogies created by that user.\<close>

definition quota_exact :: "(string \<Rightarrow> blob option) \<Rightarrow> bool" where
  "quota_exact m \<longleftrightarrow> (\<forall>sub. finite (private_of m sub) \<and>
     unat (counter_at m (userPrivateGenCountKey sub)) = card (private_of m sub))"

definition quota_within :: "uint64 \<Rightarrow> (string \<Rightarrow> blob option) \<Rightarrow> bool" where
  "quota_within lim m \<longleftrightarrow> (\<forall>sub. card (private_of m sub) \<le> unat lim)"

text \<open>The adjustment of the counter when a genealogy of \<open>sub\<close> was or becomes private.\<close>

definition count_delta :: "bool \<Rightarrow> bool \<Rightarrow> string \<Rightarrow> (string \<Rightarrow> blob option) \<Rightarrow> string \<Rightarrow> blob option" where
  "count_delta was now sub m =
     (let k = userPrivateGenCountKey sub in
      if was \<and> \<not> now then m(k \<mapsto> Raw (PutUint64 (counter_add (counter_at m k) (- 1))))
      else if \<not> was \<and> now then m(k \<mapsto> Raw (PutUint64 (counter_add (counter_at m k) 1)))
      else m)"

lemma count_delta_same [simp]: "count_delta b b sub m = m"
  by (simp add: count_delta_def)

lemma count_delta_wf:
  assumes "platform_wf m" and "counters_wf m"
  shows "platform_wf (count_delta was now sub m)" "counters_wf (count_delta was now sub m)"
  using assms by (simp_all add: count_delta_def Let_def counters_wf_upd platform_wf_counter)

lemma count_delta_frame [simp]:
  "\<not> prefix ''c/'' k \<Longrightarrow> count_delta was now sub m k = m k"
  "granted (count_delta was now sub m) s g = granted m s g"
  "private_of (count_delta was now sub m) s = private_of m s"
  by (auto simp: count_delta_def Let_def private_of_def)

lemma unat_count_delta:
  "\<not> was \<and> now \<Longrightarrow> unat (counter_at m (userPrivateGenCountKey sub)) < 2 ^ 64 - 1 \<Longrightarrow>
     unat (counter_at (count_delta was now sub m) (userPrivateGenCountKey sub)) =
       unat (counter_at m (userPrivateGenCountKey sub)) + 1"
  "was \<and> \<not> now \<Longrightarrow> unat (counter_at (count_delta was now sub m) (userPrivateGenCountKey sub)) =
       unat (counter_at m (userPrivateGenCountKey sub)) - 1"
  "sub' \<noteq> sub \<Longrightarrow> counter_at (count_delta was now sub m) (userPrivateGenCountKey sub') =
       counter_at m (userPrivateGenCountKey sub')"
  by (auto simp: count_delta_def Let_def counter_add_one counter_add_minus_one)

text \<open>
  One genealogy \<open>gid\<close> of creator \<open>sub\<close> changes from contents \<open>m\<close> to \<open>m'\<close>, and
  the counter follows.
\<close>

lemma private_of_change:
  assumes "\<And>g. g \<noteq> gid \<Longrightarrow> m' (genealogyKey g) = m (genealogyKey g)"
    and "m' (genealogyKey gid) = None \<and> \<not> now \<or>
      (\<exists>g. m' (genealogyKey gid) = Some (MarshalGenealogy g) \<and> g_CreatedBy g = sub \<and> (now \<longleftrightarrow> g_Visibility g = VisibilityPrivate))"
    and "\<And>s. s \<noteq> sub \<Longrightarrow> gid \<notin> private_of m s"
  shows "private_of m' s = (if s = sub \<and> now then insert gid (private_of m s) else private_of m s - {gid})"
proof -
  have oth: "gen_at m' g = gen_at m g" if "g \<noteq> gid" for g using assms(1) [OF that] by (simp add: lookup_def)
  have "g \<in> private_of m' s \<longleftrightarrow> g \<in> (if s = sub \<and> now then insert gid (private_of m s) else private_of m s - {gid})" for g
  proof (cases "g = gid")
    case True
    have "gid \<in> private_of m' s \<longleftrightarrow> s = sub \<and> now" using assms(2) by (auto simp: private_of_def lookup_def)
    with True show ?thesis by simp
  next
    case False
    with oth [OF False] show ?thesis by (simp add: private_of_def)
  qed
  then show ?thesis by blast
qed

lemma quota_exact_change:
  assumes exact: "quota_exact m"
    and change: "\<And>s. private_of m' s = (if s = sub \<and> now then insert gid (private_of m s) else private_of m s - {gid})"
    and counters: "\<And>s. counter_at m' (userPrivateGenCountKey s) = counter_at m (userPrivateGenCountKey s)"
    and was: "was \<longleftrightarrow> gid \<in> private_of m sub" and others: "\<And>s. s \<noteq> sub \<Longrightarrow> gid \<notin> private_of m s"
    and room: "\<not> was \<and> now \<Longrightarrow> card (private_of m sub) < 2 ^ 64 - 1"
  shows "quota_exact (count_delta was now sub m')"
  unfolding quota_exact_def
proof (intro allI conjI)
  fix s
  note ex = exact [unfolded quota_exact_def, rule_format]
  show "finite (private_of (count_delta was now sub m') s)" using ex [of s] ex [of sub] by (simp add: change)
  show "unat (counter_at (count_delta was now sub m') (userPrivateGenCountKey s)) = card (private_of (count_delta was now sub m') s)"
  proof (cases "s = sub")
    case False
    then show ?thesis using ex [of s] others [OF False] by (simp add: unat_count_delta change counters)
  next
    case True
    consider "\<not> was" "now" | "was" "\<not> now" | "was = now" by blast
    then show ?thesis
    proof cases
      case 1
      then show ?thesis
        using True ex [of sub] was room unat_count_delta(1) [of was now m' sub] by (simp add: change counters)
    next
      case 2
      then show ?thesis
        using True ex [of sub] was unat_count_delta(2) [of was now sub m'] by (simp add: change counters)
    next
      case 3
      then show ?thesis using True ex [of sub] was by (cases now) (simp_all add: change counters insert_absorb)
    qed
  qed
qed

lemma quota_within_change:
  assumes "quota_exact m" and "quota_within lim m"
    and "\<And>s. private_of m' s = (if s = sub \<and> now then insert gid (private_of m s) else private_of m s - {gid})"
    and "now \<Longrightarrow> gid \<notin> private_of m sub \<Longrightarrow> card (private_of m sub) < unat lim"
  shows "quota_within lim m'"
  unfolding quota_within_def
proof
  fix s
  have fin: "finite (private_of m s)" and le: "card (private_of m s) \<le> unat lim"
    using assms(1,2) by (simp_all add: quota_exact_def quota_within_def)
  show "card (private_of m' s) \<le> unat lim"
  proof (cases "s = sub \<and> now")
    case True
    then show ?thesis using fin le assms(3,4) by (cases "gid \<in> private_of m sub") (auto simp: insert_absorb)
  next
    case False
    then show ?thesis using assms(3) [of s] le card_Diff1_le [of "private_of m s" gid] by auto
  qed
qed

section \<open>Genealogies\<close>

context service
begin

lemma Count_run:
  assumes "counters_wf (kv (sv_db s))"
  shows "on_db (IncPrivateGenealogy B sub) s = (nil_err, s\<lparr>sv_db := dinc (userPrivateGenCountKey sub) 1 (sv_db s)\<rparr>)"
    and "on_db (DecPrivateGenealogy B sub) s = (nil_err, s\<lparr>sv_db := dinc (userPrivateGenCountKey sub) (- 1) (sv_db s)\<rparr>)"
    and "kv (dinc (userPrivateGenCountKey sub) 1 (sv_db s)) = count_delta False True sub (kv (sv_db s))"
    and "kv (dinc (userPrivateGenCountKey sub) (- 1) (sv_db s)) = count_delta True False sub (kv (sv_db s))"
  using assms by (simp_all add: on_db_def Quota_eqs count_delta_def Let_def)

lemma Check_run:
  assumes "counters_wf (kv db)"
  shows "CheckCreatePrivateGenealogy B (dp_limits D) sub db = nil_err \<longleftrightarrow>
    MaxPrivateGenealogiesPerUser (dp_limits D) = 0 \<or>
    counter_at (kv db) (userPrivateGenCountKey sub) < MaxPrivateGenealogiesPerUser (dp_limits D)"
  using assms by (simp add: Quota_eqs)

text \<open>
  A new genealogy: its record, the creator's membership as Owner, and the counter. The id is
  new; nobody had a decision on it.
\<close>

lemma CreateGenealogy_spec:
  assumes ok: "server_ok kv s" and run: "CreateGenealogy D q req s = (r, s')"
    and id: "slash_free (q_uuid q)" "q_uuid q \<noteq> []" and fresh: "kv (sv_db s) (genealogyKey (q_uuid q)) = None"
  defines "vis \<equiv> (if visibilityFromProto (CreateGenealogyRequest_Visibility req) = 0 then VisibilityPrivate
                   else visibilityFromProto (CreateGenealogyRequest_Visibility req))"
    and "sub \<equiv> q_Subject q" and "gid \<equiv> q_uuid q"
  shows "server_ok kv s' \<and> sv_mgr s' = sv_mgr s \<and> sv_fs s' = sv_fs s \<and>
    (case r of
       Inl e \<Rightarrow> s' = s
     | Inr p \<Rightarrow> sub \<noteq> [] \<and> (\<exists>g m. g_ID g = gid \<and> g_Visibility g = vis \<and> g_CreatedBy g = sub \<and> wf_genealogy g \<and>
         wf_membership m \<and> m_Subject m = sub \<and> m_GenealogyID m = gid \<and> m_Role m = RoleOwner \<and>
         (vis = VisibilityPrivate \<longrightarrow> CheckCreatePrivateGenealogy B (dp_limits D) sub (sv_db s) = nil_err) \<and>
         kv (sv_db s') = count_delta False (vis = VisibilityPrivate) sub ((kv (sv_db s))
           (genealogyKey gid \<mapsto> MarshalGenealogy g, membershipKey gid sub \<mapsto> MarshalMembership m,
            reverseMembershipKey sub gid \<mapsto> MarshalMembership m))))"
proof -
  define g where "g = \<lparr>g_ID = gid, g_Name = TrimSpace (CreateGenealogyRequest_Name req), g_Visibility = vis,
    g_CreatedBy = sub, g_CreatedAt = q_Now q 0\<rparr>"
  define m0 where "m0 = \<lparr>m_Subject = sub, m_GenealogyID = gid, m_Role = RoleOwner, m_GrantedBy = sub, m_GrantedAt = q_Now q 1\<rparr>"
  define m where "m = stamp (q_Now q 2) m0"
  define db1 where "db1 = dset (sv_db s) (genealogyKey gid) (MarshalGenealogy g)"
  define db2 where "db2 = dput_mem (q_Now q 2) m0 db1"
  define db3 where "db3 = (if vis = VisibilityPrivate then dinc (userPrivateGenCountKey sub) 1 db2 else db2)"
  note wf = server_okD [OF ok]
  note run' = run [unfolded CreateGenealogy_def Let_def, folded vis_def sub_def gid_def,
      folded g_def m0_def]
  have vis: "Visibility_IsValid vis"
    using visibilityFromProto_range [of "CreateGenealogyRequest_Visibility req"] by (auto simp: vis_def Visibility_IsValid_def)
  have id': "slash_free gid" "gid \<noteq> []" using id by (simp_all add: gid_def)
  have wfg: "wf_genealogy g" "g_ID g = gid" "g_Visibility g = vis" "g_CreatedBy g = sub"
    using vis id' by (simp_all add: wf_genealogy_def g_def)
  show ?thesis
  proof (cases "sub = [] \<or> TrimSpace (CreateGenealogyRequest_Name req) = [] \<or>
      vis = VisibilityPrivate \<and> CheckCreatePrivateGenealogy B (dp_limits D) sub (sv_db s) \<noteq> nil_err")
    case True
    then have "s' = s \<and> (\<exists>e. r = Inl e)" using run' by (auto split: if_splits)
    with ok show ?thesis by auto
  next
    case False
    then have sub: "sub \<noteq> []" and chk: "vis = VisibilityPrivate \<longrightarrow>
        CheckCreatePrivateGenealogy B (dp_limits D) sub (sv_db s) = nil_err" by auto
    have wfm: "wf_membership m" "m_Subject m = sub" "m_GenealogyID m = gid" "m_Role m = RoleOwner"
      using sub id' by (simp_all add: wf_membership_def m_def m0_def Role_IsValid_iff)
    have acc: "m_Subject m0 \<noteq> []" "m_GenealogyID m0 \<noteq> []" "Role_IsValid (m_Role m0)"
      "m_Subject m0 = sub" "m_GenealogyID m0 = gid"
      using sub id' by (simp_all add: m0_def Role_IsValid_iff)
    let ?m2 = "(kv (sv_db s))(genealogyKey gid \<mapsto> MarshalGenealogy g, membershipKey gid sub \<mapsto> MarshalMembership m,
            reverseMembershipKey sub gid \<mapsto> MarshalMembership m)"
    have kv2: "kv db2 = ?m2" using acc by (simp add: db2_def db1_def m_def)
    have wf2: "platform_wf ?m2" "counters_wf ?m2"
      using platform_wf_membership [OF platform_wf_genealogy [OF wf(1) wfg(1)] wfm(1)] wfg(2) wfm(2,3)
      by (simp_all add: counters_wf_index_upd counters_wf_frame wf(2))
    have kv3: "kv db3 = count_delta False (vis = VisibilityPrivate) sub ?m2"
      using Count_run(3) [of "s\<lparr>sv_db := db2\<rparr>" sub] wf2 kv2 by (simp add: db3_def)
    have put: "PutGenealogy B g (sv_db s) = (nil_err, db1)" using PutGenealogy_eq [of g "sv_db s"] vis id' wfg by (simp add: db1_def)
    have pm: "PutMembership B (q_Now q 2) m0 db1 = (nil_err, db2)" using acc by (simp add: PutMembership_if db2_def)
    have inc: "IncPrivateGenealogy B sub db2 = (nil_err, dinc (userPrivateGenCountKey sub) 1 db2)"
      using wf2 kv2 by (simp add: Quota_eqs)
    have s': "s' = on_cache (Invalidate sub gid) (s\<lparr>sv_db := db3\<rparr>) \<and> (\<exists>p. r = Inr p)"
      using run' False by (auto simp: on_db_def put pm inc db3_def)
    have "granted (kv db3) x y = granted (kv (sv_db s)) x y" if "granted (kv (sv_db s)) x y \<noteq> None" for x y
    proof -
      have ne: "y \<noteq> gid" using that granted_no_genealogy [of "kv (sv_db s)" gid x] fresh by (auto simp: gid_def)
      then show ?thesis
        using granted_upd_membership [OF platform_wf_genealogy [OF wf(1) wfg(1)] id'(1), of x sub y] wfg(2)
        by (simp add: kv3 granted_upd_genealogy)
    qed
    then have "coherent (kv db3) (sv_cache s)" using coherent_mono [OF wf(3)] by blast
    then have "server_ok kv s'"
      using s' coherent_Invalidate [of "kv db3" "sv_cache s" "kv db3" sub gid] count_delta_wf [OF wf2] kv3
      by (simp add: server_ok_def on_cache_def)
    moreover obtain p where p: "r = Inr p" using s' by blast
    moreover have "kv (sv_db s') = count_delta False (vis = VisibilityPrivate) sub ?m2"
      "sv_mgr s' = sv_mgr s" "sv_fs s' = sv_fs s" using s' kv3 by (simp_all add: on_cache_def)
    ultimately show ?thesis unfolding p sum.case
      using sub wfg wfm chk by (intro conjI exI [of _ g] exI [of _ m]) assumption+
  qed
qed

end

text \<open>The contents without a genealogy and without its memberships.\<close>

definition drop_genealogy :: "string \<Rightarrow> (string \<Rightarrow> blob option) \<Rightarrow> string \<Rightarrow> blob option" where
  "drop_genealogy gid m =
     (\<lambda>k. if k = genealogyKey gid \<or> (\<exists>sub. k = membershipKey gid sub \<or> k = reverseMembershipKey sub gid)
          then None else m k)"

lemma drop_genealogy_wf:
  assumes "platform_wf m" and "slash_free gid"
  shows "platform_wf (drop_genealogy gid m)"
proof -
  have "wf_index (drop_genealogy gid m)" using assms unfolding platform_wf_def wf_index_def drop_genealogy_def
    by (auto simp: membershipKey_inject reverseMembershipKey_inject)
  then show ?thesis
    using assms(1) unfolding platform_wf_def wf_gens_def wf_mems_def wf_revs_def wf_bans_def drop_genealogy_def
    by (auto split: if_splits)
qed

lemma drop_genealogy_counters_wf: "counters_wf m \<Longrightarrow> counters_wf (drop_genealogy gid m)"
  unfolding counters_wf_def drop_genealogy_def by (auto split: if_splits)

lemma granted_drop_genealogy:
  assumes "platform_wf m" and "slash_free gid"
  shows "granted (drop_genealogy gid m) sub g = (if g = gid then None else granted m sub g)"
proof (cases "g = gid")
  case True
  then show ?thesis by (simp add: granted_no_genealogy drop_genealogy_def)
next
  case ne: False
  show ?thesis
  proof (cases "slash_free g")
    case True
    with ne assms(2) have "granted (drop_genealogy gid m) sub g = granted m sub g"
      by (intro granted_frame) (auto simp: membershipKey_inject drop_genealogy_def)
    with ne show ?thesis by simp
  next
    case False
    then have "m (genealogyKey g) = None" using wf_gen_cases [OF assms(1), of g] by (auto simp: wf_genealogy_def)
    then show ?thesis by (simp add: granted_no_genealogy drop_genealogy_def)
  qed
qed

context service
begin

lemma UpdateVisibility_spec:
  assumes ok: "server_ok kv s" and run: "UpdateVisibility D q req s = (r, s')"
  defines "gid \<equiv> UpdateVisibilityRequest_Id req" and "vis \<equiv> visibilityFromProto (UpdateVisibilityRequest_Visibility req)"
  shows "server_ok kv s' \<and> sv_mgr s' = sv_mgr s \<and> sv_fs s' = sv_fs s \<and>
    (case r of
       Inl e \<Rightarrow> sv_db s' = sv_db s
     | Inr p \<Rightarrow> \<exists>d g0. granted (kv (sv_db s)) (q_Subject q) gid = Some d \<and> RoleOwner \<le> d_Role d \<and>
         Visibility_IsValid vis \<and> gen_at (kv (sv_db s)) gid = Inr g0 \<and>
         (g_Visibility g0 \<noteq> VisibilityPrivate \<and> vis = VisibilityPrivate \<longrightarrow>
            CheckCreatePrivateGenealogy B (dp_limits D) (g_CreatedBy g0) (sv_db s) = nil_err) \<and>
         kv (sv_db s') = count_delta (g_Visibility g0 = VisibilityPrivate) (vis = VisibilityPrivate) (g_CreatedBy g0)
           ((kv (sv_db s))(genealogyKey gid \<mapsto> MarshalGenealogy (g0\<lparr>g_Visibility := vis\<rparr>))))"
proof -
  note wf = server_okD [OF ok]
  from requireRole_run [OF ok, of q "q_Subject q" gid RoleOwner] obtain s1 where
    s1: "recached s s1" "server_ok kv s1" and rq: "requireRole D q (q_Subject q) gid RoleOwner s =
      (case granted (kv (sv_db s)) (q_Subject q) gid of
         None \<Rightarrow> Inl (LError CodePersonNotFound ''genealogy not found or access denied'')
       | Some d \<Rightarrow> if d_Role d < RoleOwner then Inl (insufficient_role (d_Role d) RoleOwner) else nil_err, s1)"
    by blast
  have db: "sv_db s1 = sv_db s" "sv_mgr s1 = sv_mgr s" "sv_fs s1 = sv_fs s" using s1(1) by simp_all
  note run' = run [unfolded UpdateVisibility_def Let_def, folded gid_def vis_def, unfolded rq]
  show ?thesis
  proof (cases "\<exists>d. granted (kv (sv_db s)) (q_Subject q) gid = Some d \<and> \<not> d_Role d < RoleOwner \<and> vis \<noteq> 0")
    case False
    then have "s' = s1 \<and> (\<exists>e. r = Inl e)" using run' by (auto split: option.splits if_splits)
    with s1 db show ?thesis by auto
  next
    case True
    then obtain d where d: "granted (kv (sv_db s)) (q_Subject q) gid = Some d" "\<not> d_Role d < RoleOwner" "vis \<noteq> 0" by blast
    have vis: "Visibility_IsValid vis" using visibilityFromProto_range d(3) by (auto simp: vis_def)
    obtain g0 where g0: "gen_at (kv (sv_db s)) gid = Inr g0" using granted_genealogy [OF wf(1) d(1)] by blast
    have id: "g_ID g0 = gid" "slash_free gid" "gid \<noteq> []" using wf_gen_at [OF wf(1) g0] by (auto simp: wf_genealogy_def)
    let ?own = "g_CreatedBy g0"
    let ?chk = "CheckCreatePrivateGenealogy B (dp_limits D) ?own (sv_db s)"
    define g where "g = g0\<lparr>g_Visibility := vis\<rparr>"
    have wfg: "wf_genealogy g" "g_ID g = gid" using id vis by (simp_all add: g_def wf_genealogy_def)
    let ?m1 = "(kv (sv_db s))(genealogyKey gid \<mapsto> MarshalGenealogy g)"
    define db1 where "db1 = dset (sv_db s) (genealogyKey gid) (MarshalGenealogy g)"
    have put: "PutGenealogy B (g0\<lparr>g_Visibility := vis\<rparr>) (sv_db s) = (nil_err, db1)"
      using PutGenealogy_eq [of g "sv_db s"] vis id by (simp add: g_def db1_def)
    have kv1: "kv db1 = ?m1" by (simp add: db1_def)
    have wf1: "platform_wf ?m1" "counters_wf ?m1"
      using platform_wf_genealogy [OF wf(1) wfg(1)] wfg(2) wf(2) by (simp_all add: counters_wf_frame)
    define db2 where "db2 = (if g_Visibility g0 = VisibilityPrivate \<and> vis \<noteq> VisibilityPrivate
        then dinc (userPrivateGenCountKey ?own) (- 1) db1
        else if g_Visibility g0 \<noteq> VisibilityPrivate \<and> vis = VisibilityPrivate
        then dinc (userPrivateGenCountKey ?own) 1 db1 else db1)"
    have kv2: "kv db2 = count_delta (g_Visibility g0 = VisibilityPrivate) (vis = VisibilityPrivate) ?own ?m1"
      using Count_run(3,4) [of "s\<lparr>sv_db := db1\<rparr>" ?own] wf1 kv1 by (auto simp: db2_def)
    have cnt: "IncPrivateGenealogy B sub db1 = (nil_err, dinc (userPrivateGenCountKey sub) 1 db1)"
      "DecPrivateGenealogy B sub db1 = (nil_err, dinc (userPrivateGenCountKey sub) (- 1) db1)" for sub
      using wf1 kv1 by (simp_all add: Quota_eqs)
    have "s' = s1 \<and> (\<exists>e. r = Inl e) \<or>
        (g_Visibility g0 \<noteq> VisibilityPrivate \<and> vis = VisibilityPrivate \<longrightarrow> ?chk = nil_err) \<and>
        s' = on_cache (Invalidate [] gid) (s1\<lparr>sv_db := db2\<rparr>) \<and> (\<exists>p. r = Inr p)"
      using run' d g0 by (auto simp: Get_eqs db on_db_def put cnt db2_def split: if_splits)
    moreover have "server_ok kv (on_cache (Invalidate [] gid) (s1\<lparr>sv_db := db2\<rparr>))"
      using count_delta_wf [OF wf1] kv2 by (intro server_ok_genealogy [OF s1(2)]) (simp_all add: db granted_upd_genealogy)
    ultimately show ?thesis
      using s1(2) db d vis g0 kv2 by (auto simp: on_cache_def not_less g_def)
  qed
qed

lemma DeleteMemberships_run:
  "kv (sv_db (fold (\<lambda>sub s. snd (on_db (DeleteMembership B gid sub) s)) subs s)) =
     (\<lambda>k. if \<exists>sub \<in> set subs. k = membershipKey gid sub \<or> k = reverseMembershipKey sub gid then None else kv (sv_db s) k)
   \<and> (\<exists>db'. fold (\<lambda>sub s. snd (on_db (DeleteMembership B gid sub) s)) subs s = s\<lparr>sv_db := db'\<rparr>)"
proof (induction subs arbitrary: s)
  case Nil
  show ?case by (auto intro: exI [of _ "sv_db s"])
next
  case (Cons sub subs)
  let ?s = "s\<lparr>sv_db := ddel_mem gid sub (sv_db s)\<rparr>"
  have step: "snd (on_db (DeleteMembership B gid sub) s) = ?s" by (simp add: on_db_def DeleteMembership_eq)
  show ?case using Cons.IH [of ?s] by (simp add: step fun_eq_iff)
qed


lemma DeleteGenealogy_rpc_spec:
  assumes ok: "server_ok kv s" and run: "DeleteGenealogy_rpc D q req s = (r, s')"
  defines "gid \<equiv> DeleteGenealogyRequest_Id req"
  shows "server_ok kv s' \<and>
    (case r of
       Inl e \<Rightarrow> sv_db s' = sv_db s
     | Inr _ \<Rightarrow> \<exists>d g0. granted (kv (sv_db s)) (q_Subject q) gid = Some d \<and> RoleOwner \<le> d_Role d \<and>
         gen_at (kv (sv_db s)) gid = Inr g0 \<and>
         sv_mgr s' = fst (snd (Drop (dp_store D) gid (sv_mgr s) (sv_fs s))) \<and>
         kv (sv_db s') = count_delta (g_Visibility g0 = VisibilityPrivate) False (g_CreatedBy g0)
           (drop_genealogy gid (kv (sv_db s))))"
proof -
  note wf = server_okD [OF ok]
  from requireRole_run [OF ok, of q "q_Subject q" gid RoleOwner] obtain s1 where
    s1: "recached s s1" "server_ok kv s1" and rq: "requireRole D q (q_Subject q) gid RoleOwner s =
      (case granted (kv (sv_db s)) (q_Subject q) gid of
         None \<Rightarrow> Inl (LError CodePersonNotFound ''genealogy not found or access denied'')
       | Some d \<Rightarrow> if d_Role d < RoleOwner then Inl (insufficient_role (d_Role d) RoleOwner) else nil_err, s1)"
    by blast
  have db: "sv_db s1 = sv_db s" "sv_mgr s1 = sv_mgr s" "sv_fs s1 = sv_fs s" using s1(1) by simp_all
  note run' = run [unfolded DeleteGenealogy_rpc_def Let_def, folded gid_def, unfolded rq]
  show ?thesis
  proof (cases "\<exists>d. granted (kv (sv_db s)) (q_Subject q) gid = Some d \<and> \<not> d_Role d < RoleOwner")
    case False
    then have "s' = s1 \<and> (\<exists>e. r = Inl e)" using run' by (auto split: option.splits if_splits)
    with s1 db show ?thesis by auto
  next
    case True
    then obtain d where d: "granted (kv (sv_db s)) (q_Subject q) gid = Some d" "\<not> d_Role d < RoleOwner" by blast
    obtain g0 where g0: "gen_at (kv (sv_db s)) gid = Inr g0" using granted_genealogy [OF wf(1) d(1)] by blast
    have sf: "slash_free gid" using granted_slash_free [OF wf(1) d(1)] by simp
    obtain r1 mgr' fs1 where drop: "Drop (dp_store D) gid (sv_mgr s) (sv_fs s) = (r1, mgr', fs1)"
      by (cases "Drop (dp_store D) gid (sv_mgr s) (sv_fs s)")
    obtain r2 fs2 where rm: "RemoveOnDisk (dp_store D) gid mgr' fs1 = (r2, fs2)"
      by (cases "RemoveOnDisk (dp_store D) gid mgr' fs1")
    define s2 where "s2 = s1\<lparr>sv_mgr := mgr', sv_fs := fs2\<rparr>"
    have ok2: "server_ok kv s2" "sv_db s2 = sv_db s" "sv_mgr s2 = mgr'" "sv_fs s2 = fs2"
      using s1(2) db by (simp_all add: s2_def server_ok_def)
    show ?thesis
    proof (cases r2)
      case (Inl e)
      then have "s' = s2 \<and> (\<exists>e. r = Inl e)" using run' d g0 by (auto simp: Get_eqs db drop rm s2_def)
      with ok2 show ?thesis by auto
    next
      case (Inr u)
      define subs where "subs = map m_Subject (mlist (sv_db s) gid)"
      have fold: "fold (\<lambda>m mems. mems @ [f m]) ms mems = mems @ map f ms" for f :: "Membership \<Rightarrow> string" and ms mems
        by (induction ms arbitrary: mems) auto
      let ?s3 = "fold (\<lambda>sub s. snd (on_db (DeleteMembership B gid sub) s)) subs s2"
      obtain db3 where s3: "?s3 = s2\<lparr>sv_db := db3\<rparr>" using DeleteMemberships_run by blast
      define db4 where "db4 = ddel db3 (genealogyKey gid)"
      let ?m4 = "drop_genealogy gid (kv (sv_db s))"
      have gone: "kv (sv_db s) (membershipKey gid sub) = None \<and> kv (sv_db s) (reverseMembershipKey sub gid) = None"
        if "sub \<notin> set subs" for sub
        using that wf_mem_cases [OF wf(1) sf, of sub] set_mlist [OF wf(1) sf] wf(1) sf
        by (force simp: subs_def platform_wf_def wf_index_def)
      have kv4: "kv db4 = ?m4"
        using DeleteMemberships_run [of gid subs s2] gone ok2(2) unfolding s3 by (auto simp: db4_def fun_eq_iff drop_genealogy_def)
      have wf4: "platform_wf ?m4" "counters_wf ?m4"
        using drop_genealogy_wf [OF wf(1) sf] drop_genealogy_counters_wf [OF wf(2)] by simp_all
      have cnt: "DecPrivateGenealogy B sub db4 = (nil_err, dinc (userPrivateGenCountKey sub) (- 1) db4)" for sub
        using wf4 kv4 by (simp add: Quota_eqs)
      define db5 where "db5 = (if g_Visibility g0 = VisibilityPrivate
          then dinc (userPrivateGenCountKey (g_CreatedBy g0)) (- 1) db4 else db4)"
      have kv5: "kv db5 = count_delta (g_Visibility g0 = VisibilityPrivate) False (g_CreatedBy g0) ?m4"
        using Count_run(4) [of "s\<lparr>sv_db := db4\<rparr>" "g_CreatedBy g0"] wf4 kv4 by (auto simp: db5_def)
      have s': "s' = on_cache (Invalidate [] gid) (s2\<lparr>sv_db := db5\<rparr>) \<and> r = nil_err"
        using run' d g0 Inr
        by (simp add: Get_eqs db drop rm Iterate_eqs [OF wf(1)] fold s2_def [symmetric] subs_def [symmetric] s3)
           (simp add: on_db_def Delete_eqs db4_def [symmetric] cnt db5_def split: if_splits)
      have "server_ok kv s'"
        using s' count_delta_wf [OF wf4] kv5 ok2(1,2) granted_drop_genealogy [OF wf(1) sf]
        by (auto intro!: server_ok_genealogy)
      with s' kv5 d g0 ok2 drop show ?thesis by (auto simp: on_cache_def not_less)
    qed
  qed
qed

end

section \<open>Listing\<close>

abbreviation gid_of :: "Genealogy \<times> Role \<Rightarrow> string" where
  "gid_of p \<equiv> g_ID (fst p)"

abbreviation listed :: "Genealogy \<times> Role \<Rightarrow> pb_Genealogy" where
  "listed p \<equiv> genealogyToProto (fst p) (snd p)"

text \<open>Adding candidates in order keeps the first one for each id.\<close>

lemma fold_addUnique:
  assumes "distinct (map gid_of l)"
  shows "\<exists>l'. fold (\<lambda>p. addUnique (fst p) (snd p)) ps (gid_of ` set l, map listed l) =
      (gid_of ` set (l @ l'), map listed (l @ l')) \<and>
    distinct (map gid_of (l @ l')) \<and> set l' \<subseteq> set ps \<and> gid_of ` set (l @ l') = gid_of ` set l \<union> gid_of ` set ps"
  using assms
proof (induction ps arbitrary: l)
  case Nil
  then show ?case by (intro exI [of _ "[]"]) simp
next
  case (Cons p ps)
  show ?case
  proof (cases "gid_of p \<in> gid_of ` set l")
    case True
    with Cons.IH [OF Cons.prems] obtain l' where
      "fold (\<lambda>p. addUnique (fst p) (snd p)) ps (gid_of ` set l, map listed l) =
        (gid_of ` set (l @ l'), map listed (l @ l'))" "distinct (map gid_of (l @ l'))" "set l' \<subseteq> set ps"
      "gid_of ` set (l @ l') = gid_of ` set l \<union> gid_of ` set ps" by blast
    moreover have "addUnique (fst p) (snd p) (gid_of ` set l, map listed l) = (gid_of ` set l, map listed l)"
      using True by (simp add: addUnique_def)
    ultimately show ?thesis using True by (intro exI [of _ l']) auto
  next
    case False
    then have "distinct (map gid_of (l @ [p]))" using Cons.prems by auto
    from Cons.IH [OF this] obtain l' where l':
      "fold (\<lambda>p. addUnique (fst p) (snd p)) ps (gid_of ` set (l @ [p]), map listed (l @ [p])) =
        (gid_of ` set (l @ [p] @ l'), map listed (l @ [p] @ l'))" "distinct (map gid_of (l @ [p] @ l'))"
      "set l' \<subseteq> set ps" "gid_of ` set (l @ [p] @ l') = gid_of ` set (l @ [p]) \<union> gid_of ` set ps" by auto
    moreover have "addUnique (fst p) (snd p) (gid_of ` set l, map listed l) =
        (gid_of ` set (l @ [p]), map listed (l @ [p]))" using False by (simp add: addUnique_def)
    ultimately show ?thesis by (intro exI [of _ "p # l'"]) auto
  qed
qed

context service
begin

text \<open>
  The reverse index under \<open>sub\<close>: the memberships of \<open>sub\<close>, and also those of every
  subject that continues \<open>sub\<close> after a slash.
\<close>

lemma set_ulist:
  assumes "platform_wf (kv db)"
  shows "set (ulist db sub) = {r. (m_Subject r = sub \<or> (\<exists>x. m_Subject r = sub @ ''/'' @ x)) \<and>
    mem_at (kv db) (m_GenealogyID r) (m_Subject r) = Inr r}"
proof -
  have rev: "lookup (kv db) (reverseMembershipKey (m_Subject r) (m_GenealogyID r)) UnmarshalMembership = Inr r \<longleftrightarrow>
      mem_at (kv db) (m_GenealogyID r) (m_Subject r) = Inr r" for r
  proof (cases "slash_free (m_GenealogyID r)")
    case True
    then show ?thesis using assms by (simp add: platform_wf_def wf_index_def lookup_def)
  next
    case False
    have "lookup (kv db) (reverseMembershipKey (m_Subject r) (m_GenealogyID r)) UnmarshalMembership \<noteq> Inr r"
      using assms False unfolding platform_wf_def wf_revs_def lookup_def
      by (auto split: option.splits simp: wf_membership_def)
        (metis Unmarshal_MarshalMembership key_prefixes(9) sum.inject(2) wf_membership_def)
    moreover have "mem_at (kv db) (m_GenealogyID r) (m_Subject r) \<noteq> Inr r"
      using wf_mem_at [OF assms] False by (auto simp: wf_membership_def)
    ultimately show ?thesis by simp
  qed
  have pre: "prefix (''mr/'' @ sub @ ''/'') (reverseMembershipKey t g) \<longleftrightarrow> t = sub \<or> (\<exists>x. t = sub @ ''/'' @ x)"
    if "slash_free g" for t g
  proof -
    have "prefix (''mr/'' @ sub @ ''/'') (reverseMembershipKey t g) \<longleftrightarrow> (\<exists>z. t @ ''/'' @ g = sub @ ''/'' @ z)"
      by (auto simp: reverseMembershipKey_def prefix_def)
    also have "\<dots> \<longleftrightarrow> t = sub \<or> (\<exists>x. t = sub @ ''/'' @ x)"
    proof
      assume "\<exists>z. t @ ''/'' @ g = sub @ ''/'' @ z"
      then obtain z where z: "t @ ''/'' @ g = sub @ ''/'' @ z" ..
      then consider us where "t = sub @ us" "us @ ''/'' @ g = ''/'' @ z"
        | us where "sub = t @ us" "''/'' @ g = us @ ''/'' @ z" by (auto simp: append_eq_append_conv2)
      then show "t = sub \<or> (\<exists>x. t = sub @ ''/'' @ x)"
      proof cases
        case 1
        then show ?thesis by (cases us) auto
      next
        case 2
        then show ?thesis using that by (cases us) (auto simp: slash_free_def)
      qed
    qed auto
    finally show ?thesis .
  qed
  have "set (ulist db sub) = {r. prefix (''mr/'' @ sub @ ''/'') (reverseMembershipKey (m_Subject r) (m_GenealogyID r))
      \<and> lookup (kv db) (reverseMembershipKey (m_Subject r) (m_GenealogyID r)) UnmarshalMembership = Inr r}"
    unfolding ulist_def by (rule scan_records(3) [OF wf_scan(2) [OF assms]])
  moreover have "slash_free (m_GenealogyID r)" if "mem_at (kv db) (m_GenealogyID r) (m_Subject r) = Inr r" for r
    using wf_mem_at [OF assms that] by (simp add: wf_membership_def)
  ultimately show ?thesis unfolding rev using pre by blast
qed


lemma member_candidates:
  assumes wf: "platform_wf (kv db)" and plain: "\<And>gid x. mem_at (kv db) gid (sub @ ''/'' @ x) = Inl ErrNotFound"
  shows "(\<exists>r \<in> set (ulist db sub). gen_at (kv db) (m_GenealogyID r) = Inr g \<and> m_Role r = rl) \<longleftrightarrow>
    gen_at (kv db) (g_ID g) = Inr g \<and> (\<exists>r. mem_at (kv db) (g_ID g) sub = Inr r \<and> m_Role r = rl)"
proof -
  have "r \<in> set (ulist db sub) \<longleftrightarrow> m_Subject r = sub \<and> mem_at (kv db) (m_GenealogyID r) sub = Inr r" for r
    unfolding set_ulist [OF wf] using plain by auto
  moreover have "m_Subject r = sub \<and> m_GenealogyID r = g_ID g"
    if "gen_at (kv db) (g_ID g) = Inr g" "mem_at (kv db) (g_ID g) sub = Inr r" for r
    using wf_gen_at [OF wf that(1)] wf_mem_cases [OF wf, of "g_ID g" sub] that(2) by (auto simp: wf_genealogy_def)
  ultimately show ?thesis using wf_gen_at [OF wf] by metis
qed

text \<open>The candidates of the two passes: the caller's entries in the reverse index, the public genealogies.\<close>

definition member_items where
  "member_items m db sub = {(g, m_Role r) |g r. sub \<noteq> [] \<and> r \<in> set (ulist db sub) \<and> gen_at m (m_GenealogyID r) = Inr g}"

definition public_items where
  "public_items m sub = {(g, if sub \<noteq> [] then RoleContributor else RoleViewer) |g.
     gen_at m (g_ID g) = Inr g \<and> g_Visibility g = VisibilityPublic}"

lemma ListGenealogies_run:
  fixes q :: callenv
  assumes wf: "platform_wf (kv (sv_db s))"
  defines "c1 \<equiv> member_items (kv (sv_db s)) (sv_db s) (q_Subject q)" and "c2 \<equiv> public_items (kv (sv_db s)) (q_Subject q)"
  shows "\<exists>l1 l2. ListGenealogies D q s =
      Inr \<lparr>ListGenealogiesResponse_Genealogies = map listed (l1 @ l2), ListGenealogiesResponse_NextPageToken = []\<rparr> \<and>
    distinct (map gid_of (l1 @ l2)) \<and> set l1 \<subseteq> c1 \<and> gid_of ` set l1 = gid_of ` c1 \<and>
    set l2 \<subseteq> c2 \<and> gid_of ` set (l1 @ l2) = gid_of ` c1 \<union> gid_of ` c2"
proof -
  let ?m = "kv (sv_db s)" and ?sub = "q_Subject q"
  define role where "role = (if ?sub \<noteq> [] then RoleContributor else RoleViewer)"
  define ps1 where "ps1 = (if ?sub \<noteq> [] then [(projr (gen_at ?m (m_GenealogyID r)), m_Role r).
      r \<leftarrow> ulist (sv_db s) ?sub, \<exists>g. gen_at ?m (m_GenealogyID r) = Inr g] else [])"
  define ps2 where "ps2 = [(g, role). g \<leftarrow> glist (sv_db s), g_Visibility g = VisibilityPublic]"
  have f1: "fold (\<lambda>r acc. case gen_at ?m (m_GenealogyID r) of Inl _ \<Rightarrow> acc | Inr g \<Rightarrow> addUnique g (m_Role r) acc) rs acc =
      fold (\<lambda>p. addUnique (fst p) (snd p)) [(projr (gen_at ?m (m_GenealogyID r)), m_Role r).
        r \<leftarrow> rs, \<exists>g. gen_at ?m (m_GenealogyID r) = Inr g] acc" for rs acc
    by (induction rs arbitrary: acc) (auto split: sum.splits)
  have f2: "fold (\<lambda>g acc. if g_Visibility g \<noteq> VisibilityPublic then acc else addUnique g rl acc) gs acc =
      fold (\<lambda>p. addUnique (fst p) (snd p)) [(g, rl). g \<leftarrow> gs, g_Visibility g = VisibilityPublic] acc" for gs acc rl
    by (induction gs arbitrary: acc) auto
  obtain l1 where l1: "fold (\<lambda>p. addUnique (fst p) (snd p)) ps1 ({}, []) = (gid_of ` set l1, map listed l1)"
    "distinct (map gid_of l1)" "set l1 \<subseteq> set ps1" "gid_of ` set l1 = gid_of ` set ps1"
    using fold_addUnique [of "[]" ps1] by auto
  obtain l2 where l2: "fold (\<lambda>p. addUnique (fst p) (snd p)) ps2 (gid_of ` set l1, map listed l1) =
      (gid_of ` set (l1 @ l2), map listed (l1 @ l2))"
    "distinct (map gid_of (l1 @ l2))" "set l2 \<subseteq> set ps2" "gid_of ` set (l1 @ l2) = gid_of ` set l1 \<union> gid_of ` set ps2"
    using fold_addUnique [OF l1(2), of ps2] by blast
  have run: "ListGenealogies D q s =
      Inr \<lparr>ListGenealogiesResponse_Genealogies = map listed (l1 @ l2), ListGenealogiesResponse_NextPageToken = []\<rparr>"
  proof (cases "?sub = []")
    case True
    then have r: "role = RoleViewer" by (simp add: role_def)
    from True l1(1) l2(1) [unfolded ps2_def r] show ?thesis
      by (simp add: ListGenealogies_def Let_def Iterate_eqs [OF wf] f2 ps1_def
          del: VisibilityPublic_def RoleViewer_def)
  next
    case False
    then have r: "role = RoleContributor" by (simp add: role_def)
    from False l1(1) l2(1) [unfolded ps2_def r] show ?thesis
      by (simp add: ListGenealogies_def Let_def Iterate_eqs [OF wf] Get_eqs f1 f2 ps1_def
          del: VisibilityPublic_def RoleContributor_def)
  qed
  have "set ps1 = c1" unfolding ps1_def c1_def member_items_def by force
  moreover have "set ps2 = c2"
    unfolding ps2_def c2_def public_items_def role_def using set_glist(1) [OF wf] by auto
  ultimately show ?thesis using run l1(3,4) l2(2,3,4) by (intro exI [of _ l1] exI [of _ l2]) simp
qed

text \<open>
  What \<open>ListGenealogies\<close> returns when no stored subject continues the caller's after a
  slash: the genealogies that are public or have the caller as a member, each once, with the
  role the access rule gives.
\<close>

lemma ListGenealogies_spec:
  assumes wf: "platform_wf (kv (sv_db s))"
    and plain: "\<And>gid x. mem_at (kv (sv_db s)) gid (q_Subject q @ ''/'' @ x) = Inl ErrNotFound"
  shows "\<exists>items. ListGenealogies D q s =
      Inr \<lparr>ListGenealogiesResponse_Genealogies = map listed items, ListGenealogiesResponse_NextPageToken = []\<rparr> \<and>
    distinct (map gid_of items) \<and>
    (\<forall>g role. (g, role) \<in> set items \<longleftrightarrow>
       gen_at (kv (sv_db s)) (g_ID g) = Inr g \<and>
       (\<exists>d. granted (kv (sv_db s)) (q_Subject q) (g_ID g) = Some d \<and> d_Role d = role \<and>
            (\<not> d_Implicit d \<or> g_Visibility g = VisibilityPublic)))"
proof -
  let ?m = "kv (sv_db s)" and ?sub = "q_Subject q"
  let ?c1 = "member_items ?m (sv_db s) ?sub" and ?c2 = "public_items ?m ?sub"
  define role where "role = (if ?sub \<noteq> [] then RoleContributor else RoleViewer)"
  from ListGenealogies_run [OF wf, of q] obtain l1 l2 where
    run: "ListGenealogies D q s =
      Inr \<lparr>ListGenealogiesResponse_Genealogies = map listed (l1 @ l2), ListGenealogiesResponse_NextPageToken = []\<rparr>"
    and dist: "distinct (map gid_of (l1 @ l2))" and l1: "set l1 \<subseteq> ?c1" "gid_of ` set l1 = gid_of ` ?c1"
    and l2: "set l2 \<subseteq> ?c2" "gid_of ` set (l1 @ l2) = gid_of ` ?c1 \<union> gid_of ` ?c2"
    by (elim exE conjE) (rule that; assumption)
  have p1: "(g, rl) \<in> ?c1 \<longleftrightarrow> ?sub \<noteq> [] \<and> gen_at ?m (g_ID g) = Inr g \<and>
      (\<exists>r. mem_at ?m (g_ID g) ?sub = Inr r \<and> m_Role r = rl)" for g rl
  proof -
    have "(g, rl) \<in> ?c1 \<longleftrightarrow> ?sub \<noteq> [] \<and>
        (\<exists>r \<in> set (ulist (sv_db s) ?sub). gen_at ?m (m_GenealogyID r) = Inr g \<and> m_Role r = rl)"
      unfolding member_items_def by blast
    then show ?thesis using member_candidates [OF wf plain, of g rl] by simp
  qed
  have p2: "(g, rl) \<in> ?c2 \<longleftrightarrow> gen_at ?m (g_ID g) = Inr g \<and> g_Visibility g = VisibilityPublic \<and> rl = role" for g rl
    by (auto simp: public_items_def role_def)
  have pub: "implicitRole VisibilityPublic (?sub \<noteq> []) = role" "role \<noteq> RoleNone"
    by (simp_all add: implicitRole_def role_def)
  have disj: "gid_of ` set l1 \<inter> gid_of ` set l2 = {}" using dist by simp
  have in_ids: "(g, rl) \<in> A \<Longrightarrow> g_ID g \<in> gid_of ` A" for g rl and A :: "(Genealogy \<times> Role) set"
    by (metis fst_conv imageI)
  have "(g, rl) \<in> set (l1 @ l2) \<longleftrightarrow> gen_at ?m (g_ID g) = Inr g \<and>
       (\<exists>d. granted ?m ?sub (g_ID g) = Some d \<and> d_Role d = rl \<and> (\<not> d_Implicit d \<or> g_Visibility g = VisibilityPublic))" for g rl
  proof (cases "gen_at ?m (g_ID g) = Inr g")
    case False
    then show ?thesis using l1(1) l2(1) p1 p2 by auto
  next
    case gen: True
    show ?thesis
    proof (cases "?sub \<noteq> [] \<and> (\<exists>r. mem_at ?m (g_ID g) ?sub = Inr r)")
      case True
      then obtain r where r: "?sub \<noteq> []" "mem_at ?m (g_ID g) ?sub = Inr r" by blast
      then have "(g, m_Role r) \<in> ?c1" using p1 gen by blast
      then have id1: "g_ID g \<in> gid_of ` set l1" unfolding l1(2) by (rule in_ids)
      then obtain g' rl' where p: "(g', rl') \<in> set l1" and id: "g_ID g' = g_ID g" by auto
      from p l1(1) have "(g', rl') \<in> ?c1" by blast
      from this [unfolded p1 id] have "(g', rl') = (g, m_Role r)" using gen r by simp
      with p have "(g, m_Role r) \<in> set l1" by simp
      moreover have "(g, rl) \<notin> set l2" using id1 disj in_ids [of g rl "set l2"] by blast
      moreover have "(g, rl) \<in> set l1 \<Longrightarrow> rl = m_Role r" using l1(1) p1 [of g rl] r by auto
      ultimately show ?thesis using gen r by (auto simp: granted_eq)
    next
      case False
      then have no: "(g', rl') \<in> set l1 \<Longrightarrow> g_ID g' \<noteq> g_ID g" for g' rl' using l1(1) p1 [of g' rl'] by auto
      have "?sub = [] \<or> (\<exists>e. mem_at ?m (g_ID g) ?sub = Inl e)"
        using False by (cases "mem_at ?m (g_ID g) ?sub") auto
      moreover have "(g, rl) \<notin> set l1" using no by blast
      moreover have "(g, rl) \<in> set l2 \<longleftrightarrow> g_Visibility g = VisibilityPublic \<and> rl = role"
      proof
        assume rl: "g_Visibility g = VisibilityPublic \<and> rl = role"
        then have "(g, rl) \<in> ?c2" using p2 gen by simp
        then have "g_ID g \<in> gid_of ` set (l1 @ l2)" unfolding l2(2) using in_ids by blast
        then obtain p where p0: "g_ID g = gid_of p" "p \<in> set (l1 @ l2)" by (rule imageE)
        obtain g' rl' where pe: "p = (g', rl')" by (cases p)
        have id: "g_ID g' = g_ID g" and p: "(g', rl') \<in> set l2" using p0 no [of g' rl'] by (auto simp: pe)
        from p l2(1) have "(g', rl') \<in> ?c2" by blast
        from this [unfolded p2 id] have "(g', rl') = (g, rl)" using gen rl by simp
        with p show "(g, rl) \<in> set l2" by simp
      qed (use l2(1) p2 in auto)
      ultimately show ?thesis using gen pub
        by (auto simp: granted_eq Let_def implicitRole_def simp del: VisibilityPublic_def split: if_splits)
    qed
  qed
  then show ?thesis using run dist by blast
qed

end

end
