(* ===== verification/Genealogies_Props.thy ===== *)
theory Genealogies_Props
  imports Genealogies_Laws
begin

text \<open>
  The properties of the genealogies service, each with its instance on a concrete server: an
  in-memory database with one genealogy, its owner and a curator.
\<close>

section \<open>A concrete server\<close>

text \<open>
  An in-memory database with one genealogy, its owner and a curator, for evaluating the
  handlers.
\<close>

definition sim_deps :: "(memdb, memdb, Proposal list, string) platformDeps" where
  "sim_deps = \<lparr>dp_badger = mem_badger, dp_store = sim_fs, dp_limits = Default\<rparr>"

interpretation sim: service sim_deps map_of map_of
  using mem.badger_total_axioms by (simp add: service_def sim_deps_def)

definition sim_gen :: Genealogy where
  "sim_gen = \<lparr>g_ID = ''g1'', g_Name = ''Smith'', g_Visibility = VisibilityPrivate, g_CreatedBy = ''ann'', g_CreatedAt = 7\<rparr>"

definition sim_member :: "string \<Rightarrow> Role \<Rightarrow> Membership" where
  "sim_member sub role =
     \<lparr>m_Subject = sub, m_GenealogyID = ''g1'', m_Role = role, m_GrantedBy = ''ann'', m_GrantedAt = 7\<rparr>"

definition sim_rows :: "string \<Rightarrow> Role \<Rightarrow> memdb" where
  "sim_rows sub role =
     [(reverseMembershipKey sub ''g1'', MarshalMembership (sim_member sub role)),
      (membershipKey ''g1'' sub, MarshalMembership (sim_member sub role))]"

definition sim_db :: memdb where
  "sim_db = (userPrivateGenCountKey ''ann'', Raw (PutUint64 1)) # sim_rows ''bob'' RoleCurator @ sim_rows ''ann'' RoleOwner @
     [(genealogyKey ''g1'', MarshalGenealogy sim_gen)]"

definition sim_server :: "(memdb, string, Proposal list) server" where
  "sim_server = \<lparr>sv_db = sim_db, sv_cache = NewResolver 0, sv_mgr = sim_mgr, sv_fs = []\<rparr>"

definition sim_call :: "string \<Rightarrow> callenv" where
  "sim_call sub = \<lparr>q_Subject = sub, q_t_get = 10, q_t_put = 10, q_Now = (\<lambda>_. 9), q_uuid = ''g2''\<rparr>"

lemma sim_db_eq:
  "map_of sim_db = (Map.empty(genealogyKey ''g1'' \<mapsto> MarshalGenealogy sim_gen))
     (membershipKey ''g1'' ''ann'' \<mapsto> MarshalMembership (sim_member ''ann'' RoleOwner),
      reverseMembershipKey ''ann'' ''g1'' \<mapsto> MarshalMembership (sim_member ''ann'' RoleOwner),
      membershipKey ''g1'' ''bob'' \<mapsto> MarshalMembership (sim_member ''bob'' RoleCurator),
      reverseMembershipKey ''bob'' ''g1'' \<mapsto> MarshalMembership (sim_member ''bob'' RoleCurator),
      userPrivateGenCountKey ''ann'' \<mapsto> Raw (PutUint64 1))"
  by (simp add: sim_db_def sim_rows_def)

lemma sim_db_wf: "platform_wf (map_of sim_db)" "counters_wf (map_of sim_db)"
proof -
  have g: "wf_genealogy sim_gen" "g_ID sim_gen = ''g1''"
    by (simp_all add: wf_genealogy_def sim_gen_def slash_free_def Visibility_IsValid_def)
  have m: "wf_membership (sim_member sub role)" "m_Subject (sim_member sub role) = sub"
    "m_GenealogyID (sim_member sub role) = ''g1''" if "sub \<noteq> []" "Role_IsValid role" for sub role
    using that by (simp_all add: wf_membership_def sim_member_def slash_free_def)
  let ?m1 = "Map.empty(genealogyKey ''g1'' \<mapsto> MarshalGenealogy sim_gen)"
  let ?m2 = "?m1(membershipKey ''g1'' ''ann'' \<mapsto> MarshalMembership (sim_member ''ann'' RoleOwner),
      reverseMembershipKey ''ann'' ''g1'' \<mapsto> MarshalMembership (sim_member ''ann'' RoleOwner))"
  have "platform_wf ?m1" using platform_wf_genealogy [OF platform_wf_empty g(1)] g(2) by simp
  from platform_wf_membership [OF this m(1) [of "''ann''" RoleOwner]] m [of "''ann''" RoleOwner]
  have "platform_wf ?m2" by (simp add: Role_IsValid_iff)
  from platform_wf_membership [OF this m(1) [of "''bob''" RoleCurator]] m [of "''bob''" RoleCurator]
  show "platform_wf (map_of sim_db)" by (simp add: sim_db_eq Role_IsValid_iff platform_wf_counter)
  show "counters_wf (map_of sim_db)"
    unfolding sim_db_eq by (intro counters_wf_upd counters_wf_frame counters_wf_empty) simp_all
qed

lemma sim_ok: "server_ok map_of sim_server"
  using sim_db_wf by (simp add: server_ok_def sim_server_def)

lemma sim_granted:
  "granted (map_of sim_db) ''ann'' ''g1'' = Some \<lparr>d_GenealogyID = ''g1'', d_Role = RoleOwner, d_Implicit = False\<rparr>"
  "granted (map_of sim_db) ''bob'' ''g1'' = Some \<lparr>d_GenealogyID = ''g1'', d_Role = RoleCurator, d_Implicit = False\<rparr>"
  "granted (map_of sim_db) ''eve'' ''g1'' = None"
  by (simp_all add: granted_eq sim_db_eq lookup_def implicitRole_def sim_gen_def sim_member_def Let_def)

lemma sim_owners: "owners (map_of sim_db) ''g1'' = {''ann''}"
  by (auto simp: owners_def sim_db_eq lookup_def sim_member_def split: if_splits option.splits)

section \<open>Properties\<close>

lemma service_of: "badger_total (dp_badger D) kv tkv \<Longrightarrow> service D kv tkv"
  by (simp add: service_def)

lemma sim_total: "badger_total (dp_badger sim_deps) map_of map_of"
  using mem.badger_total_axioms by (simp add: sim_deps_def)

text \<open>
  C6: no privilege escalation through \<open>UpsertMembership\<close>. When it succeeds, the caller was at
  least Curator, the target now has a role no higher than the caller's, the requested one, and
  no other subject's access to any genealogy has changed.
\<close>

theorem UpsertMembership_no_escalation:
  assumes "badger_total (dp_badger D) kv tkv" and "server_ok kv s" and "UpsertMembership D q req s = (Inr p, s')"
  defines "gid \<equiv> UpsertMembershipRequest_GenealogyId req" and "target \<equiv> TrimSpace (UpsertMembershipRequest_Subject req)"
  shows "\<exists>d m. granted (kv (sv_db s)) (q_Subject q) gid = Some d \<and> RoleCurator \<le> d_Role d \<and>
    mem_at (kv (sv_db s')) gid target = Inr m \<and> m_Role m \<le> d_Role d \<and>
    m_Role m = roleFromProto (UpsertMembershipRequest_Role req) \<and>
    (\<forall>sub g. \<not> (sub = target \<and> g = gid) \<longrightarrow> granted (kv (sv_db s')) sub g = granted (kv (sv_db s)) sub g)"
proof -
  from service.UpsertMembership_spec [OF service_of [OF assms(1)] assms(2,3)] obtain d m where
    *: "granted (kv (sv_db s)) (q_Subject q) gid = Some d" "RoleCurator \<le> d_Role d" "wf_membership m"
      "m_Role m = RoleOwner \<longrightarrow> RoleOwner \<le> d_Role d" "m_Role m = roleFromProto (UpsertMembershipRequest_Role req)"
      "kv (sv_db s') = (kv (sv_db s))(membershipKey gid target \<mapsto> MarshalMembership m,
                                      reverseMembershipKey target gid \<mapsto> MarshalMembership m)"
    by (auto simp: gid_def target_def)
  have "m_Role m \<le> RoleCurator \<or> m_Role m = RoleOwner"
    using *(3) by (auto simp: wf_membership_def Role_IsValid_iff word_le_nat_alt)
  then have "m_Role m \<le> d_Role d" using *(2,4) by (auto simp del: RoleCurator_def RoleOwner_def)
  moreover have "slash_free gid" using granted_slash_free [OF server_okD(1) [OF assms(2)] *(1)] by simp
  ultimately show ?thesis
    using * granted_upd_membership [OF server_okD(1) [OF assms(2)]] by (intro exI [of _ d] exI [of _ m]) (simp add: lookup_def)
qed

definition sim_upsert :: pb_UpsertMembershipRequest where
  "sim_upsert = \<lparr>UpsertMembershipRequest_GenealogyId = ''g1'', UpsertMembershipRequest_Subject = ''eve'',
     UpsertMembershipRequest_Role = GENEALOGY_ROLE_VIEWER\<rparr>"

theorem UpsertMembership_no_escalation_witness:
  "\<exists>p s' d m. UpsertMembership sim_deps (sim_call ''bob'') sim_upsert sim_server = (Inr p, s') \<and>
     granted (map_of sim_db) ''bob'' ''g1'' = Some d \<and> mem_at (map_of (sv_db s')) ''g1'' ''eve'' = Inr m \<and> m_Role m \<le> d_Role d"
proof -
  obtain r s' where run: "UpsertMembership sim_deps (sim_call ''bob'') sim_upsert sim_server = (r, s')"
    by (cases "UpsertMembership sim_deps (sim_call ''bob'') sim_upsert sim_server")
  have "isl (fst (UpsertMembership sim_deps (sim_call ''bob'') sim_upsert sim_server)) = False" by code_simp
  then obtain p where p: "r = Inr p" using run by (cases r) auto
  have "TrimSpace ''eve'' = ''eve''" by code_simp
  then show ?thesis
    using UpsertMembership_no_escalation [OF sim_total sim_ok run [unfolded p]] run p
    by (auto simp: sim_upsert_def sim_call_def sim_server_def)
qed

text \<open>
  C7: neither \<open>RemoveMember\<close> nor \<open>LeaveGenealogy\<close> can take the last Owner of a genealogy
  away, whatever their outcome; and when \<open>RemoveMember\<close> succeeds the target is no longer a
  member.
\<close>

theorem last_owner_kept:
  assumes "badger_total (dp_badger D) kv tkv" and "server_ok kv s"
    and "RemoveMember D q req s = (r, s') \<or>
      LeaveGenealogy D q lreq s = (r, s') \<and> slash_free (LeaveGenealogyRequest_Id lreq)"
    and "slash_free gid" and "owners (kv (sv_db s)) gid \<noteq> {}"
  shows "owners (kv (sv_db s')) gid \<noteq> {} \<and>
    (RemoveMember D q req s = (nil_err, s') \<longrightarrow>
       mem_at (kv (sv_db s')) (RemoveMemberRequest_GenealogyId req) (TrimSpace (RemoveMemberRequest_Subject req)) = Inl ErrNotFound)"
proof (intro conjI impI)
  note svc = service_of [OF assms(1)] and wf = server_okD(1) [OF assms(2)]
  have one: "owners (m(membershipKey g sub := None, reverseMembershipKey sub g := None)) gid \<noteq> {}"
    if "slash_free g" "owners m gid \<noteq> {}" "mem_at m g sub = Inr ex" "m_Role ex = RoleOwner \<longrightarrow> 1 < card (owners m g)" for m g sub ex
  proof (cases "g = gid")
    case True
    have "1 < card (owners m gid) \<or> sub \<notin> owners m gid" using that True by (auto simp: owners_def)
    with that True show ?thesis using owners_delete [OF that(1), of m sub] owners_left by simp
  next
    case False
    then show ?thesis using owners_other [OF that(1) assms(4)] that(2) by auto
  qed
  from assms(3) show "owners (kv (sv_db s')) gid \<noteq> {}"
  proof
    assume run: "RemoveMember D q req s = (r, s')"
    from service.RemoveMember_spec [OF svc assms(2) run] consider "sv_db s' = sv_db s"
      | d ex where "granted (kv (sv_db s)) (q_Subject q) (RemoveMemberRequest_GenealogyId req) = Some d"
        "mem_at (kv (sv_db s)) (RemoveMemberRequest_GenealogyId req) (TrimSpace (RemoveMemberRequest_Subject req)) = Inr ex"
        "m_Role ex = RoleOwner \<longrightarrow> 1 < card (owners (kv (sv_db s)) (RemoveMemberRequest_GenealogyId req))"
        "kv (sv_db s') = (kv (sv_db s))
           (membershipKey (RemoveMemberRequest_GenealogyId req) (TrimSpace (RemoveMemberRequest_Subject req)) := None,
            reverseMembershipKey (TrimSpace (RemoveMemberRequest_Subject req)) (RemoveMemberRequest_GenealogyId req) := None)"
      by blast
    then show ?thesis
    proof cases
      case 1
      with assms(5) show ?thesis by simp
    next
      case 2
      show ?thesis unfolding 2(4)
        by (rule one [OF conjunct1 [OF granted_slash_free [OF wf 2(1)]] assms(5) 2(2,3)])
    qed
  next
    assume run: "LeaveGenealogy D q lreq s = (r, s') \<and> slash_free (LeaveGenealogyRequest_Id lreq)"
    then have sf: "slash_free (LeaveGenealogyRequest_Id lreq)" by simp
    from service.LeaveGenealogy_spec [OF svc assms(2) conjunct1 [OF run] sf] consider "sv_db s' = sv_db s"
      | ex where "mem_at (kv (sv_db s)) (LeaveGenealogyRequest_Id lreq) (q_Subject q) = Inr ex"
        "m_Role ex = RoleOwner \<longrightarrow> 1 < card (owners (kv (sv_db s)) (LeaveGenealogyRequest_Id lreq))"
        "kv (sv_db s') = (kv (sv_db s))
           (membershipKey (LeaveGenealogyRequest_Id lreq) (q_Subject q) := None,
            reverseMembershipKey (q_Subject q) (LeaveGenealogyRequest_Id lreq) := None)"
      by blast
    then show ?thesis
    proof cases
      case 1
      with assms(5) show ?thesis by simp
    next
      case 2
      show ?thesis unfolding 2(3) by (rule one [OF sf assms(5) 2(1,2)])
    qed
  qed
next
  assume run: "RemoveMember D q req s = (nil_err, s')"
  from service.RemoveMember_spec [OF service_of [OF assms(1)] assms(2) run]
  show "mem_at (kv (sv_db s')) (RemoveMemberRequest_GenealogyId req) (TrimSpace (RemoveMemberRequest_Subject req)) = Inl ErrNotFound"
    by (auto simp: lookup_def)
qed

definition sim_remove :: "string \<Rightarrow> pb_RemoveMemberRequest" where
  "sim_remove sub = \<lparr>RemoveMemberRequest_GenealogyId = ''g1'', RemoveMemberRequest_Subject = sub\<rparr>"

theorem last_owner_kept_witness:
  "\<exists>r s'. RemoveMember sim_deps (sim_call ''ann'') (sim_remove ''ann'') sim_server = (r, s') \<and>
     owners (map_of (sv_db s')) ''g1'' \<noteq> {}"
proof -
  obtain r s' where run: "RemoveMember sim_deps (sim_call ''ann'') (sim_remove ''ann'') sim_server = (r, s')"
    by (cases "RemoveMember sim_deps (sim_call ''ann'') (sim_remove ''ann'') sim_server")
  then show ?thesis
    using last_owner_kept [OF sim_total sim_ok disjI1 [OF run], of "''g1''"]
    by (auto simp: slash_free_def sim_server_def sim_owners)
qed

text \<open>
  C34: \<open>UpsertMembership\<close> lacks the protection of the last Owner that \<open>RemoveMember\<close> has:
  a Curator who grants a lower role to the only Owner succeeds, and the genealogy is left
  without any Owner.
\<close>

theorem UpsertMembership_demotes_last_owner:
  fixes req :: pb_UpsertMembershipRequest
  assumes "badger_total (dp_badger D) kv tkv" and "server_ok kv s"
  defines "gid \<equiv> UpsertMembershipRequest_GenealogyId req" and "target \<equiv> TrimSpace (UpsertMembershipRequest_Subject req)"
    and "role \<equiv> roleFromProto (UpsertMembershipRequest_Role req)"
  assumes "granted (kv (sv_db s)) (q_Subject q) gid = Some d" and "RoleCurator \<le> d_Role d"
    and "owners (kv (sv_db s)) gid = {target}" and "Role_IsValid role" and "role \<noteq> RoleOwner"
  shows "\<exists>p s'. UpsertMembership D q req s = (Inr p, s') \<and> owners (kv (sv_db s')) gid = {}"
proof -
  note svc = service_of [OF assms(1)] and wf = server_okD(1) [OF assms(2)]
  have sf: "slash_free gid" "gid \<noteq> []" using granted_slash_free [OF wf assms(6)] by simp_all
  have "target \<in> owners (kv (sv_db s)) gid" using assms(8) by simp
  then have t: "target \<noteq> []" using wf_mem_cases [OF wf sf(1), of target] by (auto simp: owners_def wf_membership_def)
  obtain r s' where run: "UpsertMembership D q req s = (r, s')" by (cases "UpsertMembership D q req s")
  obtain s1 where s1: "authz_Resolve D q (q_Subject q) gid s = (Inr d, s1)"
    using service.authz_Resolve_run [OF svc assms(2), of q "q_Subject q" gid] assms(6) by auto
  have "\<not> d_Role d < RoleCurator" using assms(7) by simp
  then obtain p where p: "r = Inr p"
    using run assms(9,10) sf t
    by (simp add: UpsertMembership_def Let_def gid_def [symmetric] target_def [symmetric] role_def [symmetric] s1 on_db_def
        service.PutMembership_if [OF svc] del: RoleCurator_def RoleOwner_def) blast
  from service.UpsertMembership_spec [OF svc assms(2) run [unfolded p]] obtain m where
    m: "m_Role m = role" "kv (sv_db s') = (kv (sv_db s))(membershipKey gid target \<mapsto> MarshalMembership m,
                                      reverseMembershipKey target gid \<mapsto> MarshalMembership m)"
    by (auto simp: gid_def target_def role_def)
  have "owners (kv (sv_db s')) gid = {}" unfolding m(2) using owners_upsert [OF sf(1)] m(1) assms(8,10) by simp
  with run p show ?thesis by blast
qed

definition sim_demote :: pb_UpsertMembershipRequest where
  "sim_demote = \<lparr>UpsertMembershipRequest_GenealogyId = ''g1'', UpsertMembershipRequest_Subject = ''ann'',
     UpsertMembershipRequest_Role = GENEALOGY_ROLE_VIEWER\<rparr>"

theorem UpsertMembership_demotes_last_owner_witness:
  "\<exists>p s'. UpsertMembership sim_deps (sim_call ''bob'') sim_demote sim_server = (Inr p, s') \<and>
     owners (map_of (sv_db s')) ''g1'' = {}"
proof -
  have "TrimSpace ''ann'' = ''ann''" by code_simp
  then show ?thesis
    using UpsertMembership_demotes_last_owner [OF sim_total sim_ok, of "sim_call ''bob''" sim_demote] sim_granted(2) sim_owners
    by (simp add: sim_demote_def sim_call_def sim_server_def roleFromProto_def Role_IsValid_iff)
qed

text \<open>
  C30: a successful \<open>DeleteGenealogy\<close> was made by an Owner; afterwards the genealogy and all
  its memberships are gone from both indexes, nobody has access to it, cached decisions about
  it cannot survive, and access to every other genealogy is unchanged. Its bans stay behind.
\<close>

theorem DeleteGenealogy_complete:
  assumes "badger_total (dp_badger D) kv tkv" and "server_ok kv s" and "DeleteGenealogy_rpc D q req s = (nil_err, s')"
  defines "gid \<equiv> DeleteGenealogyRequest_Id req"
  shows "(\<exists>d. granted (kv (sv_db s)) (q_Subject q) gid = Some d \<and> RoleOwner \<le> d_Role d) \<and>
    gen_at (kv (sv_db s')) gid = Inl ErrNotFound \<and>
    (\<forall>sub. mem_at (kv (sv_db s')) gid sub = Inl ErrNotFound \<and> kv (sv_db s') (reverseMembershipKey sub gid) = None \<and>
       ban_at (kv (sv_db s')) gid sub = ban_at (kv (sv_db s)) gid sub) \<and>
    (\<forall>sub g. granted (kv (sv_db s')) sub g = (if g = gid then None else granted (kv (sv_db s)) sub g)) \<and>
    (\<forall>sub. c_m (sv_cache s') (sub, gid) = None)"
proof -
  note wf = server_okD(1) [OF assms(2)]
  from service.DeleteGenealogy_rpc_spec [OF service_of [OF assms(1)] assms(2,3), folded gid_def, unfolded sum.case] obtain d and g0 :: Genealogy where
    d: "granted (kv (sv_db s)) (q_Subject q) gid = Some d" "RoleOwner \<le> d_Role d" and ok: "server_ok kv s'"
    and kv': "kv (sv_db s') = count_delta (g_Visibility g0 = VisibilityPrivate) False (g_CreatedBy g0)
           (drop_genealogy gid (kv (sv_db s)))"
    by blast
  have sf: "slash_free gid" using granted_slash_free [OF wf d(1)] by simp
  note gr = granted_drop_genealogy [OF wf sf]
  have "c_m (sv_cache s') (sub, gid) = None" for sub
    using server_okD(3) [OF ok] gr [of sub gid] unfolding coherent_def kv'
    by (cases "c_m (sv_cache s') (sub, gid)") (auto simp: split_paired_all)
  then show ?thesis using d gr by (simp add: kv' lookup_def) (simp add: drop_genealogy_def)
qed

theorem DeleteGenealogy_complete_witness:
  "\<exists>s'. DeleteGenealogy_rpc sim_deps (sim_call ''ann'') \<lparr>DeleteGenealogyRequest_Id = ''g1''\<rparr> sim_server = (nil_err, s') \<and>
     granted (map_of (sv_db s')) ''bob'' ''g1'' = None"
proof -
  let ?req = "\<lparr>DeleteGenealogyRequest_Id = ''g1''\<rparr>"
  obtain r s' where run: "DeleteGenealogy_rpc sim_deps (sim_call ''ann'') ?req sim_server = (r, s')"
    by (cases "DeleteGenealogy_rpc sim_deps (sim_call ''ann'') ?req sim_server")
  have "fst (DeleteGenealogy_rpc sim_deps (sim_call ''ann'') ?req sim_server) = nil_err" by code_simp
  with run have "DeleteGenealogy_rpc sim_deps (sim_call ''ann'') ?req sim_server = (nil_err, s')" by simp
  with DeleteGenealogy_complete [OF sim_total sim_ok this] show ?thesis by auto
qed

text \<open>
  C31: \<open>CreateGenealogy\<close> with a fresh id either changes nothing or gives the caller, and only
  the caller, an explicit role in the new genealogy, namely Owner; everybody else has exactly
  the access that the visibility grants, and no access to any other genealogy changes. A
  private genealogy is only created within the quota.
\<close>

theorem CreateGenealogy_access:
  assumes "badger_total (dp_badger D) kv tkv" and "server_ok kv s" and "CreateGenealogy D q req s = (r, s')"
    and "slash_free (q_uuid q)" and "q_uuid q \<noteq> []" and "kv (sv_db s) (genealogyKey (q_uuid q)) = None"
    and "\<And>sub. kv (sv_db s) (membershipKey (q_uuid q) sub) = None"
  shows "(\<exists>e. r = Inl e \<and> s' = s) \<or>
    (\<exists>p g. r = Inr p \<and> gen_at (kv (sv_db s')) (q_uuid q) = Inr g \<and> g_CreatedBy g = q_Subject q \<and>
      (g_Visibility g = VisibilityPrivate \<longrightarrow>
         MaxPrivateGenealogiesPerUser (dp_limits D) = 0 \<or>
         counter_at (kv (sv_db s)) (userPrivateGenCountKey (q_Subject q)) < MaxPrivateGenealogiesPerUser (dp_limits D)) \<and>
      (\<forall>sub. granted (kv (sv_db s')) sub (q_uuid q) =
         (if sub = q_Subject q then Some \<lparr>d_GenealogyID = q_uuid q, d_Role = RoleOwner, d_Implicit = False\<rparr>
          else if implicitRole (g_Visibility g) (sub \<noteq> []) = RoleNone then None
          else Some \<lparr>d_GenealogyID = q_uuid q, d_Role = implicitRole (g_Visibility g) (sub \<noteq> []), d_Implicit = True\<rparr>)) \<and>
      (\<forall>sub gid. gid \<noteq> q_uuid q \<longrightarrow> granted (kv (sv_db s')) sub gid = granted (kv (sv_db s)) sub gid))"
proof -
  note svc = service_of [OF assms(1)] and wf = server_okD [OF assms(2)]
  note spec = service.CreateGenealogy_spec [OF svc assms(2-6)]
  show ?thesis
  proof (cases r)
    case (Inl e)
    with spec show ?thesis by simp
  next
    case (Inr p)
    let ?gid = "q_uuid q" and ?sub = "q_Subject q"
    from spec Inr obtain g m where g: "g_ID g = ?gid" "g_CreatedBy g = ?sub" "wf_genealogy g" and sub: "?sub \<noteq> []"
      and m: "m_Role m = RoleOwner"
      and chk: "g_Visibility g = VisibilityPrivate \<longrightarrow> CheckCreatePrivateGenealogy (dp_badger D) (dp_limits D) ?sub (sv_db s) = nil_err"
      and kv': "kv (sv_db s') = count_delta False (g_Visibility g = VisibilityPrivate) ?sub ((kv (sv_db s))
           (genealogyKey ?gid \<mapsto> MarshalGenealogy g, membershipKey ?gid ?sub \<mapsto> MarshalMembership m,
            reverseMembershipKey ?sub ?gid \<mapsto> MarshalMembership m))" by auto
    let ?m1 = "(kv (sv_db s))(genealogyKey ?gid \<mapsto> MarshalGenealogy g)"
    have wf1: "platform_wf ?m1" using platform_wf_genealogy [OF wf(1) g(3)] g(1) by simp
    have "granted (kv (sv_db s')) x y = granted (kv (sv_db s)) x y" if "y \<noteq> ?gid" for x y
      using granted_upd_membership [OF wf1 assms(4), of x ?sub y] that by (simp add: kv' granted_upd_genealogy)
    moreover have "granted (kv (sv_db s')) x ?gid =
         (if x = ?sub then Some \<lparr>d_GenealogyID = ?gid, d_Role = RoleOwner, d_Implicit = False\<rparr>
          else if implicitRole (g_Visibility g) (x \<noteq> []) = RoleNone then None
          else Some \<lparr>d_GenealogyID = ?gid, d_Role = implicitRole (g_Visibility g) (x \<noteq> []), d_Implicit = True\<rparr>)" for x
      using sub assms(7) [of x] m by (simp add: kv' granted_eq lookup_def Let_def)
    moreover have "gen_at (kv (sv_db s')) ?gid = Inr g" by (simp add: kv' lookup_def)
    ultimately show ?thesis
      using Inr g(2) chk [unfolded service.Check_run [OF svc wf(2)]] by (intro disjI2 exI [of _ p] exI [of _ g]) simp
  qed
qed

definition sim_create :: pb_CreateGenealogyRequest where
  "sim_create = \<lparr>CreateGenealogyRequest_Name = ''Jones'', CreateGenealogyRequest_Visibility = VISIBILITY_PUBLIC\<rparr>"

theorem CreateGenealogy_access_witness:
  "\<exists>p s'. CreateGenealogy sim_deps (sim_call ''eve'') sim_create sim_server = (Inr p, s') \<and>
     granted (map_of (sv_db s')) ''eve'' ''g2'' = Some \<lparr>d_GenealogyID = ''g2'', d_Role = RoleOwner, d_Implicit = False\<rparr>"
proof -
  obtain r s' where run: "CreateGenealogy sim_deps (sim_call ''eve'') sim_create sim_server = (r, s')"
    by (cases "CreateGenealogy sim_deps (sim_call ''eve'') sim_create sim_server")
  have "isl (fst (CreateGenealogy sim_deps (sim_call ''eve'') sim_create sim_server)) = False" by code_simp
  then obtain p where p: "r = Inr p" using run by (cases r) auto
  have fresh: "map_of sim_db (genealogyKey ''g2'') = None" "map_of sim_db (membershipKey ''g2'' sub) = None" for sub
    by (simp_all add: sim_db_eq membershipKey_inject slash_free_def)
  have q: "q_uuid (sim_call ''eve'') = ''g2''" "q_Subject (sim_call ''eve'') = ''eve''" by (simp_all add: sim_call_def)
  have hyps: "slash_free ''g2''" "map_of (sv_db sim_server) (genealogyKey ''g2'') = None"
    "map_of (sv_db sim_server) (membershipKey ''g2'' sub) = None" "''g2'' \<noteq> []" for sub
    using fresh by (simp_all add: slash_free_def sim_server_def)
  from CreateGenealogy_access [OF sim_total sim_ok run, unfolded q p, OF hyps(1,4,2,3)]
  have "granted (map_of (sv_db s')) ''eve'' ''g2'' = Some \<lparr>d_GenealogyID = ''g2'', d_Role = RoleOwner, d_Implicit = False\<rparr>"
    by (elim disjE exE conjE) (simp_all del: RoleOwner_def)
  with run p show ?thesis by blast
qed

text \<open>
  C32: \<open>ListGenealogies\<close> is exact. When no stored subject continues the caller's after a slash,
  it lists exactly the genealogies that are public or have the caller as a member, each once,
  and shows the caller's role as the access rule gives it.
\<close>

theorem ListGenealogies_exact:
  assumes "badger_total (dp_badger D) kv tkv" and "platform_wf (kv (sv_db s))"
    and "\<And>gid x. mem_at (kv (sv_db s)) gid (q_Subject q @ ''/'' @ x) = Inl ErrNotFound"
  shows "\<exists>items. ListGenealogies D q s =
      Inr \<lparr>ListGenealogiesResponse_Genealogies = map (\<lambda>p. genealogyToProto (fst p) (snd p)) items,
           ListGenealogiesResponse_NextPageToken = []\<rparr> \<and>
    distinct (map (\<lambda>p. g_ID (fst p)) items) \<and>
    (\<forall>g role. (g, role) \<in> set items \<longleftrightarrow>
       gen_at (kv (sv_db s)) (g_ID g) = Inr g \<and>
       (\<exists>d. granted (kv (sv_db s)) (q_Subject q) (g_ID g) = Some d \<and> d_Role d = role \<and>
            (\<not> d_Implicit d \<or> g_Visibility g = VisibilityPublic)))"
  using service.ListGenealogies_spec [OF service_of [OF assms(1)] assms(2,3)] .


theorem ListGenealogies_exact_witness:
  "\<exists>items. ListGenealogies sim_deps (sim_call ''bob'') sim_server =
      Inr \<lparr>ListGenealogiesResponse_Genealogies = map (\<lambda>p. genealogyToProto (fst p) (snd p)) items,
           ListGenealogiesResponse_NextPageToken = []\<rparr> \<and> (sim_gen, RoleCurator) \<in> set items"
proof -
  have plain: "mem_at (map_of (sv_db sim_server)) gid (q_Subject (sim_call ''bob'') @ ''/'' @ x) = Inl ErrNotFound" for gid x
  proof -
    have "membershipKey gid (''bob'' @ ''/'' @ x) \<noteq> membershipKey ''g1'' sub" if "count_list sub (CHR ''/'') = 0" for sub
    proof
      assume "membershipKey gid (''bob'' @ ''/'' @ x) = membershipKey ''g1'' sub"
      then have "count_list (membershipKey gid (''bob'' @ ''/'' @ x)) (CHR ''/'') =
          count_list (membershipKey ''g1'' sub) (CHR ''/'')" by simp
      with that show False by (simp add: membershipKey_def)
    qed
    from this [of "''ann''"] this [of "''bob''"] show ?thesis
      by (simp add: lookup_def sim_server_def sim_call_def sim_db_eq del: append.simps)
  qed
  have gen: "gen_at (map_of (sv_db sim_server)) (g_ID sim_gen) = Inr sim_gen"
    by (simp add: lookup_def sim_server_def sim_db_eq sim_gen_def)
  from ListGenealogies_exact [OF sim_total server_okD(1) [OF sim_ok] plain] obtain items where
    items: "ListGenealogies sim_deps (sim_call ''bob'') sim_server =
      Inr \<lparr>ListGenealogiesResponse_Genealogies = map (\<lambda>p. genealogyToProto (fst p) (snd p)) items,
           ListGenealogiesResponse_NextPageToken = []\<rparr>"
    and iff: "\<forall>g role. (g, role) \<in> set items \<longleftrightarrow>
       gen_at (map_of (sv_db sim_server)) (g_ID g) = Inr g \<and>
       (\<exists>d. granted (map_of (sv_db sim_server)) (q_Subject (sim_call ''bob'')) (g_ID g) = Some d \<and> d_Role d = role \<and>
            (\<not> d_Implicit d \<or> g_Visibility g = VisibilityPublic))" by (elim exE conjE) (rule that; assumption)
  have "(sim_gen, RoleCurator) \<in> set items"
    using gen sim_granted(2) by (subst iff [rule_format]) (simp add: sim_server_def sim_call_def sim_gen_def)
  with items show ?thesis by blast
qed

text \<open>
  C37: the reverse index leaks across subjects. A caller whose subject, followed by a slash, starts
  another member's subject is shown that member's genealogies, even private ones the access rule
  denies to the caller.
\<close>

theorem ListGenealogies_leaks:
  assumes "badger_total (dp_badger D) kv tkv" and "platform_wf (kv (sv_db s))" and "q_Subject q \<noteq> []"
    and "mem_at (kv (sv_db s)) gid (q_Subject q @ ''/'' @ x) = Inr r" and "gen_at (kv (sv_db s)) gid = Inr g"
    and "granted (kv (sv_db s)) (q_Subject q) gid = None"
  shows "\<exists>resp e. ListGenealogies D q s = Inr resp \<and>
    e \<in> set (ListGenealogiesResponse_Genealogies resp) \<and> Genealogy_Id e = gid"
proof -
  note svc = service_of [OF assms(1)]
  have id: "g_ID g = gid" "slash_free gid" using wf_gen_at [OF assms(2,5)] by (auto simp: wf_genealogy_def)
  have r: "m_GenealogyID r = gid" "m_Subject r = q_Subject q @ ''/'' @ x"
    using wf_mem_cases [OF assms(2) id(2), of "q_Subject q @ ''/'' @ x"] assms(4) by auto
  have "r \<in> set (badger_total.ulist (dp_badger D) (sv_db s) (q_Subject q))"
    unfolding service.set_ulist [OF svc assms(2)] using r assms(4) by simp
  then have c: "(g, m_Role r) \<in> service.member_items D (kv (sv_db s)) (sv_db s) (q_Subject q)"
    using r(1) assms(3,5) unfolding service.member_items_def [OF svc] by blast
  from service.ListGenealogies_run [OF svc assms(2), of q] obtain l1 l2 where
    run: "ListGenealogies D q s = Inr \<lparr>ListGenealogiesResponse_Genealogies = map listed (l1 @ l2),
        ListGenealogiesResponse_NextPageToken = []\<rparr>"
    and l1: "gid_of ` set l1 = gid_of ` service.member_items D (kv (sv_db s)) (sv_db s) (q_Subject q)"
    by (elim exE conjE) (rule that; assumption)
  have "gid \<in> gid_of ` set l1" unfolding l1 using imageI [OF c, of gid_of] id(1) by simp
  then obtain p where p: "gid = gid_of p" "p \<in> set l1" by (rule imageE)
  then have "listed p \<in> set (map listed (l1 @ l2))" "Genealogy_Id (listed p) = gid" by (auto simp: genealogyToProto_def)
  with run show ?thesis by auto
qed

definition sim_leak_server :: "(memdb, string, Proposal list) server" where
  "sim_leak_server = sim_server\<lparr>sv_db := sim_rows ''x/y'' RoleViewer @ sim_db\<rparr>"

lemma sim_leak_wf: "platform_wf (map_of (sv_db sim_leak_server))"
proof -
  have "wf_membership (sim_member ''x/y'' RoleViewer)"
    by (simp add: wf_membership_def sim_member_def slash_free_def Role_IsValid_iff)
  from platform_wf_membership [OF sim_db_wf(1) this] show ?thesis
    by (simp add: sim_leak_server_def sim_rows_def sim_member_def)
qed

theorem ListGenealogies_leaks_witness:
  "\<exists>resp e. ListGenealogies sim_deps (sim_call ''x'') sim_leak_server = Inr resp \<and>
     e \<in> set (ListGenealogiesResponse_Genealogies resp) \<and> Genealogy_Id e = ''g1''"
proof (rule ListGenealogies_leaks [OF sim_total sim_leak_wf])
  let ?m = "map_of (sv_db sim_leak_server)"
  have m: "?m = (map_of sim_db)(membershipKey ''g1'' ''x/y'' \<mapsto> MarshalMembership (sim_member ''x/y'' RoleViewer),
      reverseMembershipKey ''x/y'' ''g1'' \<mapsto> MarshalMembership (sim_member ''x/y'' RoleViewer))"
    by (simp add: sim_leak_server_def sim_rows_def)
  show "q_Subject (sim_call ''x'') \<noteq> []" by (simp add: sim_call_def)
  show "mem_at ?m ''g1'' (q_Subject (sim_call ''x'') @ ''/'' @ ''y'') = Inr (sim_member ''x/y'' RoleViewer)"
    by (simp add: m lookup_def sim_call_def)
  show "gen_at ?m ''g1'' = Inr sim_gen" by (simp add: m lookup_def sim_db_eq)
  show "granted ?m (q_Subject (sim_call ''x'')) ''g1'' = None"
    by (simp add: m granted_eq lookup_def sim_call_def sim_db_eq sim_gen_def implicitRole_def Let_def)
qed

text \<open>
  C38: leaving with a slash in the id ends somebody else's membership. The key of a membership is the id, a
  slash and the subject, and \<open>LeaveGenealogy\<close> neither checks the id nor that the genealogy exists. When a
  member's subject is \<open>a/b\<close>, the caller \<open>b\<close> can name the genealogy \<open>gid/a\<close> and delete that membership, although the caller
  has none. The reverse index and the cache keep it: the member's cached decision stays, and the two indices
  no longer agree.
\<close>

theorem LeaveGenealogy_crosses:
  assumes "badger_total (dp_badger D) kv tkv" and "platform_wf (kv (sv_db s))" and "slash_free gid"
    and "mem_at (kv (sv_db s)) gid (a @ ''/'' @ q_Subject q) = Inr r" and "m_Role r \<noteq> RoleOwner"
    and "slash_free a" and "slash_free (q_Subject q)" and "q_Subject q \<noteq> []" and "q_Subject q \<noteq> gid"
    and "LeaveGenealogyRequest_Id req = gid @ ''/'' @ a"
  shows "\<exists>s'. LeaveGenealogy D q req s = (nil_err, s') \<and>
    mem_at (kv (sv_db s')) gid (a @ ''/'' @ q_Subject q) = Inl ErrNotFound \<and>
    kv (sv_db s') (reverseMembershipKey (a @ ''/'' @ q_Subject q) gid) = Some (MarshalMembership r) \<and>
    c_m (sv_cache s') (a @ ''/'' @ q_Subject q, gid) = c_m (sv_cache s) (a @ ''/'' @ q_Subject q, gid) \<and>
    \<not> platform_wf (kv (sv_db s'))"
proof -
  let ?b = "q_Subject q" and ?B = "dp_badger D"
  let ?v = "a @ ''/'' @ ?b" and ?g = "gid @ ''/'' @ a"
  have key: "membershipKey ?g ?b = membershipKey gid ?v" by (simp add: membershipKey_def)
  from wf_mem_cases [OF assms(2,3), of ?v] assms(4)
  have row: "kv (sv_db s) (membershipKey gid ?v) = Some (MarshalMembership r)" by auto
  then have rev: "kv (sv_db s) (reverseMembershipKey ?v gid) = Some (MarshalMembership r)"
    using assms(2,3) by (simp add: platform_wf_def wf_index_def)
  have other: "reverseMembershipKey ?b ?g \<noteq> reverseMembershipKey ?v gid"
  proof
    assume "reverseMembershipKey ?b ?g = reverseMembershipKey ?v gid"
    then have "?b @ CHR ''/'' # gid @ CHR ''/'' # a = a @ CHR ''/'' # ?b @ CHR ''/'' # gid" by (simp add: reverseMembershipKey_def)
    from append_sep_inject [OF this] assms(6,7) have "gid @ CHR ''/'' # a = ?b @ CHR ''/'' # gid" by (simp add: slash_free_def)
    from append_sep_inject [OF this] assms(3,7,9) show False by (simp add: slash_free_def)
  qed
  note total = assms(1)
  have get: "GetMembership ?B ?g ?b (sv_db s) = Inr r"
    using row key by (simp add: badger_total.Get_eqs [OF total] lookup_def)
  let ?s = "on_cache (Invalidate ?b ?g) (s\<lparr>sv_db := badger_total.ddel_mem ?B ?g ?b (sv_db s)\<rparr>)"
  have run: "LeaveGenealogy D q req s = (nil_err, ?s)"
    using assms(5,8,10) get
    by (simp add: LeaveGenealogy_def Let_def on_db_def badger_total.DeleteMembership_eq [OF total])
  have kv: "kv (sv_db ?s) = (kv (sv_db s))(membershipKey gid ?v := None, reverseMembershipKey ?b ?g := None)"
    using key by (simp add: on_cache_def badger_total.kv_ddel_mem [OF total])
  have gone: "kv (sv_db ?s) (membershipKey gid ?v) = None" "kv (sv_db ?s) (reverseMembershipKey ?v gid) = Some (MarshalMembership r)"
    using rev other unfolding kv by simp_all
  then have "\<not> platform_wf (kv (sv_db ?s))"
    using assms(3) unfolding platform_wf_def wf_index_def by (metis option.distinct(1))
  moreover have "c_m (sv_cache ?s) (?v, gid) = c_m (sv_cache s) (?v, gid)"
    using assms(8) by (simp add: on_cache_def Invalidate_def)
  ultimately show ?thesis using run gone by (intro exI [of _ ?s]) (simp add: lookup_def)
qed

theorem LeaveGenealogy_crosses_witness:
  "\<exists>s'. LeaveGenealogy sim_deps (sim_call ''y'') \<lparr>LeaveGenealogyRequest_Id = ''g1/x''\<rparr> sim_leak_server = (nil_err, s') \<and>
     mem_at (map_of (sv_db s')) ''g1'' ''x/y'' = Inl ErrNotFound"
proof -
  have m: "mem_at (map_of (sv_db sim_leak_server)) ''g1'' (''x'' @ ''/'' @ q_Subject (sim_call ''y'')) = Inr (sim_member ''x/y'' RoleViewer)"
    by (simp add: sim_leak_server_def sim_rows_def lookup_def sim_call_def)
  from LeaveGenealogy_crosses [OF sim_total sim_leak_wf _ m, of "\<lparr>LeaveGenealogyRequest_Id = ''g1/x''\<rparr>"]
  show ?thesis by (auto simp: sim_call_def slash_free_def sim_member_def)
qed

text \<open>
  \<open>GetGenealogy\<close> shows a genealogy exactly to the callers the access rule admits, with their
  role, and answers everybody else as if it did not exist.
\<close>

theorem GetGenealogy_visible_iff_granted:
  assumes "badger_total (dp_badger D) kv tkv" and "server_ok kv s"
  shows "fst (GetGenealogy_rpc D q req s) =
    (case granted (kv (sv_db s)) (q_Subject q) (GetGenealogyRequest_Id req) of
       None \<Rightarrow> Inl (LError CodePersonNotFound ''genealogy not found or access denied'')
     | Some d \<Rightarrow> Inr \<lparr>GetGenealogyResponse_Genealogy =
         Some (genealogyToProto (projr (gen_at (kv (sv_db s)) (GetGenealogyRequest_Id req))) (d_Role d))\<rparr>)"
  using service.GetGenealogy_rpc_spec [OF service_of [OF assms(1)] assms(2) surjective_pairing] by blast

theorem GetGenealogy_visible_iff_granted_witness:
  "fst (GetGenealogy_rpc sim_deps (sim_call ''eve'') \<lparr>GetGenealogyRequest_Id = ''g1''\<rparr> sim_server) =
     Inl (LError CodePersonNotFound ''genealogy not found or access denied'')"
  using GetGenealogy_visible_iff_granted [OF sim_total sim_ok, of "sim_call ''eve''" "\<lparr>GetGenealogyRequest_Id = ''g1''\<rparr>"] sim_granted(3)
  by (simp add: sim_call_def sim_server_def)

text \<open>
  Only a Curator or Owner can ban or unban. A successful \<open>BanUser\<close> makes exactly the named
  subject banned, a successful \<open>UnbanUser\<close> lifts exactly that ban, and neither changes
  anybody's role.
\<close>

theorem ban_unban_effect:
  assumes "badger_total (dp_badger D) kv tkv" and "server_ok kv s"
    and "BanUser D q req s = (Inr p, s') \<and> gid = BanUserRequest_GenealogyId req \<and> sub = BanUserRequest_Subject req \<and> now_banned = True \<or>
      UnbanUser D q ureq s = (nil_err, s') \<and> gid = UnbanUserRequest_GenealogyId ureq \<and> sub = UnbanUserRequest_Subject ureq \<and> now_banned = False"
  shows "(\<exists>d. granted (kv (sv_db s)) (q_Subject q) gid = Some d \<and> RoleCurator \<le> d_Role d) \<and>
    IsBanned (dp_badger D) gid sub (sv_db s') = Inr now_banned \<and>
    (\<forall>g x. slash_free g \<and> (g, x) \<noteq> (gid, sub) \<longrightarrow>
       IsBanned (dp_badger D) g x (sv_db s') = IsBanned (dp_badger D) g x (sv_db s)) \<and>
    (\<forall>g x. granted (kv (sv_db s')) x g = granted (kv (sv_db s)) x g)"
proof -
  note svc = service_of [OF assms(1)] and wf = server_okD(1) [OF assms(2)]
  have "\<exists>d b. granted (kv (sv_db s)) (q_Subject q) gid = Some d \<and> RoleCurator \<le> d_Role d \<and>
      kv (sv_db s') = (kv (sv_db s))(banKey gid sub := b) \<and>
      (if now_banned then \<exists>r. b = Some (MarshalBan r) else b = None)"
    using assms(3)
  proof (elim disjE conjE)
    assume "BanUser D q req s = (Inr p, s')" "gid = BanUserRequest_GenealogyId req" "sub = BanUserRequest_Subject req"
      "now_banned = True"
    with service.BanUser_spec [OF svc assms(2), of q req "Inr p" s'] show ?thesis by (simp only: sum.case if_True) blast
  next
    assume "UnbanUser D q ureq s = (nil_err, s')" "gid = UnbanUserRequest_GenealogyId ureq" "sub = UnbanUserRequest_Subject ureq"
      "now_banned = False"
    with service.UnbanUser_spec [OF svc assms(2), of q ureq nil_err s'] show ?thesis by (simp only: sum.case if_False) blast
  qed
  then obtain d b where d: "granted (kv (sv_db s)) (q_Subject q) gid = Some d" "RoleCurator \<le> d_Role d"
    and kv': "kv (sv_db s') = (kv (sv_db s))(banKey gid sub := b)"
    and b: "if now_banned then \<exists>r. b = Some (MarshalBan r) else b = None" by blast
  have sf: "slash_free gid" using granted_slash_free [OF wf d(1)] by simp
  show ?thesis
    using d sf b by (auto simp: IsBanned_def badger_total.Get_eqs [OF assms(1)] kv' lookup_def banKey_inject split: if_splits)
qed

definition sim_ban :: pb_BanUserRequest where
  "sim_ban = \<lparr>BanUserRequest_GenealogyId = ''g1'', BanUserRequest_Subject = ''eve'', BanUserRequest_Reason = []\<rparr>"

theorem ban_unban_effect_witness:
  "\<exists>p s'. BanUser sim_deps (sim_call ''bob'') sim_ban sim_server = (Inr p, s') \<and>
     IsBanned (dp_badger sim_deps) ''g1'' ''eve'' (sv_db s') = Inr True"
proof -
  obtain r s' where run: "BanUser sim_deps (sim_call ''bob'') sim_ban sim_server = (r, s')"
    by (cases "BanUser sim_deps (sim_call ''bob'') sim_ban sim_server")
  have "isl (fst (BanUser sim_deps (sim_call ''bob'') sim_ban sim_server)) = False" by code_simp
  then obtain p where p: "r = Inr p" using run by (cases r) auto
  with run ban_unban_effect [OF sim_total sim_ok, of "sim_call ''bob''" sim_ban p s' "''g1''" "''eve''" True]
  show ?thesis by (simp add: sim_ban_def)
qed

end
