(* ===== verification/Services.thy ===== *)
theory Services
  imports Genealogies
begin

text \<open>
  The services over one genealogy's graph (\<open>internal/service/resolver.go\<close>,
  \<open>entities.go\<close>, \<open>proposals.go\<close>, \<open>queries.go\<close>, \<open>server.go\<close>). Every
  handler goes through \<open>resolveStore\<close>, which checks the genealogy id, the caller's role and,
  for submissions, bans, before it fetches the store from the tenant manager. The library behind
  a store is the argument \<open>C\<close>.

  Two outcomes are not results: a call of the tenant manager can panic, and it can wait for a
  load that another caller has in flight. A handler's value is \<^const>\<open>None\<close> in the second case;
  \<^const>\<open>Panic\<close> in the first.
\<close>

section \<open>The gate\<close>

type_synonym ('a, 'db, 'h, 'fs) handled = "((err + 'a) \<times> ('db, 'h, 'fs) server) outcome option"

text \<open>The ban lookup that only submissions by an authenticated caller make.\<close>

definition ban_check :: "('db, 'tx) badger \<Rightarrow> string \<Rightarrow> string \<Rightarrow> bool \<Rightarrow> 'db \<Rightarrow> err + bool" where
  "ban_check B genealogyID subject requiresProposalSubmission db =
     (if requiresProposalSubmission \<and> subject \<noteq> [] then IsBanned B genealogyID subject db else Inr False)"

definition resolveStore ::
  "('db, 'tx, 'fs, 'h) platformDeps \<Rightarrow> callenv \<Rightarrow> string \<Rightarrow> string \<Rightarrow> Role \<Rightarrow> bool \<Rightarrow> ('db, 'h, 'fs) server \<Rightarrow>
   ('h \<times> Decision, 'db, 'h, 'fs) handled" where
  "resolveStore D q subject genealogyID minRole requiresProposalSubmission s =
     (if genealogyID = [] then Some (Ret (Inl (invalid ''genealogy_id is required''), s))
      else
        (case authz_Resolve D q subject genealogyID s of
           (Inl e, s1) \<Rightarrow>
             if errors_Is e ErrNotAllowed
             then Some (Ret (Inl (LError CodePersonNotFound ''genealogy not found or access denied''), s1))
             else Some (Ret (Inl e, s1))
         | (Inr d, s1) \<Rightarrow>
             if d_Role d < minRole then Some (Ret (Inl (insufficient_role (d_Role d) minRole), s1))
             else
               (case ban_check (dp_badger D) genealogyID subject requiresProposalSubmission (sv_db s1) of
                  Inl e \<Rightarrow> Some (Ret (Inl e, s1))
                | Inr True \<Rightarrow> Some (Ret (Inl (invalid ''banned from this genealogy''), s1))
                | Inr False \<Rightarrow>
                    (case Get (dp_store D) genealogyID (sv_mgr s1) (sv_fs s1) of
                       None \<Rightarrow> None
                     | Some Panic \<Rightarrow> Some Panic
                     | Some (Ret (Inl e, mgr', fs')) \<Rightarrow> Some (Ret (Inl e, s1\<lparr>sv_mgr := mgr', sv_fs := fs'\<rparr>))
                     | Some (Ret (Inr st, mgr', fs')) \<Rightarrow>
                         Some (Ret (Inr (st, d), s1\<lparr>sv_mgr := mgr', sv_fs := fs'\<rparr>))))))"

text \<open>What every handler does first; \<open>k\<close> is its body on the open store.\<close>

definition with_store ::
  "('db, 'tx, 'fs, 'h) platformDeps \<Rightarrow> callenv \<Rightarrow> string \<Rightarrow> Role \<Rightarrow> bool \<Rightarrow>
   ('h \<Rightarrow> ('db, 'h, 'fs) server \<Rightarrow> (err + 'a) \<times> ('db, 'h, 'fs) server) \<Rightarrow> ('db, 'h, 'fs) server \<Rightarrow>
   ('a, 'db, 'h, 'fs) handled" where
  "with_store D q gid minRole submission k s =
     (case resolveStore D q (q_Subject q) gid minRole submission s of
        None \<Rightarrow> None
      | Some Panic \<Rightarrow> Some Panic
      | Some (Ret (Inl e, s1)) \<Rightarrow> Some (Ret (Inl e, s1))
      | Some (Ret (Inr (st, d), s1)) \<Rightarrow> Some (Ret (k st s1)))"

text \<open>A body that reads: parse nothing, open a read transaction, run \<open>f\<close>.\<close>

definition viewing ::
  "('fs, 'h, 'rtx, 'wtx, 'path, 'anc) core \<Rightarrow> ('rtx \<Rightarrow> err + 'a) \<Rightarrow>
   'h \<Rightarrow> ('db, 'h, 'fs) server \<Rightarrow> (err + 'a) \<times> ('db, 'h, 'fs) server" where
  "viewing C f st s =
     (case StoreView C st (sv_fs s) of Inl e \<Rightarrow> (Inl e, s) | Inr rtx \<Rightarrow> (f rtx, s))"

definition on_fs :: "('fs \<Rightarrow> (err + 'a) \<times> 'fs) \<Rightarrow> ('db, 'h, 'fs) server \<Rightarrow> (err + 'a) \<times> ('db, 'h, 'fs) server" where
  "on_fs f s = (case f (sv_fs s) of (r, fs') \<Rightarrow> (r, s\<lparr>sv_fs := fs'\<rparr>))"

section \<open>Persons, relationships, sources\<close>

definition GetPerson ::
  "('fs, 'h, 'rtx, 'wtx, 'path, 'anc) core \<Rightarrow> ('db, 'tx, 'fs, 'h) platformDeps \<Rightarrow> callenv \<Rightarrow> pb_GetPersonRequest \<Rightarrow>
   ('db, 'h, 'fs) server \<Rightarrow> (pb_GetPersonResponse, 'db, 'h, 'fs) handled" where
  "GetPerson C D q req =
     with_store D q (GetPersonRequest_GenealogyId req) RoleViewer False (\<lambda>st s.
       case idFromProto C (GetPersonRequest_Id req) of
         Inl e \<Rightarrow> (Inl e, s)
       | Inr i \<Rightarrow>
           viewing C (\<lambda>rtx.
             case rtx_GetPerson C rtx i of
               Inl e \<Rightarrow> Inl e
             | Inr p \<Rightarrow> Inr \<lparr>GetPersonResponse_Person = Some (personToProto C p),
                             GetPersonResponse_GraphVersion = Version C rtx\<rparr>) st s)"

definition ListPersons ::
  "('fs, 'h, 'rtx, 'wtx, 'path, 'anc) core \<Rightarrow> ('db, 'tx, 'fs, 'h) platformDeps \<Rightarrow> callenv \<Rightarrow> pb_ListPersonsRequest \<Rightarrow>
   ('db, 'h, 'fs) server \<Rightarrow> (pb_ListPersonsResponse, 'db, 'h, 'fs) handled" where
  "ListPersons C D q req =
     with_store D q (ListPersonsRequest_GenealogyId req) RoleViewer False
       (viewing C (\<lambda>rtx.
          case IteratePersons C rtx of
            (ps, Inl e) \<Rightarrow> Inl e
          | (ps, Inr _) \<Rightarrow> Inr \<lparr>ListPersonsResponse_Persons = map (personToProto C) ps,
                               ListPersonsResponse_NextPageToken = [],
                               ListPersonsResponse_GraphVersion = Version C rtx\<rparr>))"

definition GetRelationship ::
  "('fs, 'h, 'rtx, 'wtx, 'path, 'anc) core \<Rightarrow> ('db, 'tx, 'fs, 'h) platformDeps \<Rightarrow> callenv \<Rightarrow> pb_GetRelationshipRequest \<Rightarrow>
   ('db, 'h, 'fs) server \<Rightarrow> (pb_GetRelationshipResponse, 'db, 'h, 'fs) handled" where
  "GetRelationship C D q req =
     with_store D q (GetRelationshipRequest_GenealogyId req) RoleViewer False (\<lambda>st s.
       case idFromProto C (GetRelationshipRequest_Id req) of
         Inl e \<Rightarrow> (Inl e, s)
       | Inr i \<Rightarrow>
           viewing C (\<lambda>rtx.
             case rtx_GetRelationship C rtx i of
               Inl e \<Rightarrow> Inl e
             | Inr r \<Rightarrow> Inr \<lparr>GetRelationshipResponse_Relationship = Some (relationshipToProto C r),
                             GetRelationshipResponse_GraphVersion = Version C rtx\<rparr>) st s)"

definition ListRelationships ::
  "('fs, 'h, 'rtx, 'wtx, 'path, 'anc) core \<Rightarrow> ('db, 'tx, 'fs, 'h) platformDeps \<Rightarrow> callenv \<Rightarrow> pb_ListRelationshipsRequest \<Rightarrow>
   ('db, 'h, 'fs) server \<Rightarrow> (pb_ListRelationshipsResponse, 'db, 'h, 'fs) handled" where
  "ListRelationships C D q req =
     with_store D q (ListRelationshipsRequest_GenealogyId req) RoleViewer False
       (viewing C (\<lambda>rtx.
          case IterateRelationships C rtx of
            (rs, Inl e) \<Rightarrow> Inl e
          | (rs, Inr _) \<Rightarrow> Inr \<lparr>ListRelationshipsResponse_Relationships = map (relationshipToProto C) rs,
                               ListRelationshipsResponse_NextPageToken = [],
                               ListRelationshipsResponse_GraphVersion = Version C rtx\<rparr>))"

definition GetSource ::
  "('fs, 'h, 'rtx, 'wtx, 'path, 'anc) core \<Rightarrow> ('db, 'tx, 'fs, 'h) platformDeps \<Rightarrow> callenv \<Rightarrow> pb_GetSourceRequest \<Rightarrow>
   ('db, 'h, 'fs) server \<Rightarrow> (pb_GetSourceResponse, 'db, 'h, 'fs) handled" where
  "GetSource C D q req =
     with_store D q (GetSourceRequest_GenealogyId req) RoleViewer False (\<lambda>st s.
       case idFromProto C (GetSourceRequest_Id req) of
         Inl e \<Rightarrow> (Inl e, s)
       | Inr i \<Rightarrow>
           viewing C (\<lambda>rtx.
             case rtx_GetSource C rtx i of
               Inl e \<Rightarrow> Inl e
             | Inr src \<Rightarrow> Inr \<lparr>GetSourceResponse_Source = Some (sourceToProto C src),
                               GetSourceResponse_GraphVersion = Version C rtx\<rparr>) st s)"

definition ListSources ::
  "('fs, 'h, 'rtx, 'wtx, 'path, 'anc) core \<Rightarrow> ('db, 'tx, 'fs, 'h) platformDeps \<Rightarrow> callenv \<Rightarrow> pb_ListSourcesRequest \<Rightarrow>
   ('db, 'h, 'fs) server \<Rightarrow> (pb_ListSourcesResponse, 'db, 'h, 'fs) handled" where
  "ListSources C D q req =
     with_store D q (ListSourcesRequest_GenealogyId req) RoleViewer False
       (viewing C (\<lambda>rtx.
          case IterateSources C rtx of
            (ss, Inl e) \<Rightarrow> Inl e
          | (ss, Inr _) \<Rightarrow> Inr \<lparr>ListSourcesResponse_Sources = map (sourceToProto C) ss,
                               ListSourcesResponse_NextPageToken = [],
                               ListSourcesResponse_GraphVersion = Version C rtx\<rparr>))"

section \<open>Proposals\<close>

definition GetProposal ::
  "('fs, 'h, 'rtx, 'wtx, 'path, 'anc) core \<Rightarrow> ('db, 'tx, 'fs, 'h) platformDeps \<Rightarrow> callenv \<Rightarrow> pb_GetProposalRequest \<Rightarrow>
   ('db, 'h, 'fs) server \<Rightarrow> (pb_GetProposalResponse, 'db, 'h, 'fs) handled" where
  "GetProposal C D q req =
     with_store D q (GetProposalRequest_GenealogyId req) RoleViewer False (\<lambda>st s.
       case idFromProto C (GetProposalRequest_Id req) of
         Inl e \<Rightarrow> (Inl e, s)
       | Inr i \<Rightarrow>
           viewing C (\<lambda>rtx.
             case rtx_GetProposal C rtx i of
               Inl e \<Rightarrow> Inl e
             | Inr p \<Rightarrow> Inr \<lparr>GetProposalResponse_Proposal = Some (proposalToProto C p),
                             GetProposalResponse_GraphVersion = Version C rtx\<rparr>) st s)"

definition ListProposals ::
  "('fs, 'h, 'rtx, 'wtx, 'path, 'anc) core \<Rightarrow> ('db, 'tx, 'fs, 'h) platformDeps \<Rightarrow> callenv \<Rightarrow> pb_ListProposalsRequest \<Rightarrow>
   ('db, 'h, 'fs) server \<Rightarrow> (pb_ListProposalsResponse, 'db, 'h, 'fs) handled" where
  "ListProposals C D q req =
     with_store D q (ListProposalsRequest_GenealogyId req) RoleViewer False
       (viewing C (\<lambda>rtx.
          let filt = proposalStateFromProto C (ListProposalsRequest_StateFilter req) in
          case IterateProposals C rtx of
            (ps, Inl e) \<Rightarrow> Inl e
          | (ps, Inr _) \<Rightarrow>
              Inr \<lparr>ListProposalsResponse_Proposals =
                     map (proposalToProto C) (filter (\<lambda>p. \<not> (filt \<noteq> zero_ProposalState C \<and> pr_State p \<noteq> filt)) ps),
                   ListProposalsResponse_NextPageToken = [],
                   ListProposalsResponse_GraphVersion = Version C rtx\<rparr>))"

text \<open>The loop over the source ids of a new proposal.\<close>

fun parse_ids :: "('fs, 'h, 'rtx, 'wtx, 'path, 'anc) core \<Rightarrow> pb_Id list \<Rightarrow> err + ID list" where
  "parse_ids C [] = Inr []"
| "parse_ids C (p # ps) =
     (case idFromProto C (Some p) of
        Inl e \<Rightarrow> Inl e
      | Inr i \<Rightarrow> (case parse_ids C ps of Inl e \<Rightarrow> Inl e | Inr is \<Rightarrow> Inr (i # is)))"

text \<open>\<open>q_uuid\<close> is the fresh id, \<open>q_Now q 0\<close> the time of the proposal.\<close>

definition CreateProposal ::
  "('fs, 'h, 'rtx, 'wtx, 'path, 'anc) core \<Rightarrow> ('db, 'tx, 'fs, 'h) platformDeps \<Rightarrow> callenv \<Rightarrow> pb_CreateProposalRequest \<Rightarrow>
   ('db, 'h, 'fs) server \<Rightarrow> (pb_CreateProposalResponse, 'db, 'h, 'fs) handled" where
  "CreateProposal C D q req =
     with_store D q (CreateProposalRequest_GenealogyId req) RoleContributor True (\<lambda>st s.
       case idFromProto C (CreateProposalRequest_TargetId req) of
         Inl e \<Rightarrow> (Inl e, s)
       | Inr target \<Rightarrow>
       (case idFromProto C (CreateProposalRequest_SecondaryId req) of
          Inl e \<Rightarrow> (Inl e, s)
        | Inr secondary \<Rightarrow>
       (case parse_ids C (CreateProposalRequest_Sources req) of
          Inl e \<Rightarrow> (Inl e, s)
        | Inr srcIDs \<Rightarrow>
       (case NewProposal C (q_uuid q) (actionFromProto C (CreateProposalRequest_Action req))
               (entityKindFromProto C (CreateProposalRequest_EntityKind req))
               \<lparr>po_TargetID = target, po_SecondaryID = secondary, po_Payload = CreateProposalRequest_Payload req,
                po_Reason = CreateProposalRequest_Reason req, po_Sources = srcIDs, po_Author = q_Subject q,
                po_CreatedAt = q_Now q 0\<rparr> of
          Inl e \<Rightarrow> (Inl e, s)
        | Inr pp \<Rightarrow>
       (case on_fs (StoreUpdate C st (PutProposal C pp)) s of
          (Inl e, s1) \<Rightarrow> (Inl e, s1)
        | (Inr v, s1) \<Rightarrow>
            (Inr \<lparr>CreateProposalResponse_Proposal = Some (proposalToProto C pp),
                  CreateProposalResponse_GraphVersion = v\<rparr>, s1))))))"

definition transition ::
  "('fs, 'h, 'rtx, 'wtx, 'path, 'anc) core \<Rightarrow> ('db, 'tx, 'fs, 'h) platformDeps \<Rightarrow> callenv \<Rightarrow> pb_TransitionRequest \<Rightarrow>
   Role \<Rightarrow> bool \<Rightarrow> ('h \<Rightarrow> ID \<Rightarrow> string \<Rightarrow> int64 \<Rightarrow> 'fs \<Rightarrow> (err + Proposal) \<times> 'fs) \<Rightarrow>
   ('db, 'h, 'fs) server \<Rightarrow> (pb_Proposal, 'db, 'h, 'fs) handled" where
  "transition C D q req minRole submission fn =
     with_store D q (TransitionRequest_GenealogyId req) minRole submission (\<lambda>st s.
       case idFromProto C (TransitionRequest_Id req) of
         Inl e \<Rightarrow> (Inl e, s)
       | Inr i \<Rightarrow>
           (case on_fs (fn st i (q_Subject q) (q_Now q 0)) s of
              (Inl e, s1) \<Rightarrow> (Inl e, s1)
            | (Inr out, s1) \<Rightarrow> (Inr (proposalToProto C out), s1)))"

definition transitionWithReason ::
  "('fs, 'h, 'rtx, 'wtx, 'path, 'anc) core \<Rightarrow> ('db, 'tx, 'fs, 'h) platformDeps \<Rightarrow> callenv \<Rightarrow> pb_TransitionRequest \<Rightarrow>
   Role \<Rightarrow> bool \<Rightarrow> ('h \<Rightarrow> ID \<Rightarrow> string \<Rightarrow> int64 \<Rightarrow> string \<Rightarrow> 'fs \<Rightarrow> (err + Proposal) \<times> 'fs) \<Rightarrow>
   ('db, 'h, 'fs) server \<Rightarrow> (pb_Proposal, 'db, 'h, 'fs) handled" where
  "transitionWithReason C D q req minRole submission fn =
     with_store D q (TransitionRequest_GenealogyId req) minRole submission (\<lambda>st s.
       case idFromProto C (TransitionRequest_Id req) of
         Inl e \<Rightarrow> (Inl e, s)
       | Inr i \<Rightarrow>
           (case on_fs (fn st i (q_Subject q) (q_Now q 0) (TransitionRequest_Reason req)) s of
              (Inl e, s1) \<Rightarrow> (Inl e, s1)
            | (Inr out, s1) \<Rightarrow> (Inr (proposalToProto C out), s1)))"

definition Submit where
  "Submit C D q req = transition C D q req RoleContributor True (gov_Submit C)"

definition Withdraw where
  "Withdraw C D q req = transitionWithReason C D q req RoleContributor False (gov_Withdraw C)"

definition Claim where
  "Claim C D q req = transition C D q req RoleCurator False (gov_Claim C)"

definition Reject where
  "Reject C D q req = transitionWithReason C D q req RoleCurator False (gov_Reject C)"

text \<open>
  \<open>NewProposalsService\<close> always stores the dependencies, so the tests for missing dependencies in
  the next two functions never apply to a constructed service.
\<close>

definition qcheckCreatePerson :: "('db, 'tx, 'fs, 'h) platformDeps \<Rightarrow> string \<Rightarrow> 'db \<Rightarrow> err + unit" where
  "qcheckCreatePerson D gid db =
     (case CheckCreatePerson (dp_badger D) (dp_limits D) gid db of
        Inl e \<Rightarrow> Inl (invalid ''person quota exceeded'')
      | Inr _ \<Rightarrow> nil_err)"

definition qincPerson :: "('db, 'tx, 'fs, 'h) platformDeps \<Rightarrow> string \<Rightarrow> 'db \<Rightarrow> (err + unit) \<times> 'db" where
  "qincPerson D gid db = IncPerson (dp_badger D) gid db"

definition Accept ::
  "('fs, 'h, 'rtx, 'wtx, 'path, 'anc) core \<Rightarrow> ('db, 'tx, 'fs, 'h) platformDeps \<Rightarrow> callenv \<Rightarrow> pb_TransitionRequest \<Rightarrow>
   ('db, 'h, 'fs) server \<Rightarrow> (pb_Proposal, 'db, 'h, 'fs) handled" where
  "Accept C D q req =
     (let gid = TransitionRequest_GenealogyId req in
      with_store D q gid RoleCurator False (\<lambda>st s.
        case idFromProto C (TransitionRequest_Id req) of
          Inl e \<Rightarrow> (Inl e, s)
        | Inr i \<Rightarrow>
        (case StoreView C st (sv_fs s) of
           Inl e \<Rightarrow> (Inl e, s)
         | Inr rtx \<Rightarrow>
        (case rtx_GetProposal C rtx i of
           Inl e \<Rightarrow> (Inl e, s)
         | Inr pendingProp \<Rightarrow>
             (let createsPerson = (pr_Action pendingProp = ProposalActionCreate \<and>
                                   pr_EntityKind pendingProp = EntityKindPerson) in
              case (if createsPerson then qcheckCreatePerson D gid (sv_db s) else nil_err) of
                Inl e \<Rightarrow> (Inl e, s)
              | Inr _ \<Rightarrow>
                  (case on_fs (gov_Accept C st i (q_Subject q) (q_Now q 0)) s of
                     (Inl e, s1) \<Rightarrow> (Inl e, s1)
                   | (Inr out, s1) \<Rightarrow>
                       (Inr (proposalToProto C out),
                        if createsPerson then snd (on_db (qincPerson D gid) s1) else s1)))))))"

text \<open>The loop of \<open>BulkReject\<close>: one result per id, errors reported and skipped.\<close>

fun bulk_reject ::
  "('fs, 'h, 'rtx, 'wtx, 'path, 'anc) core \<Rightarrow> 'h \<Rightarrow> string \<Rightarrow> int64 \<Rightarrow> string \<Rightarrow> pb_Id list \<Rightarrow> 'fs \<Rightarrow>
   pb_BulkRejectResult list \<times> 'fs" where
  "bulk_reject C st actor now reason [] fs = ([], fs)"
| "bulk_reject C st actor now reason (p # ps) fs =
     (let (res, fs1) =
        (case idFromProto C (Some p) of
           Inl e \<Rightarrow> (\<lparr>BulkRejectResult_Id = Some p, BulkRejectResult_Ok = False,
                      BulkRejectResult_Error = Error_String C e\<rparr>, fs)
         | Inr i \<Rightarrow>
             (case gov_Reject C st i actor now reason fs of
                (Inl e, fs1) \<Rightarrow> (\<lparr>BulkRejectResult_Id = Some p, BulkRejectResult_Ok = False,
                                  BulkRejectResult_Error = Error_String C e\<rparr>, fs1)
              | (Inr _, fs1) \<Rightarrow> (\<lparr>BulkRejectResult_Id = Some p, BulkRejectResult_Ok = True,
                                  BulkRejectResult_Error = []\<rparr>, fs1)));
          (rest, fs2) = bulk_reject C st actor now reason ps fs1
      in (res # rest, fs2))"

definition BulkReject ::
  "('fs, 'h, 'rtx, 'wtx, 'path, 'anc) core \<Rightarrow> ('db, 'tx, 'fs, 'h) platformDeps \<Rightarrow> callenv \<Rightarrow> pb_BulkRejectRequest \<Rightarrow>
   ('db, 'h, 'fs) server \<Rightarrow> (pb_BulkRejectResponse, 'db, 'h, 'fs) handled" where
  "BulkReject C D q req =
     with_store D q (BulkRejectRequest_GenealogyId req) RoleCurator False (\<lambda>st s.
       let reason = (if BulkRejectRequest_Reason req = [] then ''bulk reject'' else BulkRejectRequest_Reason req) in
       case bulk_reject C st (q_Subject q) (q_Now q 0) reason (BulkRejectRequest_Ids req) (sv_fs s) of
         (results, fs') \<Rightarrow> (Inr \<lparr>BulkRejectResponse_Results = results\<rparr>, s\<lparr>sv_fs := fs'\<rparr>))"

section \<open>Queries\<close>

fun explain_paths ::
  "('fs, 'h, 'rtx, 'wtx, 'path, 'anc) core \<Rightarrow> 'rtx \<Rightarrow> 'path list \<Rightarrow> err + pb_Path list" where
  "explain_paths C rtx [] = Inr []"
| "explain_paths C rtx (p # ps) =
     (case explain_Path C rtx p of
        Inl e \<Rightarrow> Inl e
      | Inr x \<Rightarrow> (case explain_paths C rtx ps of Inl e \<Rightarrow> Inl e | Inr xs \<Rightarrow> Inr (pathExplanationToProto C x # xs)))"

definition FindPaths ::
  "('fs, 'h, 'rtx, 'wtx, 'path, 'anc) core \<Rightarrow> ('db, 'tx, 'fs, 'h) platformDeps \<Rightarrow> callenv \<Rightarrow> pb_FindPathsRequest \<Rightarrow>
   ('db, 'h, 'fs) server \<Rightarrow> (pb_FindPathsResponse, 'db, 'h, 'fs) handled" where
  "FindPaths C D q req =
     with_store D q (FindPathsRequest_GenealogyId req) RoleViewer False (\<lambda>st s.
       case idFromProto C (FindPathsRequest_From req) of
         Inl e \<Rightarrow> (Inl e, s)
       | Inr from_id \<Rightarrow>
       (case idFromProto C (FindPathsRequest_To req) of
          Inl e \<Rightarrow> (Inl e, s)
        | Inr to_id \<Rightarrow>
            viewing C (\<lambda>rtx.
              case query_FindPaths C rtx from_id to_id
                     \<lparr>MaxDepth = scast (FindPathsRequest_MaxDepth req),
                      MaxPaths = scast (FindPathsRequest_MaxPaths req),
                      IncludeAffinal = FindPathsRequest_IncludeAffinal req\<rparr> of
                Inl e \<Rightarrow> Inl e
              | Inr paths \<Rightarrow>
                  (case explain_paths C rtx paths of
                     Inl e \<Rightarrow> Inl e
                   | Inr out \<Rightarrow> Inr \<lparr>FindPathsResponse_Paths = out,
                                     FindPathsResponse_GraphVersion = Version C rtx\<rparr>)) st s))"

definition NKCA ::
  "('fs, 'h, 'rtx, 'wtx, 'path, 'anc) core \<Rightarrow> ('db, 'tx, 'fs, 'h) platformDeps \<Rightarrow> callenv \<Rightarrow> pb_NKCARequest \<Rightarrow>
   ('db, 'h, 'fs) server \<Rightarrow> (pb_NKCAResponse, 'db, 'h, 'fs) handled" where
  "NKCA C D q req =
     with_store D q (NKCARequest_GenealogyId req) RoleViewer False (\<lambda>st s.
       case idFromProto C (NKCARequest_A req) of
         Inl e \<Rightarrow> (Inl e, s)
       | Inr a \<Rightarrow>
       (case idFromProto C (NKCARequest_B req) of
          Inl e \<Rightarrow> (Inl e, s)
        | Inr b \<Rightarrow>
            viewing C (\<lambda>rtx.
              case query_NearestKnownCommonAncestor C rtx a b
                     \<lparr>MaxDepth = 0, MaxPaths = 0, IncludeAffinal = False\<rparr> of
                Inl e \<Rightarrow> Inl e
              | Inr res \<Rightarrow>
                  (case explain_CommonAncestor C rtx res of
                     Inl e \<Rightarrow> Inl e
                   | Inr x \<Rightarrow>
                       Inr \<lparr>NKCAResponse_AncestorId = Some \<lparr>Id_Value = ID_String C (a_AncestorID x)\<rparr>,
                            NKCAResponse_AncestorIsUnknown = a_AncestorIsUnknown x,
                            NKCAResponse_TotalGenerations = ucast (a_TotalGenerations x),
                            NKCAResponse_CombinedCertainty = certaintyToProto (a_CombinedCertainty x),
                            NKCAResponse_PathFromA = map_option (pathExplanationToProto C) (a_PathFromA x),
                            NKCAResponse_PathFromB = map_option (pathExplanationToProto C) (a_PathFromB x),
                            NKCAResponse_GraphVersion = a_GraphVersion x\<rparr>)) st s))"

section \<open>Version\<close>

definition specVersion :: string where
  "specVersion = ''v1.1.0''"

definition Version_rpc :: "string \<Rightarrow> pb_VersionResponse" where
  "Version_rpc ServerVersion =
     \<lparr>VersionResponse_SpecVersion = specVersion, VersionResponse_ServerVersion = ServerVersion,
      VersionResponse_GraphVersion = 0, VersionResponse_TenantId = []\<rparr>"

end
