(* ===== verification/Services_Laws.thy ===== *)
theory Services_Laws
  imports Genealogies_Props Services
begin

text \<open>
  Laws of the services over one genealogy's graph: the gate in front of every handler is sound
  even when database calls fail, refused calls change nothing but the decision cache, reads write
  nothing, accepting proposals respects the person quota, and \<open>BulkReject\<close> handles every id.
\<close>

section \<open>The gate\<close>

text \<open>
  Whatever fails, a store is only handed out for a decision the records grant, with at least
  the role asked for, and for a submission only without a ban; the database is not touched.
\<close>

lemma IsBanned_False:
  assumes "badger_db B kv tkv" and "IsBanned B gid sub db = Inr False"
  shows "kv db (banKey gid sub) = None"
proof (cases "GetBan B gid sub db")
  case (Inr b)
  with assms(2) show ?thesis by (simp add: IsBanned_def)
next
  case (Inl e)
  with assms(2) have e: "errors_Is e ErrNotFound" by (auto simp: IsBanned_def split: if_splits)
  have "e = ErrNotFound"
  proof (rule ccontr)
    assume "e \<noteq> ErrNotFound"
    with Inl have "e = ErrJson \<or> (\<exists>b. e = ErrBadger b)"
      by (auto simp: GetBan_def get_def View_def UnmarshalBan_def split: sum.splits if_splits dest: Unmarshal_err)
    with e show False by auto
  qed
  with Inl show ?thesis unfolding GetBan_def by (intro badger_db.get_absent [OF assms(1)]) auto
qed

lemma resolveStore_sound:
  assumes B: "badger_db (dp_badger D) kv tkv"
    and wf: "platform_wf (kv (sv_db s))" and coh: "coherent (kv (sv_db s)) (sv_cache s)"
    and run: "resolveStore D q sub gid minRole submission s = Some (Ret (r, s'))"
  shows "sv_db s' = sv_db s \<and> coherent (kv (sv_db s)) (sv_cache s') \<and>
    (case r of
       Inl e \<Rightarrow> True
     | Inr (st, d) \<Rightarrow> granted (kv (sv_db s)) sub gid = Some d \<and> minRole \<le> d_Role d \<and>
         (submission \<and> sub \<noteq> [] \<longrightarrow> kv (sv_db s) (banKey gid sub) = None) \<and>
         Get (dp_store D) gid (sv_mgr s) (sv_fs s) = Some (Ret (Inr st, sv_mgr s', sv_fs s')))"
proof (cases "gid = []")
  case True
  with run coh show ?thesis by (auto simp: resolveStore_def)
next
  case False
  obtain ra ca where ra: "Resolve (dp_badger D) (q_t_get q) (q_t_put q) sub gid (sv_cache s) (sv_db s) = (ra, ca)"
    by (cases "Resolve (dp_badger D) (q_t_get q) (q_t_put q) sub gid (sv_cache s) (sv_db s)")
  let ?s1 = "s\<lparr>sv_cache := ca\<rparr>"
  have auth: "authz_Resolve D q sub gid s = (ra, ?s1)" by (simp add: authz_Resolve_def ra)
  have coh1: "coherent (kv (sv_db s)) ca" by (rule badger_db.Resolve_coherent [OF B ra wf coh])
  show ?thesis
  proof (cases ra)
    case (Inl e)
    with run False auth coh1 show ?thesis by (auto simp: resolveStore_def split: if_splits)
  next
    case (Inr d)
    have gr: "granted (kv (sv_db s)) sub gid = Some d"
      using badger_db.Resolve_sound [OF B ra [unfolded Inr] wf coh] by simp
    show ?thesis
    proof (cases "d_Role d < minRole")
      case True
      with run False auth Inr coh1 show ?thesis by (auto simp: resolveStore_def)
    next
      case role: False
      show ?thesis
      proof (cases "ban_check (dp_badger D) gid sub submission (sv_db s) = Inr False")
        case True
        then have nb: "submission \<and> sub \<noteq> [] \<longrightarrow> kv (sv_db s) (banKey gid sub) = None"
          using IsBanned_False [OF B] by (auto simp: ban_check_def split: if_splits)
        show ?thesis
          using run False auth Inr role True coh1 gr nb
          by (auto simp: resolveStore_def not_less split: option.splits outcome.splits sum.splits)
      next
        case nb: False
        then show ?thesis
          using run False auth Inr role coh1 by (auto simp: resolveStore_def split: sum.splits bool.splits)
      qed
    qed
  qed
qed



definition responds :: "('a, 'db, 'h, 'fs) handled \<Rightarrow> bool" where
  "responds h = (case h of Some (Ret (Inr _, _)) \<Rightarrow> True | _ \<Rightarrow> False)"

lemma respondsE: "responds h \<Longrightarrow> (\<And>x s. h = Some (Ret (Inr x, s)) \<Longrightarrow> P) \<Longrightarrow> P"
  by (auto simp: responds_def split: option.splits outcome.splits sum.splits prod.splits)

definition sim_propose :: pb_CreateProposalRequest where
  "sim_propose = \<lparr>CreateProposalRequest_GenealogyId = ''g1'', CreateProposalRequest_Action = PROPOSAL_ACTION_CREATE,
     CreateProposalRequest_EntityKind = ENTITY_KIND_PERSON, CreateProposalRequest_TargetId = None,
     CreateProposalRequest_SecondaryId = None, CreateProposalRequest_Payload = ''Ada'', CreateProposalRequest_Reason = [],
     CreateProposalRequest_Sources = []\<rparr>"


section \<open>Refusals\<close>

lemma resolveStore_refused:
  assumes svc: "service D kv tkv" and ok: "server_ok kv s" and gid: "gid \<noteq> []"
    and refused: "(\<forall>d. granted (kv (sv_db s)) sub gid = Some d \<longrightarrow> d_Role d < minRole) \<or>
      submission \<and> sub \<noteq> [] \<and> (\<exists>b. kv (sv_db s) (banKey gid sub) = Some (MarshalBan b))"
  shows "\<exists>e s'. resolveStore D q sub gid minRole submission s = Some (Ret (Inl e, s')) \<and> recached s s' \<and> server_ok kv s'"
proof -
  from service.authz_Resolve_run [OF svc ok, of q sub gid] obtain s1 where s1: "recached s s1" "server_ok kv s1"
    and auth: "authz_Resolve D q sub gid s =
      (case granted (kv (sv_db s)) sub gid of Some d \<Rightarrow> Inr d | None \<Rightarrow> Inl ErrNotAllowed, s1)" by blast
  have "\<exists>e. resolveStore D q sub gid minRole submission s = Some (Ret (Inl e, s1))"
  proof (cases "granted (kv (sv_db s)) sub gid")
    case None
    then show ?thesis using gid auth by (simp add: resolveStore_def)
  next
    case (Some d)
    show ?thesis
    proof (cases "d_Role d < minRole")
      case True
      then show ?thesis using gid auth Some by (simp add: resolveStore_def)
    next
      case False
      then obtain b where b: "submission" "sub \<noteq> []" "kv (sv_db s) (banKey gid sub) = Some (MarshalBan b)"
        using refused Some by auto
      then have "ban_check (dp_badger D) gid sub submission (sv_db s1) = Inr True"
        using s1(1) badger_total.Get_eqs(4) [OF svc [unfolded service_def], of gid sub "sv_db s"]
        by (simp add: ban_check_def IsBanned_def lookup_def)
      then show ?thesis using gid auth Some False by (simp add: resolveStore_def)
    qed
  qed
  with s1 show ?thesis by blast
qed

text \<open>
  C13: a refused call has no effect. When the access rule gives the caller less than the role the
  procedure asks for, or the caller is banned and the procedure submits a proposal, the handler
  returns an error, no store is opened, and nothing but the decision cache changes.
\<close>

theorem refused_calls_have_no_effect:
  assumes "badger_total (dp_badger D) kv tkv" and "server_ok kv s" and "gid \<noteq> []"
    and "(\<forall>d. granted (kv (sv_db s)) (q_Subject q) gid = Some d \<longrightarrow> d_Role d < minRole) \<or>
      submission \<and> q_Subject q \<noteq> [] \<and> (\<exists>b. kv (sv_db s) (banKey gid (q_Subject q)) = Some (MarshalBan b))"
  shows "\<exists>e s'. with_store D q gid minRole submission k s = Some (Ret (Inl e, s')) \<and>
    sv_db s' = sv_db s \<and> sv_mgr s' = sv_mgr s \<and> sv_fs s' = sv_fs s"
proof -
  from resolveStore_refused [OF service_of [OF assms(1)] assms(2-4)] obtain e s' where
    "resolveStore D q (q_Subject q) gid minRole submission s = Some (Ret (Inl e, s'))" "recached s s'" by blast
  then show ?thesis by (auto simp: with_store_def)
qed

theorem refused_calls_have_no_effect_witness:
  "\<exists>e s'. CreateProposal sim_core sim_deps (sim_call ''eve'') sim_propose sim_server = Some (Ret (Inl e, s')) \<and>
     sv_fs s' = sv_fs sim_server"
  unfolding CreateProposal_def
  using refused_calls_have_no_effect [OF sim_total sim_ok, of "CreateProposalRequest_GenealogyId sim_propose" "sim_call ''eve''"
      RoleContributor True] sim_granted(3)
  by (fastforce simp: sim_propose_def sim_call_def sim_server_def)

section \<open>Reads\<close>

text \<open>A body that keeps the database, the cache and the outside state.\<close>

lemma viewing_frame: "snd (viewing C f st s) = s"
  by (simp add: viewing_def split: sum.splits)

definition only_opened :: "('db, 'tx, 'fs, 'h) platformDeps \<Rightarrow> string \<Rightarrow> ('db, 'h, 'fs) server \<Rightarrow> ('db, 'h, 'fs) server \<Rightarrow> bool" where
  "only_opened D gid s s' \<longleftrightarrow> sv_db s' = sv_db s \<and>
     (sv_mgr s' = sv_mgr s \<and> sv_fs s' = sv_fs s \<or>
      (\<exists>r. Get (dp_store D) gid (sv_mgr s) (sv_fs s) = Some (Ret (r, sv_mgr s', sv_fs s'))))"

lemma resolveStore_only_opened:
  assumes "resolveStore D q sub gid minRole submission s = Some (Ret (r, s'))"
  shows "only_opened D gid s s'"
proof -
  obtain ra s1 where auth: "authz_Resolve D q sub gid s = (ra, s1)" by (cases "authz_Resolve D q sub gid s")
  then have s1: "sv_db s1 = sv_db s" "sv_mgr s1 = sv_mgr s" "sv_fs s1 = sv_fs s"
    by (auto simp: authz_Resolve_def split: prod.splits)
  show ?thesis
    using assms auth s1 unfolding only_opened_def
    by (auto simp: resolveStore_def split: if_splits sum.splits bool.splits option.splits outcome.splits)
qed

lemma with_store_cases:
  assumes "with_store D q gid minRole submission k s = Some (Ret (r, s'))"
  shows "(\<exists>e. r = Inl e) \<and> only_opened D gid s s' \<or> (\<exists>st s1. only_opened D gid s s1 \<and> k st s1 = (r, s'))"
proof (cases "resolveStore D q (q_Subject q) gid minRole submission s")
  case None
  with assms show ?thesis by (simp add: with_store_def)
next
  case (Some out)
  show ?thesis
  proof (cases out)
    case Panic
    with assms Some show ?thesis by (simp add: with_store_def)
  next
    case (Ret p)
    obtain r1 s1 where p: "p = (r1, s1)" by (cases p)
    have "only_opened D gid s s1" using resolveStore_only_opened Some Ret p by metis
    with assms Some Ret p show ?thesis by (cases r1) (auto simp: with_store_def split: prod.splits)
  qed
qed

lemma with_store_read:
  assumes "\<And>st s. snd (k st s) = s" and "with_store D q gid minRole submission k s = Some (Ret (r, s'))"
  shows "only_opened D gid s s'"
  using with_store_cases [OF assms(2)] assms(1) by (metis snd_conv)

lemma parse_then_view_frame:
  "snd (case x of Inl e \<Rightarrow> (Inl e, s) | Inr i \<Rightarrow> viewing C (f i) st s) = s"
  "snd (case x of Inl e \<Rightarrow> (Inl e, s) | Inr i \<Rightarrow>
     (case y of Inl e \<Rightarrow> (Inl e, s) | Inr j \<Rightarrow> viewing C (g i j) st s)) = s"
  by (auto simp: viewing_frame split: sum.splits)

text \<open>
  The read procedures write nothing: whatever their outcome, the platform database is
  unchanged, and the tenant manager and the outside state are unchanged or what opening this
  genealogy's store made of them.
\<close>

theorem reads_write_nothing:
  "(GetPerson C D q gp s = Some (Ret (xa, s')) \<longrightarrow> only_opened D (GetPersonRequest_GenealogyId gp) s s') \<and>
   (ListPersons C D q lp s = Some (Ret (xb, s')) \<longrightarrow> only_opened D (ListPersonsRequest_GenealogyId lp) s s') \<and>
   (GetRelationship C D q gr s = Some (Ret (xc, s')) \<longrightarrow> only_opened D (GetRelationshipRequest_GenealogyId gr) s s') \<and>
   (ListRelationships C D q lr s = Some (Ret (xd, s')) \<longrightarrow> only_opened D (ListRelationshipsRequest_GenealogyId lr) s s') \<and>
   (GetSource C D q gs s = Some (Ret (xe, s')) \<longrightarrow> only_opened D (GetSourceRequest_GenealogyId gs) s s') \<and>
   (ListSources C D q ls s = Some (Ret (xf, s')) \<longrightarrow> only_opened D (ListSourcesRequest_GenealogyId ls) s s') \<and>
   (GetProposal C D q gpr s = Some (Ret (xg, s')) \<longrightarrow> only_opened D (GetProposalRequest_GenealogyId gpr) s s') \<and>
   (ListProposals C D q lpr s = Some (Ret (xh, s')) \<longrightarrow> only_opened D (ListProposalsRequest_GenealogyId lpr) s s') \<and>
   (FindPaths C D q fp s = Some (Ret (xi, s')) \<longrightarrow> only_opened D (FindPathsRequest_GenealogyId fp) s s') \<and>
   (NKCA C D q nk s = Some (Ret (xj, s')) \<longrightarrow> only_opened D (NKCARequest_GenealogyId nk) s s')"
  unfolding GetPerson_def ListPersons_def GetRelationship_def ListRelationships_def GetSource_def ListSources_def
    GetProposal_def ListProposals_def FindPaths_def NKCA_def
  by (intro conjI impI; erule with_store_read [rotated]; simp only: viewing_frame parse_then_view_frame)

definition sim_list :: pb_ListProposalsRequest where
  "sim_list = \<lparr>ListProposalsRequest_GenealogyId = ''g1'', ListProposalsRequest_PageSize = 0,
     ListProposalsRequest_PageToken = [], ListProposalsRequest_StateFilter = PROPOSAL_STATE_UNSPECIFIED\<rparr>"

theorem reads_write_nothing_witness:
  "\<exists>x s'. ListProposals sim_core sim_deps (sim_call ''bob'') sim_list sim_server = Some (Ret (Inr x, s')) \<and>
     sv_db s' = sv_db sim_server"
proof -
  have "responds (ListProposals sim_core sim_deps (sim_call ''bob'') sim_list sim_server)" by code_simp
  then obtain x s' where run: "ListProposals sim_core sim_deps (sim_call ''bob'') sim_list sim_server = Some (Ret (Inr x, s'))"
    by (rule respondsE)
  have "only_opened sim_deps (ListProposalsRequest_GenealogyId sim_list) sim_server s'"
    using reads_write_nothing [where C = sim_core and D = sim_deps and q = "sim_call ''bob''" and lpr = sim_list
        and s = sim_server and xh = "Inr x" and s' = s'] run by blast
  with run show ?thesis by (auto simp: only_opened_def)
qed

section \<open>Accepting proposals\<close>

text \<open>A handler body that ran did so on the store the tenant manager returned for the id.\<close>

lemma resolveStore_opened:
  assumes "resolveStore D q sub gid minRole submission s = Some (Ret (Inr (st, d), s'))"
  shows "sv_db s' = sv_db s \<and> Get (dp_store D) gid (sv_mgr s) (sv_fs s) = Some (Ret (Inr st, sv_mgr s', sv_fs s'))"
proof -
  obtain ra s1 where auth: "authz_Resolve D q sub gid s = (ra, s1)" by (cases "authz_Resolve D q sub gid s")
  then have "sv_db s1 = sv_db s" "sv_mgr s1 = sv_mgr s" "sv_fs s1 = sv_fs s"
    by (auto simp: authz_Resolve_def split: prod.splits)
  with assms auth show ?thesis
    by (auto simp: resolveStore_def split: if_splits sum.splits bool.splits option.splits outcome.splits)
qed

lemma with_store_opened:
  assumes "with_store D q gid minRole submission k s = Some (Ret (r, s'))"
  shows "(\<exists>e. r = Inl e) \<and> sv_db s' = sv_db s \<or>
    (\<exists>st s1. sv_db s1 = sv_db s \<and> Get (dp_store D) gid (sv_mgr s) (sv_fs s) = Some (Ret (Inr st, sv_mgr s1, sv_fs s1)) \<and>
       k st s1 = (r, s'))"
proof (cases "\<exists>st d s1. resolveStore D q (q_Subject q) gid minRole submission s = Some (Ret (Inr (st, d), s1))")
  case True
  with assms resolveStore_opened show ?thesis by (fastforce simp: with_store_def)
next
  case False
  with assms have "\<exists>e. r = Inl e" "only_opened D gid s s'"
    using resolveStore_only_opened [of D q "q_Subject q" gid minRole submission s "Inl (projl r)" s']
    by (auto simp: with_store_def split: option.splits outcome.splits sum.splits prod.splits)
  then show ?thesis by (simp add: only_opened_def)
qed

definition creates_person :: "Proposal \<Rightarrow> bool" where
  "creates_person pp \<longleftrightarrow> pr_Action pp = ProposalActionCreate \<and> pr_EntityKind pp = EntityKindPerson"

text \<open>
  A proposal is accepted: \<open>pending\<close> is what the store of the genealogy holds under the requested id,
  the library accepts it, and \<open>p\<close> is the message of the result.
\<close>

definition accepted ::
  "('fs, 'h, 'rtx, 'wtx, 'path, 'anc) core \<Rightarrow> ('db, 'tx, 'fs, 'h) platformDeps \<Rightarrow> callenv \<Rightarrow> pb_TransitionRequest \<Rightarrow>
   ('db, 'h, 'fs) server \<Rightarrow> Proposal \<Rightarrow> pb_Proposal \<Rightarrow> bool" where
  "accepted C D q req s pending p \<longleftrightarrow> (\<exists>st mgr fs i rtx out.
     Get (dp_store D) (TransitionRequest_GenealogyId req) (sv_mgr s) (sv_fs s) = Some (Ret (Inr st, mgr, fs)) \<and>
     idFromProto C (TransitionRequest_Id req) = Inr i \<and> StoreView C st fs = Inr rtx \<and>
     rtx_GetProposal C rtx i = Inr pending \<and>
     fst (gov_Accept C st i (q_Subject q) (q_Now q 0) fs) = Inr out \<and> p = proposalToProto C out)"

lemma Accept_db:
  assumes "Accept C D q req s = Some (Ret (r, s'))"
  shows "case r of
      Inl e \<Rightarrow> sv_db s' = sv_db s
    | Inr p \<Rightarrow> (\<exists>pending. accepted C D q req s pending p \<and>
        (if creates_person pending
         then CheckCreatePerson (dp_badger D) (dp_limits D) (TransitionRequest_GenealogyId req) (sv_db s) = nil_err \<and>
           sv_db s' = snd (IncPerson (dp_badger D) (TransitionRequest_GenealogyId req) (sv_db s))
         else sv_db s' = sv_db s))"
  using with_store_opened [OF assms [unfolded Accept_def Let_def]]
proof (elim disjE exE conjE)
  fix st s1
  assume db: "sv_db s1 = sv_db s"
    and o: "Get (dp_store D) (TransitionRequest_GenealogyId req) (sv_mgr s) (sv_fs s) = Some (Ret (Inr st, sv_mgr s1, sv_fs s1))"
    and "(case idFromProto C (TransitionRequest_Id req) of
       Inl e \<Rightarrow> (Inl e, s1)
     | Inr i \<Rightarrow> (case StoreView C st (sv_fs s1) of Inl e \<Rightarrow> (Inl e, s1)
       | Inr rtx \<Rightarrow> (case rtx_GetProposal C rtx i of Inl e \<Rightarrow> (Inl e, s1)
         | Inr pp \<Rightarrow>
             (case (if pr_Action pp = ProposalActionCreate \<and> pr_EntityKind pp = EntityKindPerson
                    then qcheckCreatePerson D (TransitionRequest_GenealogyId req) (sv_db s1) else nil_err) of
                Inl e \<Rightarrow> (Inl e, s1)
              | Inr _ \<Rightarrow>
                  (case on_fs (gov_Accept C st i (q_Subject q) (q_Now q 0)) s1 of
                     (Inl e, s2) \<Rightarrow> (Inl e, s2)
                   | (Inr out, s2) \<Rightarrow>
                       (Inr (proposalToProto C out),
                        if pr_Action pp = ProposalActionCreate \<and> pr_EntityKind pp = EntityKindPerson
                        then snd (on_db (qincPerson D (TransitionRequest_GenealogyId req)) s2) else s2)))))) = (r, s')"
  then show ?thesis
    using db o unfolding creates_person_def [symmetric]
    by (auto simp: accepted_def on_fs_def on_db_def qcheckCreatePerson_def qincPerson_def
        split: sum.splits prod.splits if_splits)
qed auto

lemma Accept_counts:
  assumes "badger_total (dp_badger D) kv tkv" and "counters_wf (kv (sv_db s))"
    and "MaxPersonsPerGenealogy (dp_limits D) \<noteq> 0" and "Accept C D q req s = Some (Ret (r, s'))"
  shows "case r of
      Inl e \<Rightarrow> sv_db s' = sv_db s
    | Inr p \<Rightarrow> (\<exists>pending. accepted C D q req s pending p \<and>
        (if creates_person pending
         then (\<exists>n. n \<le> MaxPersonsPerGenealogy (dp_limits D) \<and>
           unat n = unat (counter_at (kv (sv_db s)) (personCountKey (TransitionRequest_GenealogyId req))) + 1 \<and>
           kv (sv_db s') = (kv (sv_db s))(personCountKey (TransitionRequest_GenealogyId req) \<mapsto> Raw (PutUint64 n)))
         else sv_db s' = sv_db s))"
proof -
  let ?gid = "TransitionRequest_GenealogyId req" and ?lim = "MaxPersonsPerGenealogy (dp_limits D)"
  let ?c = "counter_at (kv (sv_db s)) (personCountKey ?gid)"
  note total = badger_total.Quota_eqs [OF assms(1,2)]
  have "\<exists>n. n \<le> ?lim \<and> unat n = unat ?c + 1 \<and> kv (sv_db s') = (kv (sv_db s))(personCountKey ?gid \<mapsto> Raw (PutUint64 n))"
    if chk: "CheckCreatePerson (dp_badger D) (dp_limits D) ?gid (sv_db s) = nil_err"
      and db: "sv_db s' = snd (IncPerson (dp_badger D) ?gid (sv_db s))"
  proof -
    have room: "?c < ?lim" using chk assms(3) unfolding total(2) by (auto split: if_splits)
    then have add: "unat (counter_add ?c 1) = unat ?c + 1"
      using unsigned_less [of ?lim, where 'a = nat] by (intro counter_add_one) (simp add: word_less_nat_alt)
    have "kv (sv_db s') = (kv (sv_db s))(personCountKey ?gid \<mapsto> Raw (PutUint64 (counter_add ?c 1)))"
      unfolding db total(5) using badger_total.kv_dinc [OF assms(1,2)] by simp
    moreover have "counter_add ?c 1 \<le> ?lim" using add room by (simp add: word_le_nat_alt word_less_nat_alt)
    ultimately show ?thesis using add by blast
  qed
  with Accept_db [OF assms(4)] show ?thesis by (auto split: sum.splits if_splits)
qed

lemma Accept_kv:
  assumes "badger_total (dp_badger D) kv tkv" and "counters_wf (kv (sv_db s))"
    and "MaxPersonsPerGenealogy (dp_limits D) \<noteq> 0" and "Accept C D q req s = Some (Ret (r, s'))"
  shows "sv_db s' = sv_db s \<or> (\<exists>p n. r = Inr p \<and> n \<le> MaxPersonsPerGenealogy (dp_limits D) \<and>
    unat n = unat (counter_at (kv (sv_db s)) (personCountKey (TransitionRequest_GenealogyId req))) + 1 \<and>
    kv (sv_db s') = (kv (sv_db s))(personCountKey (TransitionRequest_GenealogyId req) \<mapsto> Raw (PutUint64 n)))"
  using Accept_counts [OF assms] by (auto split: sum.splits if_splits)

text \<open>
  C14: the person quota. Accepting proposals one at a time never takes a genealogy's person count
  past the limit. Every successful call accepted the proposal stored under the requested id, and if that
  proposal creates a person, it raised the count of its genealogy by exactly one and changed nothing else in the platform
  database; any other call, refused ones included, changed nothing there.
\<close>

theorem Accept_within_person_quota:
  assumes "badger_total (dp_badger D) kv tkv" and "counters_wf (kv (sv_db s))"
    and "MaxPersonsPerGenealogy (dp_limits D) \<noteq> 0"
    and "\<forall>gid. counter_at (kv (sv_db s)) (personCountKey gid) \<le> MaxPersonsPerGenealogy (dp_limits D)"
    and "Accept C D q req s = Some (Ret (r, s'))"
  shows "counters_wf (kv (sv_db s')) \<and>
    (\<forall>gid. counter_at (kv (sv_db s')) (personCountKey gid) \<le> MaxPersonsPerGenealogy (dp_limits D)) \<and>
    (case r of
       Inl e \<Rightarrow> sv_db s' = sv_db s
     | Inr p \<Rightarrow> (\<exists>pending. accepted C D q req s pending p \<and>
         (if creates_person pending
          then unat (counter_at (kv (sv_db s')) (personCountKey (TransitionRequest_GenealogyId req))) =
              unat (counter_at (kv (sv_db s)) (personCountKey (TransitionRequest_GenealogyId req))) + 1 \<and>
            (\<forall>k. k \<noteq> personCountKey (TransitionRequest_GenealogyId req) \<longrightarrow> kv (sv_db s') k = kv (sv_db s) k)
          else sv_db s' = sv_db s)))"
proof (intro conjI)
  show "counters_wf (kv (sv_db s'))"
    using Accept_kv [OF assms(1-3,5)] assms(2) counters_wf_upd by auto
  have "counter_at (kv (sv_db s')) (personCountKey g) \<le> MaxPersonsPerGenealogy (dp_limits D)" for g
    using Accept_kv [OF assms(1-3,5)] assms(4) by (cases "g = TransitionRequest_GenealogyId req") auto
  then show "\<forall>gid. counter_at (kv (sv_db s')) (personCountKey gid) \<le> MaxPersonsPerGenealogy (dp_limits D)" by blast
  show "case r of
       Inl e \<Rightarrow> sv_db s' = sv_db s
     | Inr p \<Rightarrow> (\<exists>pending. accepted C D q req s pending p \<and>
         (if creates_person pending
          then unat (counter_at (kv (sv_db s')) (personCountKey (TransitionRequest_GenealogyId req))) =
              unat (counter_at (kv (sv_db s)) (personCountKey (TransitionRequest_GenealogyId req))) + 1 \<and>
            (\<forall>k. k \<noteq> personCountKey (TransitionRequest_GenealogyId req) \<longrightarrow> kv (sv_db s') k = kv (sv_db s) k)
          else sv_db s' = sv_db s))"
  proof (cases r)
    case (Inl e)
    with Accept_counts [OF assms(1-3,5)] show ?thesis by simp
  next
    case (Inr p)
    with Accept_counts [OF assms(1-3,5)] obtain pending where pending: "accepted C D q req s pending p"
      and kv: "if creates_person pending
         then (\<exists>n. n \<le> MaxPersonsPerGenealogy (dp_limits D) \<and>
           unat n = unat (counter_at (kv (sv_db s)) (personCountKey (TransitionRequest_GenealogyId req))) + 1 \<and>
           kv (sv_db s') = (kv (sv_db s))(personCountKey (TransitionRequest_GenealogyId req) \<mapsto> Raw (PutUint64 n)))
         else sv_db s' = sv_db s" by auto
    from kv Inr show ?thesis by (auto intro!: exI [of _ pending] pending split: if_splits)
  qed
qed

definition sim_pending :: "(memdb, string, Proposal list) server" where
  "sim_pending = sim_server\<lparr>sv_fs := [projr (sim_new_proposal ''p1'' ProposalActionCreate EntityKindPerson
     \<lparr>po_TargetID = [], po_SecondaryID = [], po_Payload = ''Ada'', po_Reason = [], po_Sources = [],
      po_Author = ''bob'', po_CreatedAt = 9\<rparr>)]\<rparr>"

definition sim_accept :: pb_TransitionRequest where
  "sim_accept = \<lparr>TransitionRequest_GenealogyId = ''g1'', TransitionRequest_Id = Some \<lparr>Id_Value = ''p1''\<rparr>,
     TransitionRequest_Reason = []\<rparr>"

theorem Accept_within_person_quota_witness:
  "\<exists>x s'. Accept sim_core sim_deps (sim_call ''bob'') sim_accept sim_pending = Some (Ret (Inr x, s')) \<and>
     counter_at (map_of (sv_db s')) (personCountKey ''g1'') \<le> 1000"
proof -
  have "responds (Accept sim_core sim_deps (sim_call ''bob'') sim_accept sim_pending)" by code_simp
  then obtain x s' where run: "Accept sim_core sim_deps (sim_call ''bob'') sim_accept sim_pending = Some (Ret (Inr x, s'))"
    by (rule respondsE)
  have c: "counters_wf (map_of (sv_db sim_pending))" using sim_db_wf(2) by (simp add: sim_pending_def sim_server_def)
  have z: "counter_at (map_of (sv_db sim_pending)) (personCountKey gid) \<le> MaxPersonsPerGenealogy (dp_limits sim_deps)" for gid
    by (simp add: sim_pending_def sim_server_def sim_db_eq counter_at_def counter_of_def sim_deps_def Default_def)
  have "MaxPersonsPerGenealogy (dp_limits sim_deps) \<noteq> 0" by (simp add: sim_deps_def Default_def)
  from Accept_within_person_quota [OF sim_total c this _ run] z run show ?thesis
    by (auto simp: sim_deps_def Default_def)
qed

section \<open>Bulk rejection\<close>

lemma bulk_reject_append:
  "bulk_reject C st actor now reason (as @ bs) fs =
     (let (x, fs1) = bulk_reject C st actor now reason as fs; (y, fs2) = bulk_reject C st actor now reason bs fs1
      in (x @ y, fs2))"
  by (induction as arbitrary: fs) (auto simp: Let_def split: prod.splits sum.splits)

lemma bulk_reject_ids:
  "map BulkRejectResult_Id (fst (bulk_reject C st actor now reason ids fs)) = map Some ids"
  by (induction ids arbitrary: fs) (simp_all add: Let_def case_prod_beta split: sum.split)

text \<open>
  \<open>BulkReject\<close> handles every id. Its response has one result per requested id, in order, and
  each id is processed after the ones before it, whether those succeeded or failed.
\<close>

theorem BulkReject_handles_every_id:
  fixes req :: pb_BulkRejectRequest
  defines "reason \<equiv> if BulkRejectRequest_Reason req = [] then ''bulk reject'' else BulkRejectRequest_Reason req"
  assumes "BulkReject C D q req s = Some (Ret (Inr resp, s'))"
  shows "\<exists>st s1. only_opened D (BulkRejectRequest_GenealogyId req) s s1 \<and>
    map BulkRejectResult_Id (BulkRejectResponse_Results resp) = map Some (BulkRejectRequest_Ids req) \<and>
    (\<forall>as p bs. BulkRejectRequest_Ids req = as @ p # bs \<longrightarrow>
       BulkRejectResponse_Results resp ! length as =
         hd (fst (bulk_reject C st (q_Subject q) (q_Now q 0) reason [p]
           (snd (bulk_reject C st (q_Subject q) (q_Now q 0) reason as (sv_fs s1))))))"
proof -
  from with_store_cases [OF assms(2) [unfolded BulkReject_def Let_def, folded reason_def]] obtain st s1 where
    o: "only_opened D (BulkRejectRequest_GenealogyId req) s s1"
    and res: "BulkRejectResponse_Results resp =
      fst (bulk_reject C st (q_Subject q) (q_Now q 0) reason (BulkRejectRequest_Ids req) (sv_fs s1))"
    by (auto simp: case_prod_beta)
  have len: "length (fst (bulk_reject C st (q_Subject q) (q_Now q 0) reason as fs)) = length as" for as fs
    using bulk_reject_ids by (metis length_map)
  have "BulkRejectResponse_Results resp ! length as =
         hd (fst (bulk_reject C st (q_Subject q) (q_Now q 0) reason [p]
           (snd (bulk_reject C st (q_Subject q) (q_Now q 0) reason as (sv_fs s1)))))"
    if "BulkRejectRequest_Ids req = as @ p # bs" for as p bs
    unfolding res that bulk_reject_append using len [of as "sv_fs s1"]
    by (auto simp: Let_def nth_append split: prod.splits sum.splits)
  then show ?thesis using o bulk_reject_ids [of C st "q_Subject q" "q_Now q 0" reason] unfolding res by blast
qed

definition sim_bulk :: pb_BulkRejectRequest where
  "sim_bulk = \<lparr>BulkRejectRequest_GenealogyId = ''g1'',
     BulkRejectRequest_Ids = [\<lparr>Id_Value = ''p9''\<rparr>, \<lparr>Id_Value = ''p1''\<rparr>], BulkRejectRequest_Reason = []\<rparr>"

theorem BulkReject_handles_every_id_witness:
  "\<exists>x s'. BulkReject sim_core sim_deps (sim_call ''bob'') sim_bulk sim_pending = Some (Ret (Inr x, s')) \<and>
     map BulkRejectResult_Id (BulkRejectResponse_Results x) = [Some \<lparr>Id_Value = ''p9''\<rparr>, Some \<lparr>Id_Value = ''p1''\<rparr>]"
proof -
  have "responds (BulkReject sim_core sim_deps (sim_call ''bob'') sim_bulk sim_pending)" by code_simp
  then obtain x s' where run: "BulkReject sim_core sim_deps (sim_call ''bob'') sim_bulk sim_pending = Some (Ret (Inr x, s'))"
    by (rule respondsE)
  with BulkReject_handles_every_id [OF run] show ?thesis by (auto simp: sim_bulk_def)
qed

end
