(* ===== verification/Dispatch.thy ===== *)
theory Dispatch
  imports Services_Laws
begin

text \<open>
  The registered procedures (\<open>registerServices\<close> of \<open>internal/server/server.go\<close>): one
  constructor per procedure and its request, and the handler each one reaches. On top of it, the
  states a server can reach from an empty database by any sequence of calls and restarts, the
  invariant of those states, and the authorization of every procedure.
\<close>

section \<open>The registered procedures\<close>

datatype rpc =
    Server_Version
  | Persons_GetPerson pb_GetPersonRequest
  | Persons_ListPersons pb_ListPersonsRequest
  | Relationships_GetRelationship pb_GetRelationshipRequest
  | Relationships_ListRelationships pb_ListRelationshipsRequest
  | Sources_GetSource pb_GetSourceRequest
  | Sources_ListSources pb_ListSourcesRequest
  | Proposals_GetProposal pb_GetProposalRequest
  | Proposals_ListProposals pb_ListProposalsRequest
  | Proposals_CreateProposal pb_CreateProposalRequest
  | Proposals_Submit pb_TransitionRequest
  | Proposals_Withdraw pb_TransitionRequest
  | Proposals_Claim pb_TransitionRequest
  | Proposals_Accept pb_TransitionRequest
  | Proposals_Reject pb_TransitionRequest
  | Proposals_BulkReject pb_BulkRejectRequest
  | Queries_FindPaths pb_FindPathsRequest
  | Queries_NKCA pb_NKCARequest
  | Genealogies_CreateGenealogy pb_CreateGenealogyRequest
  | Genealogies_ListGenealogies pb_ListGenealogiesRequest
  | Genealogies_GetGenealogy pb_GetGenealogyRequest
  | Genealogies_UpdateVisibility pb_UpdateVisibilityRequest
  | Genealogies_DeleteGenealogy pb_DeleteGenealogyRequest
  | Genealogies_UpsertMembership pb_UpsertMembershipRequest
  | Genealogies_RemoveMember pb_RemoveMemberRequest
  | Genealogies_LeaveGenealogy pb_LeaveGenealogyRequest
  | Genealogies_ListMembers pb_ListMembersRequest
  | Genealogies_BanUser pb_BanUserRequest
  | Genealogies_UnbanUser pb_UnbanUserRequest

text \<open>The message of a response; procedures that return an empty message share one constructor.\<close>

datatype response =
    AVersion pb_VersionResponse
  | AGetPerson pb_GetPersonResponse
  | AListPersons pb_ListPersonsResponse
  | AGetRelationship pb_GetRelationshipResponse
  | AListRelationships pb_ListRelationshipsResponse
  | AGetSource pb_GetSourceResponse
  | AListSources pb_ListSourcesResponse
  | AGetProposal pb_GetProposalResponse
  | AListProposals pb_ListProposalsResponse
  | ACreateProposal pb_CreateProposalResponse
  | AProposal pb_Proposal
  | ABulkReject pb_BulkRejectResponse
  | AFindPaths pb_FindPathsResponse
  | ANKCA pb_NKCAResponse
  | ACreateGenealogy pb_CreateGenealogyResponse
  | AListGenealogies pb_ListGenealogiesResponse
  | AGetGenealogy pb_GetGenealogyResponse
  | AGenealogy pb_Genealogy
  | AMembership pb_Membership
  | AListMembers pb_ListMembersResponse
  | ABan pb_Ban
  | AEmpty

definition answer :: "('a \<Rightarrow> response) \<Rightarrow> ('a, 'db, 'h, 'fs) handled \<Rightarrow> (response, 'db, 'h, 'fs) handled" where
  "answer f = map_option (map_outcome (map_prod (map_sum id f) id))"

abbreviation plainly :: "('a \<Rightarrow> response) \<Rightarrow> (err + 'a) \<times> ('db, 'h, 'fs) server \<Rightarrow> (response, 'db, 'h, 'fs) handled" where
  "plainly f p \<equiv> answer f (Some (Ret p))"

fun serve ::
  "('fs, 'h, 'rtx, 'wtx, 'path, 'anc) core \<Rightarrow> ('db, 'tx, 'fs, 'h) platformDeps \<Rightarrow> string \<Rightarrow> callenv \<Rightarrow> rpc \<Rightarrow>
   ('db, 'h, 'fs) server \<Rightarrow> (response, 'db, 'h, 'fs) handled" where
  "serve C D ver q Server_Version s = plainly AVersion (Inr (Version_rpc ver), s)"
| "serve C D ver q (Persons_GetPerson r) s = answer AGetPerson (GetPerson C D q r s)"
| "serve C D ver q (Persons_ListPersons r) s = answer AListPersons (ListPersons C D q r s)"
| "serve C D ver q (Relationships_GetRelationship r) s = answer AGetRelationship (GetRelationship C D q r s)"
| "serve C D ver q (Relationships_ListRelationships r) s = answer AListRelationships (ListRelationships C D q r s)"
| "serve C D ver q (Sources_GetSource r) s = answer AGetSource (GetSource C D q r s)"
| "serve C D ver q (Sources_ListSources r) s = answer AListSources (ListSources C D q r s)"
| "serve C D ver q (Proposals_GetProposal r) s = answer AGetProposal (GetProposal C D q r s)"
| "serve C D ver q (Proposals_ListProposals r) s = answer AListProposals (ListProposals C D q r s)"
| "serve C D ver q (Proposals_CreateProposal r) s = answer ACreateProposal (CreateProposal C D q r s)"
| "serve C D ver q (Proposals_Submit r) s = answer AProposal (Submit C D q r s)"
| "serve C D ver q (Proposals_Withdraw r) s = answer AProposal (Withdraw C D q r s)"
| "serve C D ver q (Proposals_Claim r) s = answer AProposal (Claim C D q r s)"
| "serve C D ver q (Proposals_Accept r) s = answer AProposal (Accept C D q r s)"
| "serve C D ver q (Proposals_Reject r) s = answer AProposal (Reject C D q r s)"
| "serve C D ver q (Proposals_BulkReject r) s = answer ABulkReject (BulkReject C D q r s)"
| "serve C D ver q (Queries_FindPaths r) s = answer AFindPaths (FindPaths C D q r s)"
| "serve C D ver q (Queries_NKCA r) s = answer ANKCA (NKCA C D q r s)"
| "serve C D ver q (Genealogies_CreateGenealogy r) s = plainly ACreateGenealogy (CreateGenealogy D q r s)"
| "serve C D ver q (Genealogies_ListGenealogies r) s = plainly AListGenealogies (ListGenealogies D q s, s)"
| "serve C D ver q (Genealogies_GetGenealogy r) s = plainly AGetGenealogy (GetGenealogy_rpc D q r s)"
| "serve C D ver q (Genealogies_UpdateVisibility r) s = plainly AGenealogy (UpdateVisibility D q r s)"
| "serve C D ver q (Genealogies_DeleteGenealogy r) s = plainly (\<lambda>_. AEmpty) (DeleteGenealogy_rpc D q r s)"
| "serve C D ver q (Genealogies_UpsertMembership r) s = plainly AMembership (UpsertMembership D q r s)"
| "serve C D ver q (Genealogies_RemoveMember r) s = plainly (\<lambda>_. AEmpty) (RemoveMember D q r s)"
| "serve C D ver q (Genealogies_LeaveGenealogy r) s = plainly (\<lambda>_. AEmpty) (LeaveGenealogy D q r s)"
| "serve C D ver q (Genealogies_ListMembers r) s = plainly AListMembers (ListMembers D q r s)"
| "serve C D ver q (Genealogies_BanUser r) s = plainly ABan (BanUser D q r s)"
| "serve C D ver q (Genealogies_UnbanUser r) s = plainly (\<lambda>_. AEmpty) (UnbanUser D q r s)"

lemma answer_Ret:
  "answer f h = Some (Ret (r, s')) \<longleftrightarrow> (\<exists>r0. h = Some (Ret (r0, s')) \<and> r = map_sum id f r0)"
proof (cases h)
  case (Some out)
  then show ?thesis by (cases out) (auto simp: answer_def)
qed (simp add: answer_def)

lemma answer_Inr:
  "answer f h = Some (Ret (Inr x, s')) \<longleftrightarrow> (\<exists>y. h = Some (Ret (Inr y, s')) \<and> x = f y)"
  by (auto simp: answer_Ret) (metis map_sum.simps(1) map_sum.simps(2) old.sum.exhaust sum.distinct(1) sum.inject(2))

section \<open>States a server can reach\<close>

text \<open>
  The calls considered. A new genealogy's id is an unused UUID (it has no slash), which the server
  generates. The id of \<open>LeaveGenealogy\<close> is the client's: it may have a slash, unless it then spells the
  beginning of the key of a membership; such a call would delete the membership of somebody else.
\<close>

fun call_ok :: "('db \<Rightarrow> string \<Rightarrow> blob option) \<Rightarrow> callenv \<Rightarrow> rpc \<Rightarrow> ('db, 'h, 'fs) server \<Rightarrow> bool" where
  "call_ok kv q (Genealogies_CreateGenealogy r) s \<longleftrightarrow>
     slash_free (q_uuid q) \<and> q_uuid q \<noteq> [] \<and> kv (sv_db s) (genealogyKey (q_uuid q)) = None"
| "call_ok kv q (Genealogies_LeaveGenealogy r) s \<longleftrightarrow> leave_ok (kv (sv_db s)) (LeaveGenealogyRequest_Id r)"
| "call_ok kv q _ s \<longleftrightarrow> True"

text \<open>
  A server starts on an empty database, serves calls one after the other, and may be restarted
  at any time with the database it left.
\<close>

inductive reachable ::
  "('fs, 'h, 'rtx, 'wtx, 'path, 'anc) core \<Rightarrow> ('db, 'tx, 'fs, 'h) platformDeps \<Rightarrow> ('db \<Rightarrow> string \<Rightarrow> blob option) \<Rightarrow>
   string \<Rightarrow> ('db, 'h, 'fs) server \<Rightarrow> bool" for C D kv ver where
  boot: "kv db = Map.empty \<Longrightarrow>
    reachable C D kv ver \<lparr>sv_db = db, sv_cache = NewResolver ttl, sv_mgr = mgr, sv_fs = fs\<rparr>"
| restart: "reachable C D kv ver s \<Longrightarrow>
    reachable C D kv ver \<lparr>sv_db = sv_db s, sv_cache = NewResolver ttl, sv_mgr = mgr, sv_fs = fs\<rparr>"
| call: "reachable C D kv ver s \<Longrightarrow> call_ok kv q r s \<Longrightarrow> serve C D ver q r s = Some (Ret (x, s')) \<Longrightarrow>
    reachable C D kv ver s'"

definition person_within :: "uint64 \<Rightarrow> (string \<Rightarrow> blob option) \<Rightarrow> bool" where
  "person_within lim m \<longleftrightarrow> (\<forall>gid. counter_at m (personCountKey gid) \<le> lim)"

text \<open>The invariant: records, indices, counters and cache are consistent and every quota is kept.\<close>

definition system_ok :: "Limits \<Rightarrow> ('db \<Rightarrow> string \<Rightarrow> blob option) \<Rightarrow> ('db, 'h, 'fs) server \<Rightarrow> bool" where
  "system_ok L kv s \<longleftrightarrow> server_ok kv s \<and> quota_exact (kv (sv_db s)) \<and>
     quota_within (MaxPrivateGenealogiesPerUser L) (kv (sv_db s)) \<and>
     person_within (MaxPersonsPerGenealogy L) (kv (sv_db s))"

lemma system_ok_frame:
  assumes "system_ok L kv s" and "server_ok kv s'"
    and "\<And>g. kv (sv_db s') (genealogyKey g) = kv (sv_db s) (genealogyKey g)"
    and "\<And>k. prefix ''c/'' k \<Longrightarrow> kv (sv_db s') k = kv (sv_db s) k"
  shows "system_ok L kv s'"
proof -
  have p: "private_of (kv (sv_db s')) = private_of (kv (sv_db s))"
    using assms(3) by (simp add: private_of_def lookup_def fun_eq_iff)
  have c: "counter_at (kv (sv_db s')) k = counter_at (kv (sv_db s)) k" if "prefix ''c/'' k" for k
    using assms(4) [OF that] by (simp add: counter_at_def)
  show ?thesis
    using assms(1,2) by (simp add: system_ok_def quota_exact_def quota_within_def person_within_def p c)
qed

lemma system_ok_same:
  "system_ok L kv s \<Longrightarrow> server_ok kv s' \<Longrightarrow> sv_db s' = sv_db s \<Longrightarrow> system_ok L kv s'"
  by (simp add: system_ok_def)

text \<open>One genealogy is created, changed or removed, and its creator's counter follows.\<close>

lemma system_ok_genealogy:
  assumes ok: "system_ok L kv s" "server_ok kv s'"
    and db: "kv (sv_db s') = count_delta was now sub m'"
    and frame: "\<And>g. g \<noteq> gid \<Longrightarrow> m' (genealogyKey g) = kv (sv_db s) (genealogyKey g)"
      "\<And>k. prefix ''c/'' k \<Longrightarrow> m' k = kv (sv_db s) k"
    and at: "m' (genealogyKey gid) = None \<and> \<not> now \<or>
      (\<exists>g. m' (genealogyKey gid) = Some (MarshalGenealogy g) \<and> g_CreatedBy g = sub \<and> (now \<longleftrightarrow> g_Visibility g = VisibilityPrivate))"
    and was: "was \<longleftrightarrow> gid \<in> private_of (kv (sv_db s)) sub"
    and others: "\<And>s1. s1 \<noteq> sub \<Longrightarrow> gid \<notin> private_of (kv (sv_db s)) s1"
    and room: "\<not> was \<and> now \<Longrightarrow>
      counter_at (kv (sv_db s)) (userPrivateGenCountKey sub) < MaxPrivateGenealogiesPerUser L"
  shows "system_ok L kv s'"
proof -
  let ?m = "kv (sv_db s)"
  have ex: "quota_exact ?m" and wi: "quota_within (MaxPrivateGenealogiesPerUser L) ?m"
    and pe: "person_within (MaxPersonsPerGenealogy L) ?m"
    using ok(1) by (simp_all add: system_ok_def)
  note change = private_of_change [OF frame(1) at others]
  have card: "card (private_of ?m sub) < unat (MaxPrivateGenealogiesPerUser L)" if "\<not> was \<and> now"
    using room [OF that] ex by (simp add: quota_exact_def word_less_nat_alt)
  then have max: "\<not> was \<and> now \<Longrightarrow> card (private_of ?m sub) < 2 ^ 64 - 1"
    using unsigned_less [of "MaxPrivateGenealogiesPerUser L", where 'a = nat] by fastforce
  have cs: "counter_at m' (userPrivateGenCountKey s1) = counter_at ?m (userPrivateGenCountKey s1)" for s1
    by (simp add: counter_at_def frame(2))
  have "quota_exact (count_delta was now sub m')" by (rule quota_exact_change [OF ex change cs was others max])
  moreover have "quota_within (MaxPrivateGenealogiesPerUser L) m'"
    using card was by (intro quota_within_change [OF ex wi change]) auto
  moreover have "counter_at (count_delta was now sub m') (personCountKey g) = counter_at ?m (personCountKey g)" for g
  proof -
    have "counter_at m' (personCountKey g) = counter_at ?m (personCountKey g)" by (simp add: counter_at_def frame(2))
    then show ?thesis by (simp add: count_delta_def Let_def)
  qed
  ultimately show ?thesis
    using ok(2) pe by (simp add: system_ok_def db quota_within_def person_within_def)
qed


section \<open>Every procedure keeps the invariant\<close>

lemma private_of_gen:
  assumes "gen_at m gid = Inr g"
  shows "gid \<in> private_of m sub \<longleftrightarrow> g_Visibility g = VisibilityPrivate \<and> g_CreatedBy g = sub"
  using assms by (auto simp: private_of_def)

lemma private_of_absent: "m (genealogyKey gid) = None \<Longrightarrow> gid \<notin> private_of m sub"
  by (auto simp: private_of_def lookup_def)

lemma with_store_ok:
  assumes "badger_total (dp_badger D) kv tkv" and "server_ok kv s"
    and "with_store D q gid minRole submission k s = Some (Ret (r, s'))"
  shows "server_ok kv s' \<and> sv_db s' = sv_db s \<or>
    (\<exists>st s1. server_ok kv s1 \<and> sv_db s1 = sv_db s \<and> k st s1 = (r, s'))"
proof -
  have db: "badger_db (dp_badger D) kv tkv" using badger_total.axioms(1) [OF assms(1)] .
  note ok = server_okD [OF assms(2)]
  have rs: "server_ok kv s1 \<and> sv_db s1 = sv_db s"
    if "resolveStore D q (q_Subject q) gid minRole submission s = Some (Ret (x, s1))" for x s1
    using resolveStore_sound [OF db ok(1,3) that] ok(1,2) by (simp add: server_ok_def)
  show ?thesis
    using assms(3) rs by (fastforce simp: with_store_def split: option.splits outcome.splits sum.splits prod.splits)
qed

text \<open>Bodies that leave the database and the cache alone.\<close>

definition graph_only :: "('h \<Rightarrow> ('db, 'h, 'fs) server \<Rightarrow> (err + 'a) \<times> ('db, 'h, 'fs) server) \<Rightarrow> bool" where
  "graph_only k \<longleftrightarrow> (\<forall>st s. sv_db (snd (k st s)) = sv_db s \<and> sv_cache (snd (k st s)) = sv_cache s)"

lemma graph_only_ok:
  assumes "badger_total (dp_badger D) kv tkv" and "system_ok L kv s" and "graph_only k"
    and "with_store D q gid minRole submission k s = Some (Ret (r, s'))"
  shows "system_ok L kv s'"
proof (rule system_ok_same [OF assms(2)])
  have "server_ok kv s" using assms(2) by (simp add: system_ok_def)
  from with_store_ok [OF assms(1) this assms(4)] show "server_ok kv s'" "sv_db s' = sv_db s"
    using assms(3) unfolding graph_only_def server_ok_def by (metis snd_conv)+
qed

lemma graph_only_fs: "graph_only (\<lambda>st s. case on_fs (f st) s of (Inl e, s1) \<Rightarrow> (Inl e, s1) | (Inr v, s1) \<Rightarrow> (Inr (g st v), s1))"
  by (auto simp: graph_only_def on_fs_def split: prod.splits sum.splits)

lemma graph_only_viewing: "graph_only (viewing C f)"
  by (simp add: graph_only_def viewing_frame)

lemma graph_only_case:
  assumes "\<And>i. graph_only (k i)"
  shows "graph_only (\<lambda>st s. case x of Inl e \<Rightarrow> (Inl e, s) | Inr i \<Rightarrow> k i st s)"
  using assms by (auto simp: graph_only_def split: sum.split)

lemma BulkReject_graph_only:
  "graph_only (\<lambda>st s. case bulk_reject C st a n reason ids (sv_fs s) of
     (results, fs') \<Rightarrow> (Inr \<lparr>BulkRejectResponse_Results = results\<rparr>, s\<lparr>sv_fs := fs'\<rparr>))"
  by (simp add: graph_only_def split: prod.split)

lemmas graph_only_rules = graph_only_case graph_only_viewing graph_only_fs BulkReject_graph_only

lemmas graph_handler_defs = GetPerson_def ListPersons_def GetRelationship_def ListRelationships_def GetSource_def
  ListSources_def GetProposal_def ListProposals_def CreateProposal_def Submit_def Withdraw_def Claim_def Reject_def
  transition_def transitionWithReason_def BulkReject_def FindPaths_def NKCA_def

lemma graph_handlers_ok:
  assumes "badger_total (dp_badger D) kv tkv" and "system_ok L kv s"
  shows "GetPerson C D q r1 s = Some (Ret (x1, s')) \<Longrightarrow> system_ok L kv s'"
    and "ListPersons C D q r2 s = Some (Ret (x2, s')) \<Longrightarrow> system_ok L kv s'"
    and "GetRelationship C D q r3 s = Some (Ret (x3, s')) \<Longrightarrow> system_ok L kv s'"
    and "ListRelationships C D q r4 s = Some (Ret (x4, s')) \<Longrightarrow> system_ok L kv s'"
    and "GetSource C D q r5 s = Some (Ret (x5, s')) \<Longrightarrow> system_ok L kv s'"
    and "ListSources C D q r6 s = Some (Ret (x6, s')) \<Longrightarrow> system_ok L kv s'"
    and "GetProposal C D q r7 s = Some (Ret (x7, s')) \<Longrightarrow> system_ok L kv s'"
    and "ListProposals C D q r8 s = Some (Ret (x8, s')) \<Longrightarrow> system_ok L kv s'"
    and "FindPaths C D q r9 s = Some (Ret (x9, s')) \<Longrightarrow> system_ok L kv s'"
    and "NKCA C D q r10 s = Some (Ret (x10, s')) \<Longrightarrow> system_ok L kv s'"
    and "CreateProposal C D q r11 s = Some (Ret (x11, s')) \<Longrightarrow> system_ok L kv s'"
    and "Submit C D q r12 s = Some (Ret (x12, s')) \<Longrightarrow> system_ok L kv s'"
    and "Withdraw C D q r12 s = Some (Ret (x12, s')) \<Longrightarrow> system_ok L kv s'"
    and "Claim C D q r12 s = Some (Ret (x12, s')) \<Longrightarrow> system_ok L kv s'"
    and "Reject C D q r12 s = Some (Ret (x12, s')) \<Longrightarrow> system_ok L kv s'"
    and "BulkReject C D q r13 s = Some (Ret (x13, s')) \<Longrightarrow> system_ok L kv s'"
  unfolding graph_handler_defs Let_def
  by (erule graph_only_ok [OF assms, rotated]; intro graph_only_rules)+

lemma with_store_cache:
  assumes "badger_total (dp_badger D) kv tkv" and "server_ok kv s"
    and "\<And>st s. sv_cache (snd (k st s)) = sv_cache s"
    and "with_store D q gid minRole submission k s = Some (Ret (r, s'))"
  shows "coherent (kv (sv_db s)) (sv_cache s')"
  using with_store_ok [OF assms(1,2,4)] assms(3) unfolding server_ok_def by (metis snd_conv)

lemma Accept_ok:
  assumes total: "badger_total (dp_badger D) kv tkv" and ok: "system_ok (dp_limits D) kv s"
    and lim: "MaxPersonsPerGenealogy (dp_limits D) \<noteq> 0" and run: "Accept C D q req s = Some (Ret (r, s'))"
  shows "system_ok (dp_limits D) kv s'"
proof -
  have s: "server_ok kv s" and c: "counters_wf (kv (sv_db s))"
    and parts: "quota_exact (kv (sv_db s))" "quota_within (MaxPrivateGenealogiesPerUser (dp_limits D)) (kv (sv_db s))"
      "person_within (MaxPersonsPerGenealogy (dp_limits D)) (kv (sv_db s))"
    using ok by (simp_all add: system_ok_def server_ok_def)
  have cache: "coherent (kv (sv_db s)) (sv_cache s')"
    by (rule with_store_cache [OF total s _ run [unfolded Accept_def Let_def]])
      (auto simp: on_fs_def on_db_def split: sum.splits prod.splits if_splits)
  from Accept_kv [OF total c lim run] show ?thesis
  proof (elim disjE exE conjE)
    assume "sv_db s' = sv_db s"
    with s cache show ?thesis by (intro system_ok_same [OF ok]) (simp_all add: server_ok_def)
  next
    let ?k = "personCountKey (TransitionRequest_GenealogyId req)"
    fix n assume n: "n \<le> MaxPersonsPerGenealogy (dp_limits D)"
      and kv': "kv (sv_db s') = (kv (sv_db s))(?k \<mapsto> Raw (PutUint64 n))"
    have "server_ok kv s'"
      using s cache coherent_mono [of "kv (sv_db s)" "sv_cache s'" "kv (sv_db s')"]
      by (simp add: server_ok_def kv' counters_wf_upd platform_wf_counter)
    moreover have "private_of (kv (sv_db s')) = private_of (kv (sv_db s))"
      by (simp add: private_of_def lookup_def fun_eq_iff kv')
    moreover have "counter_at (kv (sv_db s')) (personCountKey g) =
        (if g = TransitionRequest_GenealogyId req then n else counter_at (kv (sv_db s)) (personCountKey g))" for g
      by (simp add: kv')
    ultimately show ?thesis
      using parts n by (simp add: system_ok_def quota_exact_def quota_within_def person_within_def) (simp add: kv')
  qed
qed


lemma count_room:
  fixes D :: "('db, 'tx, 'fs, 'h) platformDeps" and s :: "('db, 'h, 'fs) server"
  assumes "badger_total (dp_badger D) kv tkv" and "server_ok kv s" and "MaxPrivateGenealogiesPerUser (dp_limits D) \<noteq> 0"
    and "CheckCreatePrivateGenealogy (dp_badger D) (dp_limits D) sub (sv_db s) = nil_err"
  shows "counter_at (kv (sv_db s)) (userPrivateGenCountKey sub) < MaxPrivateGenealogiesPerUser (dp_limits D)"
  using service.Check_run [OF service_of [OF assms(1)] server_okD(2) [OF assms(2)]] assms(3,4) by simp

lemma CreateGenealogy_ok:
  assumes total: "badger_total (dp_badger D) kv tkv" and ok: "system_ok (dp_limits D) kv s"
    and lim: "MaxPrivateGenealogiesPerUser (dp_limits D) \<noteq> 0"
    and id: "slash_free (q_uuid q)" "q_uuid q \<noteq> []" "kv (sv_db s) (genealogyKey (q_uuid q)) = None"
    and run: "CreateGenealogy D q req s = (r, s')"
  shows "system_ok (dp_limits D) kv s'"
proof -
  have s: "server_ok kv s" using ok by (simp add: system_ok_def)
  note spec = service.CreateGenealogy_spec [OF service_of [OF total] s run id]
  show ?thesis
  proof (cases r)
    case (Inl e)
    with spec ok show ?thesis by simp
  next
    case (Inr p)
    let ?vis = "if visibilityFromProto (CreateGenealogyRequest_Visibility req) = 0 then VisibilityPrivate
                else visibilityFromProto (CreateGenealogyRequest_Visibility req)"
    from spec [unfolded Inr sum.case] obtain g :: Genealogy and m where g: "g_Visibility g = ?vis" "g_CreatedBy g = q_Subject q"
      and chk: "?vis = VisibilityPrivate \<longrightarrow> CheckCreatePrivateGenealogy (dp_badger D) (dp_limits D) (q_Subject q) (sv_db s) = nil_err"
      and db: "kv (sv_db s') = count_delta False (?vis = VisibilityPrivate) (q_Subject q) ((kv (sv_db s))
        (genealogyKey (q_uuid q) \<mapsto> MarshalGenealogy g, membershipKey (q_uuid q) (q_Subject q) \<mapsto> MarshalMembership m,
         reverseMembershipKey (q_Subject q) (q_uuid q) \<mapsto> MarshalMembership m))"
      by (elim conjE exE) (rule that; assumption)
    have "server_ok kv s'" using spec by simp
    then show ?thesis
      by (rule system_ok_genealogy [OF ok _ db, of "q_uuid q"])
        (use g id(3) count_room [OF total s lim] chk in \<open>auto simp: private_of_absent\<close>)
  qed
qed

lemma UpdateVisibility_ok:
  assumes total: "badger_total (dp_badger D) kv tkv" and ok: "system_ok (dp_limits D) kv s"
    and lim: "MaxPrivateGenealogiesPerUser (dp_limits D) \<noteq> 0" and run: "UpdateVisibility D q req s = (r, s')"
  shows "system_ok (dp_limits D) kv s'"
proof -
  have s: "server_ok kv s" using ok by (simp add: system_ok_def)
  note spec = service.UpdateVisibility_spec [OF service_of [OF total] s run]
  show ?thesis
  proof (cases r)
    case (Inl e)
    with spec ok show ?thesis by (auto intro: system_ok_same)
  next
    case (Inr p)
    let ?gid = "UpdateVisibilityRequest_Id req" and ?vis = "visibilityFromProto (UpdateVisibilityRequest_Visibility req)"
    from spec [unfolded Inr sum.case] obtain g :: Genealogy where g: "gen_at (kv (sv_db s)) ?gid = Inr g"
      and chk: "g_Visibility g \<noteq> VisibilityPrivate \<and> ?vis = VisibilityPrivate \<longrightarrow>
         CheckCreatePrivateGenealogy (dp_badger D) (dp_limits D) (g_CreatedBy g) (sv_db s) = nil_err"
      and db: "kv (sv_db s') = count_delta (g_Visibility g = VisibilityPrivate) (?vis = VisibilityPrivate) (g_CreatedBy g)
           ((kv (sv_db s))(genealogyKey ?gid \<mapsto> MarshalGenealogy (g\<lparr>g_Visibility := ?vis\<rparr>)))"
      by (elim conjE exE) (rule that; assumption)
    have "server_ok kv s'" using spec by simp
    then show ?thesis
      by (rule system_ok_genealogy [OF ok _ db, of ?gid])
        (use count_room [OF total s lim] chk in \<open>auto simp: private_of_gen [OF g]\<close>)
  qed
qed

lemma DeleteGenealogy_ok:
  assumes total: "badger_total (dp_badger D) kv tkv" and ok: "system_ok (dp_limits D) kv s"
    and run: "DeleteGenealogy_rpc D q req s = (r, s')"
  shows "system_ok (dp_limits D) kv s'"
proof -
  have s: "server_ok kv s" using ok by (simp add: system_ok_def)
  note spec = service.DeleteGenealogy_rpc_spec [OF service_of [OF total] s run]
  show ?thesis
  proof (cases r)
    case (Inl e)
    with spec ok show ?thesis by (auto intro: system_ok_same)
  next
    case (Inr p)
    let ?gid = "DeleteGenealogyRequest_Id req"
    from spec [unfolded Inr sum.case] obtain g :: Genealogy where g: "gen_at (kv (sv_db s)) ?gid = Inr g"
      and db: "kv (sv_db s') = count_delta (g_Visibility g = VisibilityPrivate) False (g_CreatedBy g)
           (drop_genealogy ?gid (kv (sv_db s)))"
      by (elim conjE exE) (rule that; assumption)
    have "server_ok kv s'" using spec by simp
    then show ?thesis
      by (rule system_ok_genealogy [OF ok _ db, of ?gid])
        (auto simp: private_of_gen [OF g] drop_genealogy_def)
  qed
qed

lemma member_handlers_ok:
  assumes total: "badger_total (dp_badger D) kv tkv" and ok: "system_ok L kv s"
  shows "UpsertMembership D q r1 s = (x1, s') \<Longrightarrow> system_ok L kv s'"
    and "RemoveMember D q r2 s = (x2, s') \<Longrightarrow> system_ok L kv s'"
    and "LeaveGenealogy D q r3 s = (x3, s') \<Longrightarrow> leave_ok (kv (sv_db s)) (LeaveGenealogyRequest_Id r3) \<Longrightarrow> system_ok L kv s'"
    and "ListMembers D q r4 s = (x4, s') \<Longrightarrow> system_ok L kv s'"
    and "GetGenealogy_rpc D q r5 s = (x5, s') \<Longrightarrow> system_ok L kv s'"
    and "BanUser D q r6 s = (x6, s') \<Longrightarrow> system_ok L kv s'"
    and "UnbanUser D q r7 s = (x7, s') \<Longrightarrow> system_ok L kv s'"
proof -
  have s: "server_ok kv s" using ok by (simp add: system_ok_def)
  note svc = service_of [OF total]
  show "UpsertMembership D q r1 s = (x1, s') \<Longrightarrow> system_ok L kv s'"
    using service.UpsertMembership_spec [OF svc s, of q r1 x1 s'] by (intro system_ok_frame [OF ok]) (auto split: sum.splits)
  show "RemoveMember D q r2 s = (x2, s') \<Longrightarrow> system_ok L kv s'"
    using service.RemoveMember_spec [OF svc s, of q r2 x2 s'] by (intro system_ok_frame [OF ok]) auto
  show "system_ok L kv s'" if "LeaveGenealogy D q r3 s = (x3, s')" "leave_ok (kv (sv_db s)) (LeaveGenealogyRequest_Id r3)"
  proof (cases "slash_free (LeaveGenealogyRequest_Id r3)")
    case True
    then show ?thesis
      using service.LeaveGenealogy_spec [OF svc s that(1)] by (intro system_ok_frame [OF ok]) auto
  next
    case False
    then have "s' = s" using that service.LeaveGenealogy_absent [OF svc that(1)] by (simp add: leave_ok_def)
    with ok show ?thesis by simp
  qed
  show "ListMembers D q r4 s = (x4, s') \<Longrightarrow> system_ok L kv s'"
    using service.ListMembers_spec [OF svc s, of q r4 x4 s'] by (intro system_ok_same [OF ok]) auto
  show "GetGenealogy_rpc D q r5 s = (x5, s') \<Longrightarrow> system_ok L kv s'"
    using service.GetGenealogy_rpc_spec [OF svc s, of q r5 x5 s'] by (intro system_ok_same [OF ok]) auto
  show "BanUser D q r6 s = (x6, s') \<Longrightarrow> system_ok L kv s'"
    using service.BanUser_spec [OF svc s, of q r6 x6 s'] by (intro system_ok_frame [OF ok]) (auto split: sum.splits)
  show "UnbanUser D q r7 s = (x7, s') \<Longrightarrow> system_ok L kv s'"
    using service.UnbanUser_spec [OF svc s, of q r7 x7 s'] by (intro system_ok_frame [OF ok]) (auto split: sum.splits)
qed


lemma serve_ok:
  assumes total: "badger_total (dp_badger D) kv tkv" and ok: "system_ok (dp_limits D) kv s"
    and lim: "MaxPrivateGenealogiesPerUser (dp_limits D) \<noteq> 0" "MaxPersonsPerGenealogy (dp_limits D) \<noteq> 0"
    and "call_ok kv q r s" and "serve C D ver q r s = Some (Ret (x, s'))"
  shows "system_ok (dp_limits D) kv s'"
proof -
  have same: "s = s' \<Longrightarrow> system_ok (dp_limits D) kv s'" using ok by simp
  note rules = graph_handlers_ok [OF total ok] member_handlers_ok [OF total ok] Accept_ok [OF total ok lim(2)]
    CreateGenealogy_ok [OF total ok lim(1)] UpdateVisibility_ok [OF total ok lim(1)] DeleteGenealogy_ok [OF total ok] same
  show ?thesis
    using assms(5,6)
    by (cases r) (simp_all only: serve.simps call_ok.simps answer_Ret option.inject outcome.inject prod.inject,
        (elim exE conjE; (erule rules; assumption?))+)
qed

lemma reachable_ok:
  assumes "badger_total (dp_badger D) kv tkv" and "MaxPrivateGenealogiesPerUser (dp_limits D) \<noteq> 0"
    and "MaxPersonsPerGenealogy (dp_limits D) \<noteq> 0" and "reachable C D kv ver s"
  shows "system_ok (dp_limits D) kv s"
  using assms(4)
proof (induction rule: reachable.induct)
  case (boot db ttl mgr fs)
  then show ?case
    by (simp add: system_ok_def server_ok_def platform_wf_empty counters_wf_empty quota_exact_def quota_within_def
        person_within_def private_of_def lookup_def counter_at_def counter_of_def)
next
  case (restart s ttl mgr fs)
  then show ?case by (simp add: system_ok_def server_ok_def)
next
  case (call s q r x s')
  then show ?case using serve_ok [OF assms(1) _ assms(2,3)] by blast
qed

definition sim_boot :: "(memdb, string, Proposal list) server" where
  "sim_boot = \<lparr>sv_db = [], sv_cache = NewResolver 0, sv_mgr = sim_mgr, sv_fs = []\<rparr>"

text \<open>
  What holds of a server at every moment, over any sequence of calls of any subjects and any
  restarts, starting from an empty database: the records and both membership indices are
  well-formed, every cached decision is what the records grant, every user's counter is the
  exact number of private genealogies the user created, that number never exceeds the limit, and
  no genealogy's person count exceeds its limit.
\<close>

theorem reachable_system_ok:
  assumes "badger_total (dp_badger D) kv tkv" and "MaxPrivateGenealogiesPerUser (dp_limits D) \<noteq> 0"
    and "MaxPersonsPerGenealogy (dp_limits D) \<noteq> 0" and "reachable C D kv ver s"
  shows "system_ok (dp_limits D) kv s"
  by (rule reachable_ok [OF assms])

theorem reachable_system_ok_witness:
  "\<exists>x s'. serve sim_core sim_deps ''v1'' (sim_call ''ann'') (Genealogies_CreateGenealogy sim_create) sim_boot = Some (Ret (Inr x, s')) \<and>
     unat (counter_at (map_of (sv_db s')) (userPrivateGenCountKey ''ann'')) = card (private_of (map_of (sv_db s')) ''ann'')"
proof -
  let ?h = "serve sim_core sim_deps ''v1'' (sim_call ''ann'') (Genealogies_CreateGenealogy sim_create) sim_boot"
  have "responds ?h" by code_simp
  then obtain x s' where run: "?h = Some (Ret (Inr x, s'))" by (rule respondsE)
  have "reachable sim_core sim_deps map_of ''v1'' sim_boot" unfolding sim_boot_def by (rule boot) simp
  moreover have "call_ok map_of (sim_call ''ann'') (Genealogies_CreateGenealogy sim_create) sim_boot"
    by (simp add: sim_call_def slash_free_def sim_boot_def)
  ultimately have r: "reachable sim_core sim_deps map_of ''v1'' s'" using run by (rule call)
  have "system_ok (dp_limits sim_deps) map_of s'"
    by (rule reachable_system_ok [OF sim_total _ _ r]) (simp_all add: sim_deps_def Default_def)
  with run show ?thesis by (simp add: system_ok_def quota_exact_def)
qed

section \<open>Authorization of every procedure\<close>

text \<open>
  What the procedures promise: the genealogy a request names and the role it needs there. \<open>Version\<close>,
  \<open>CreateGenealogy\<close> and \<open>ListGenealogies\<close> name none; \<open>LeaveGenealogy\<close> needs no role, it ends the caller's
  own membership.
\<close>

fun required :: "rpc \<Rightarrow> (string \<times> Role) option" where
  "required (Persons_GetPerson r) = Some (GetPersonRequest_GenealogyId r, RoleViewer)"
| "required (Persons_ListPersons r) = Some (ListPersonsRequest_GenealogyId r, RoleViewer)"
| "required (Relationships_GetRelationship r) = Some (GetRelationshipRequest_GenealogyId r, RoleViewer)"
| "required (Relationships_ListRelationships r) = Some (ListRelationshipsRequest_GenealogyId r, RoleViewer)"
| "required (Sources_GetSource r) = Some (GetSourceRequest_GenealogyId r, RoleViewer)"
| "required (Sources_ListSources r) = Some (ListSourcesRequest_GenealogyId r, RoleViewer)"
| "required (Proposals_GetProposal r) = Some (GetProposalRequest_GenealogyId r, RoleViewer)"
| "required (Proposals_ListProposals r) = Some (ListProposalsRequest_GenealogyId r, RoleViewer)"
| "required (Queries_FindPaths r) = Some (FindPathsRequest_GenealogyId r, RoleViewer)"
| "required (Queries_NKCA r) = Some (NKCARequest_GenealogyId r, RoleViewer)"
| "required (Genealogies_ListMembers r) = Some (ListMembersRequest_GenealogyId r, RoleViewer)"
| "required (Proposals_CreateProposal r) = Some (CreateProposalRequest_GenealogyId r, RoleContributor)"
| "required (Proposals_Submit r) = Some (TransitionRequest_GenealogyId r, RoleContributor)"
| "required (Proposals_Withdraw r) = Some (TransitionRequest_GenealogyId r, RoleContributor)"
| "required (Proposals_Claim r) = Some (TransitionRequest_GenealogyId r, RoleCurator)"
| "required (Proposals_Accept r) = Some (TransitionRequest_GenealogyId r, RoleCurator)"
| "required (Proposals_Reject r) = Some (TransitionRequest_GenealogyId r, RoleCurator)"
| "required (Proposals_BulkReject r) = Some (BulkRejectRequest_GenealogyId r, RoleCurator)"
| "required (Genealogies_UpsertMembership r) = Some (UpsertMembershipRequest_GenealogyId r, RoleCurator)"
| "required (Genealogies_RemoveMember r) = Some (RemoveMemberRequest_GenealogyId r, RoleCurator)"
| "required (Genealogies_BanUser r) = Some (BanUserRequest_GenealogyId r, RoleCurator)"
| "required (Genealogies_UnbanUser r) = Some (UnbanUserRequest_GenealogyId r, RoleCurator)"
| "required (Genealogies_UpdateVisibility r) = Some (UpdateVisibilityRequest_Id r, RoleOwner)"
| "required (Genealogies_DeleteGenealogy r) = Some (DeleteGenealogyRequest_Id r, RoleOwner)"
| "required (Genealogies_GetGenealogy r) = Some (GetGenealogyRequest_Id r, RoleViewer)"
| "required _ = None"

fun submits :: "rpc \<Rightarrow> bool" where
  "submits (Proposals_CreateProposal r) = True"
| "submits (Proposals_Submit r) = True"
| "submits _ = False"

text \<open>Handlers that ask the resolver: the decision they acted on.\<close>

definition decided :: "('db, 'tx, 'fs, 'h) platformDeps \<Rightarrow> callenv \<Rightarrow> string \<Rightarrow> Role \<Rightarrow> ('db, 'h, 'fs) server \<Rightarrow> bool" where
  "decided D q gid role s \<longleftrightarrow> (\<exists>d s1. authz_Resolve D q (q_Subject q) gid s = (Inr d, s1) \<and> role \<le> d_Role d)"

lemma requireRole_decided:
  assumes "(case requireRole D q (q_Subject q) gid role s of (Inl e, s1) \<Rightarrow> (Inl e, s1) | (Inr u, s1) \<Rightarrow> k s1) = (Inr x, s')"
  shows "decided D q gid role s"
  using assms by (auto simp: requireRole_def decided_def not_less split: prod.splits sum.splits if_splits)

lemma authz_decided:
  assumes "(case authz_Resolve D q (q_Subject q) gid s of
     (Inl e, s1) \<Rightarrow> (Inl (f e), s1) | (Inr d, s1) \<Rightarrow> if d_Role d < role then (Inl e2, s1) else k d s1) = (Inr x, s')"
  shows "decided D q gid role s"
  using assms by (auto simp: decided_def not_less split: prod.splits sum.splits if_splits)

lemma genealogy_handlers_decided:
  "UpdateVisibility D q r1 s = (Inr x1, s') \<Longrightarrow> decided D q (UpdateVisibilityRequest_Id r1) RoleOwner s"
  "DeleteGenealogy_rpc D q r2 s = (Inr x2, s') \<Longrightarrow> decided D q (DeleteGenealogyRequest_Id r2) RoleOwner s"
  "UpsertMembership D q r3 s = (Inr x3, s') \<Longrightarrow> decided D q (UpsertMembershipRequest_GenealogyId r3) RoleCurator s"
  "RemoveMember D q r4 s = (Inr x4, s') \<Longrightarrow> decided D q (RemoveMemberRequest_GenealogyId r4) RoleCurator s"
  "BanUser D q r5 s = (Inr x5, s') \<Longrightarrow> decided D q (BanUserRequest_GenealogyId r5) RoleCurator s"
  "UnbanUser D q r6 s = (Inr x6, s') \<Longrightarrow> decided D q (UnbanUserRequest_GenealogyId r6) RoleCurator s"
  "ListMembers D q r7 s = (Inr x7, s') \<Longrightarrow> decided D q (ListMembersRequest_GenealogyId r7) RoleViewer s"
  unfolding UpdateVisibility_def DeleteGenealogy_rpc_def UpsertMembership_def RemoveMember_def BanUser_def UnbanUser_def
    ListMembers_def Let_def
  by (erule requireRole_decided authz_decided)+

lemma GetGenealogy_decided: "GetGenealogy_rpc D q r s = (Inr x, s') \<Longrightarrow> decided D q (GetGenealogyRequest_Id r) RoleNone s"
  by (auto simp: GetGenealogy_rpc_def decided_def Let_def split: prod.splits sum.splits)

lemma decided_granted:
  assumes "badger_db (dp_badger D) kv tkv" and "platform_wf (kv (sv_db s))" and "coherent (kv (sv_db s)) (sv_cache s)"
    and "decided D q gid role s"
  shows "\<exists>d. granted (kv (sv_db s)) (q_Subject q) gid = Some d \<and> role \<le> d_Role d"
proof -
  from assms(4) obtain d c' where "Resolve (dp_badger D) (q_t_get q) (q_t_put q) (q_Subject q) gid (sv_cache s) (sv_db s) = (Inr d, c')"
    and "role \<le> d_Role d" by (auto simp: decided_def authz_Resolve_def split: prod.splits)
  with badger_db.Resolve_sound [OF assms(1) this(1) assms(2,3)] show ?thesis by auto
qed

text \<open>Every role the records grant is at least Viewer.\<close>

lemma granted_viewer:
  assumes "platform_wf m" and "granted m sub gid = Some d"
  shows "RoleViewer \<le> d_Role d"
proof -
  from assms(2) obtain g where g: "gen_at m gid = Inr g" by (auto simp: granted_def split: sum.splits)
  then have "slash_free gid" using wf_gen_at [OF assms(1)] by (auto simp: wf_genealogy_def)
  from wf_mem_cases [OF assms(1) this, of sub] have "RoleViewer \<le> m_Role r" if "mem_at m gid sub = Inr r" for r
    using that by (auto simp: wf_membership_def Role_IsValid_def)
  with assms(2) g show ?thesis by (auto simp: granted_def visibility_rule_def split: sum.splits if_splits)
qed

lemma decided_viewer:
  assumes "badger_db (dp_badger D) kv tkv" and "platform_wf (kv (sv_db s))" and "coherent (kv (sv_db s)) (sv_cache s)"
    and "decided D q gid RoleNone s"
  shows "decided D q gid RoleViewer s"
proof -
  from assms(4) obtain d s1 where d: "authz_Resolve D q (q_Subject q) gid s = (Inr d, s1)" by (auto simp: decided_def)
  then obtain c' where "Resolve (dp_badger D) (q_t_get q) (q_t_put q) (q_Subject q) gid (sv_cache s) (sv_db s) = (Inr d, c')"
    by (auto simp: authz_Resolve_def split: prod.splits)
  from badger_db.Resolve_sound [OF assms(1) this assms(2,3)] have "RoleViewer \<le> d_Role d"
    using granted_viewer [OF assms(2)] by blast
  with d show ?thesis by (auto simp: decided_def)
qed

definition authorized :: "('db \<Rightarrow> string \<Rightarrow> blob option) \<Rightarrow> callenv \<Rightarrow> string \<Rightarrow> Role \<Rightarrow> bool \<Rightarrow> ('db, 'h, 'fs) server \<Rightarrow> bool" where
  "authorized kv q gid role submission s \<longleftrightarrow>
     (\<exists>d. granted (kv (sv_db s)) (q_Subject q) gid = Some d \<and> role \<le> d_Role d) \<and>
     (submission \<and> q_Subject q \<noteq> [] \<longrightarrow> kv (sv_db s) (banKey gid (q_Subject q)) = None)"

text \<open>The store handlers: what \<open>with_store\<close> let through.\<close>

lemma with_store_authorized:
  assumes "badger_db (dp_badger D) kv tkv" and "platform_wf (kv (sv_db s))" and "coherent (kv (sv_db s)) (sv_cache s)"
    and "with_store D q gid minRole submission k s = Some (Ret (Inr x, s'))"
  shows "authorized kv q gid minRole submission s"
proof -
  from assms(4) obtain st d s1 where
    "resolveStore D q (q_Subject q) gid minRole submission s = Some (Ret (Inr (st, d), s1))"
    by (auto simp: with_store_def split: option.splits outcome.splits sum.splits prod.splits)
  from resolveStore_sound [OF assms(1-3) this] show ?thesis by (auto simp: authorized_def)
qed

lemma graph_handlers_authorized:
  assumes "badger_db (dp_badger D) kv tkv" and "platform_wf (kv (sv_db s))" and "coherent (kv (sv_db s)) (sv_cache s)"
  shows "GetPerson C D q r1 s = Some (Ret (Inr x1, s')) \<Longrightarrow> authorized kv q (GetPersonRequest_GenealogyId r1) RoleViewer False s"
    and "ListPersons C D q r2 s = Some (Ret (Inr x2, s')) \<Longrightarrow> authorized kv q (ListPersonsRequest_GenealogyId r2) RoleViewer False s"
    and "GetRelationship C D q r3 s = Some (Ret (Inr x3, s')) \<Longrightarrow>
      authorized kv q (GetRelationshipRequest_GenealogyId r3) RoleViewer False s"
    and "ListRelationships C D q r4 s = Some (Ret (Inr x4, s')) \<Longrightarrow>
      authorized kv q (ListRelationshipsRequest_GenealogyId r4) RoleViewer False s"
    and "GetSource C D q r5 s = Some (Ret (Inr x5, s')) \<Longrightarrow> authorized kv q (GetSourceRequest_GenealogyId r5) RoleViewer False s"
    and "ListSources C D q r6 s = Some (Ret (Inr x6, s')) \<Longrightarrow> authorized kv q (ListSourcesRequest_GenealogyId r6) RoleViewer False s"
    and "GetProposal C D q r7 s = Some (Ret (Inr x7, s')) \<Longrightarrow> authorized kv q (GetProposalRequest_GenealogyId r7) RoleViewer False s"
    and "ListProposals C D q r8 s = Some (Ret (Inr x8, s')) \<Longrightarrow> authorized kv q (ListProposalsRequest_GenealogyId r8) RoleViewer False s"
    and "FindPaths C D q r9 s = Some (Ret (Inr x9, s')) \<Longrightarrow> authorized kv q (FindPathsRequest_GenealogyId r9) RoleViewer False s"
    and "NKCA C D q r10 s = Some (Ret (Inr x10, s')) \<Longrightarrow> authorized kv q (NKCARequest_GenealogyId r10) RoleViewer False s"
    and "CreateProposal C D q r11 s = Some (Ret (Inr x11, s')) \<Longrightarrow>
      authorized kv q (CreateProposalRequest_GenealogyId r11) RoleContributor True s"
    and "Submit C D q r12 s = Some (Ret (Inr x12, s')) \<Longrightarrow> authorized kv q (TransitionRequest_GenealogyId r12) RoleContributor True s"
    and "Withdraw C D q r12 s = Some (Ret (Inr x12, s')) \<Longrightarrow> authorized kv q (TransitionRequest_GenealogyId r12) RoleContributor False s"
    and "Claim C D q r12 s = Some (Ret (Inr x12, s')) \<Longrightarrow> authorized kv q (TransitionRequest_GenealogyId r12) RoleCurator False s"
    and "Accept C D q r12 s = Some (Ret (Inr x12, s')) \<Longrightarrow> authorized kv q (TransitionRequest_GenealogyId r12) RoleCurator False s"
    and "Reject C D q r12 s = Some (Ret (Inr x12, s')) \<Longrightarrow> authorized kv q (TransitionRequest_GenealogyId r12) RoleCurator False s"
    and "BulkReject C D q r13 s = Some (Ret (Inr x13, s')) \<Longrightarrow> authorized kv q (BulkRejectRequest_GenealogyId r13) RoleCurator False s"
  unfolding graph_handler_defs Accept_def Let_def by (erule with_store_authorized [OF assms])+

lemma decided_authorized:
  assumes "badger_db (dp_badger D) kv tkv" and "platform_wf (kv (sv_db s))" and "coherent (kv (sv_db s)) (sv_cache s)"
    and "decided D q gid role s"
  shows "authorized kv q gid role False s"
  using decided_granted [OF assms] by (simp add: authorized_def)

lemma serve_authorized_rule:
  assumes "badger_db (dp_badger D) kv tkv" and "platform_wf (kv (sv_db s))" and "coherent (kv (sv_db s)) (sv_cache s)"
    and "serve C D ver q r s = Some (Ret (Inr x, s'))" and "required r = Some (gid, role)"
  shows "authorized kv q gid role (submits r) s"
proof -
  note rules = graph_handlers_authorized [OF assms(1-3)]
    genealogy_handlers_decided [THEN decided_authorized [OF assms(1-3)]]
    GetGenealogy_decided [THEN decided_viewer [OF assms(1-3)], THEN decided_authorized [OF assms(1-3)]]
  show ?thesis
    using assms(4,5)
    by (cases r) (simp_all only: serve.simps required.simps submits.simps answer_Inr option.inject outcome.inject prod.inject
        option.distinct, (elim exE conjE; (simp only: option.distinct | hypsubst, erule rules))+)
qed

text \<open>
  Authorization, over all procedures of all services and even when database calls fail. A
  response to a request that names a genealogy implies that the stored records grant the caller
  at least the role the procedure needs there, and that a caller whose request submits a
  proposal is not banned there.
\<close>

theorem serve_authorized:
  assumes "badger_db (dp_badger D) kv tkv" and "platform_wf (kv (sv_db s))" and "coherent (kv (sv_db s)) (sv_cache s)"
    and "serve C D ver q r s = Some (Ret (Inr x, s'))" and "required r = Some (gid, role)"
  shows "authorized kv q gid role (submits r) s"
  by (rule serve_authorized_rule [OF assms])

theorem serve_authorized_witness:
  "\<exists>x s'. serve sim_core sim_deps ''v1'' (sim_call ''bob'') (Proposals_Accept sim_accept) sim_pending = Some (Ret (Inr x, s')) \<and>
     authorized map_of (sim_call ''bob'') ''g1'' RoleCurator False sim_pending"
proof -
  let ?h = "serve sim_core sim_deps ''v1'' (sim_call ''bob'') (Proposals_Accept sim_accept) sim_pending"
  have "responds ?h" by code_simp
  then obtain x s' where run: "?h = Some (Ret (Inr x, s'))" by (rule respondsE)
  have ok: "platform_wf (map_of (sv_db sim_pending))" "coherent (map_of (sv_db sim_pending)) (sv_cache sim_pending)"
    using server_okD [OF sim_ok] by (simp_all add: sim_pending_def)
  have "required (Proposals_Accept sim_accept) = Some (''g1'', RoleCurator)" by (simp add: sim_accept_def)
  from serve_authorized [OF badger_total.axioms(1) [OF sim_total] ok run this] run show ?thesis by simp
qed

end
