(* ===== verification/Auth.thy ===== *)
theory Auth
  imports Prelude
begin

text \<open>
  Token verification (\<open>internal/auth/auth.go\<close>): the roles read from a token's claims, the
  verifier over several issuers, and the identity attached to a request. Discovery and token
  verification are the OIDC library's: the argument \<open>X\<close>. A claim value is what the library
  decodes JSON into, as far as the type switch of the code tells the cases apart.
\<close>

section \<open>Roles\<close>

type_synonym auth_Role = uint8

definition auth_RoleNone :: auth_Role where [simp]: "auth_RoleNone = 0"
definition auth_RoleViewer :: auth_Role where [simp]: "auth_RoleViewer = 1"
definition auth_RoleContributor :: auth_Role where [simp]: "auth_RoleContributor = 2"
definition auth_RoleCurator :: auth_Role where [simp]: "auth_RoleCurator = 3"

definition auth_Role_String :: "auth_Role \<Rightarrow> string" where
  "auth_Role_String r =
     (if r = auth_RoleViewer then ''Viewer''
      else if r = auth_RoleContributor then ''Contributor''
      else if r = auth_RoleCurator then ''Curator''
      else ''None'')"

section \<open>Identities\<close>

datatype claim = AString string | AList "claim list" | AStrings "string list" | AOther

type_synonym claims = "string \<rightharpoonup> claim"

record Identity =
  id_Subject :: string
  id_Issuer :: string
  id_Role :: auth_Role
  id_Raw :: claims

definition Identity_zero :: Identity where
  "Identity_zero = \<lparr>id_Subject = [], id_Issuer = [], id_Role = auth_RoleNone, id_Raw = Map.empty\<rparr>"

text \<open>What the interceptors and handlers read from a request's context.\<close>

record Ctx =
  ctx_Identity :: "Identity option"
  ctx_md :: "string \<Rightarrow> string list" \<comment> \<open>incoming metadata by lower-case key\<close>
  ctx_peer :: "string option" \<comment> \<open>the peer's address\<close>

definition WithIdentity :: "Ctx \<Rightarrow> Identity \<Rightarrow> Ctx" where
  "WithIdentity ctx i = ctx\<lparr>ctx_Identity := Some i\<rparr>"

definition IdentityOf :: "Ctx \<Rightarrow> Identity" where
  "IdentityOf ctx = (case ctx_Identity ctx of Some v \<Rightarrow> v | None \<Rightarrow> Identity_zero)"

section \<open>Role claims\<close>

definition defaultRoleMap :: "string \<rightharpoonup> auth_Role" where
  "defaultRoleMap = map_of
     [(''linea-viewer'', auth_RoleViewer), (''linea-contributor'', auth_RoleContributor),
      (''linea-curator'', auth_RoleCurator)]"

definition flattenRoleValues :: "claim \<Rightarrow> string list" where
  "flattenRoleValues v =
     (case v of
        AString t \<Rightarrow> FieldsFunc (\<lambda>r. r = CHR '','' \<or> r = CHR '' '') t
      | AList t \<Rightarrow> List.map_filter (\<lambda>item. case item of AString s \<Rightarrow> Some s | _ \<Rightarrow> None) t
      | AStrings t \<Rightarrow> t
      | AOther \<Rightarrow> [])"

definition resolveRole :: "string \<Rightarrow> (string \<rightharpoonup> auth_Role) \<Rightarrow> claims \<Rightarrow> auth_Role" where
  "resolveRole RoleClaim RoleMap claims =
     (case claims RoleClaim of
        None \<Rightarrow> auth_RoleViewer
      | Some raw \<Rightarrow>
          (let values = flattenRoleValues raw in
           if values = [] then auth_RoleViewer
           else
             (let best = fold (\<lambda>val best.
                    case RoleMap (ToLower (TrimSpace val)) of
                      Some r \<Rightarrow> if r > best then r else best
                    | None \<Rightarrow> best) values auth_RoleNone
              in if best = auth_RoleNone then auth_RoleViewer else best)))"

section \<open>The verifier\<close>

record ('prov, 'tok) oidc =
  NewProvider :: "string \<Rightarrow> err + 'prov"
  Verify :: "'prov \<Rightarrow> string \<Rightarrow> string \<Rightarrow> err + 'tok" \<comment> \<open>provider, audience, raw token\<close>
  Claims :: "'tok \<Rightarrow> err + claims"
  Issuer :: "'tok \<Rightarrow> string"

record auth_Config =
  ac_IssuerURLs :: "string list"
  ac_Audiences :: "string list"
  ac_RoleClaim :: string
  ac_RoleMap :: "(string \<rightharpoonup> auth_Role) option"
  ac_IssuerURL :: string
  ac_Audience :: string

record 'prov issuerVerifier =
  iv_issuerURL :: string
  iv_provider :: 'prov
  iv_audience :: string

record 'prov Verifier =
  v_verifiers :: "'prov issuerVerifier list"
  v_RoleClaim :: string
  v_RoleMap :: "string \<rightharpoonup> auth_Role"

text \<open>The loop over the issuers; \<open>auds\<close> has the same length.\<close>

fun discover :: "('prov, 'tok) oidc \<Rightarrow> string list \<Rightarrow> string list \<Rightarrow> err + 'prov issuerVerifier list" where
  "discover X (iss # issuers) (aud # auds) =
     (case NewProvider X iss of
        Inl e \<Rightarrow> Inl (Wrap (''auth: discover issuer '' @ iss) e)
      | Inr prov \<Rightarrow>
          (case discover X issuers auds of
             Inl e \<Rightarrow> Inl e
           | Inr ivs \<Rightarrow> Inr (\<lparr>iv_issuerURL = iss, iv_provider = prov, iv_audience = aud\<rparr> # ivs)))"
| "discover X _ _ = Inr []"

definition NewVerifier :: "('prov, 'tok) oidc \<Rightarrow> auth_Config \<Rightarrow> err + 'prov Verifier" where
  "NewVerifier X cfg =
     (let issuers = (if ac_IssuerURLs cfg = [] \<and> ac_IssuerURL cfg \<noteq> [] then [ac_IssuerURL cfg] else ac_IssuerURLs cfg);
          auds = (if ac_Audiences cfg = [] \<and> ac_Audience cfg \<noteq> [] then [ac_Audience cfg] else ac_Audiences cfg) in
      if issuers = [] then Inl (ErrNew ''auth: at least one issuer is required'')
      else if length auds \<noteq> length issuers then Inl (ErrNew (''auth: have '' @ decimal (length issuers) @ '' issuers but '' @ decimal (length auds) @
               '' audiences (must be paired)''))
      else
        (case discover X issuers auds of
           Inl e \<Rightarrow> Inl e
         | Inr ivs \<Rightarrow>
             Inr \<lparr>v_verifiers = ivs,
                  v_RoleClaim = (if ac_RoleClaim cfg = [] then ''groups'' else ac_RoleClaim cfg),
                  v_RoleMap = (case ac_RoleMap cfg of None \<Rightarrow> defaultRoleMap | Some m \<Rightarrow> m)\<rparr>))"

definition claim_string :: "claims \<Rightarrow> string \<Rightarrow> string" where
  "claim_string claims k = (case claims k of Some (AString s) \<Rightarrow> s | _ \<Rightarrow> [])"

text \<open>The loop of \<open>VerifyToken\<close> with its variable \<open>lastErr\<close>.\<close>

fun verify_with ::
  "('prov, 'tok) oidc \<Rightarrow> 'prov Verifier \<Rightarrow> string \<Rightarrow> 'prov issuerVerifier list \<Rightarrow> err option \<Rightarrow> err + Identity" where
  "verify_with X v raw [] lastErr =
     (case lastErr of Some e \<Rightarrow> Inl (Wrap ''auth: verify'' e) | None \<Rightarrow> Inl (ErrNew ''auth: no issuers configured''))"
| "verify_with X v raw (iv # ivs) lastErr =
     (case Verify X (iv_provider iv) (iv_audience iv) raw of
        Inl e \<Rightarrow> verify_with X v raw ivs (Some e)
      | Inr tok \<Rightarrow>
          (case Claims X tok of
             Inl e \<Rightarrow> Inl (Wrap ''auth: decode claims'' e)
           | Inr claims \<Rightarrow>
               (let subject = claim_string claims ''sub'' in
                if subject = [] then Inl (ErrNew (''auth: token missing '' @ [CHR 0x27] @ ''sub'' @ [CHR 0x27]))
                else Inr \<lparr>id_Subject = Issuer X tok @ ''|'' @ subject, id_Issuer = Issuer X tok,
                          id_Role = resolveRole (v_RoleClaim v) (v_RoleMap v) claims, id_Raw = claims\<rparr>)))"

definition VerifyToken :: "('prov, 'tok) oidc \<Rightarrow> 'prov Verifier \<Rightarrow> string \<Rightarrow> err + Identity" where
  "VerifyToken X v raw = verify_with X v raw (v_verifiers v) None"

section \<open>Lemmas\<close>

lemma best_fold:
  "fold (\<lambda>val best. case f val of Some r \<Rightarrow> if r > best then r else best | None \<Rightarrow> best) vals b =
     Max (insert b {r. \<exists>val \<in> set vals. f val = Some r})" for b :: "'a::linorder"
proof (induction vals arbitrary: b)
  case (Cons x vals)
  have fin: "finite {r. \<exists>val \<in> set vals. f val = Some r}"
    by (rule finite_subset [of _ "the ` f ` set vals"]) force+
  show ?case
  proof (cases "f x")
    case None
    then show ?thesis using Cons by simp
  next
    case (Some r)
    have set: "{r. \<exists>val \<in> set (x # vals). f val = Some r} = insert r {r. \<exists>val \<in> set vals. f val = Some r}"
      using Some by auto
    have "Max (insert b (insert r A)) = Max (insert (max b r) A)" if "finite A" for A
      using that by (cases "A = {}") (simp_all add: ac_simps)
    then have "Max (insert b {r. \<exists>val \<in> set (x # vals). f val = Some r}) =
        Max (insert (max b r) {r. \<exists>val \<in> set vals. f val = Some r})" unfolding set using fin by blast
    moreover have "(if r > b then r else b) = max b r" by (auto simp: max_def)
    ultimately show ?thesis using Some Cons [of "max b r"] by simp
  qed
qed simp

text \<open>The role values a token carries, as the configured map reads them.\<close>

definition granted_roles :: "string \<Rightarrow> (string \<rightharpoonup> auth_Role) \<Rightarrow> claims \<Rightarrow> auth_Role set" where
  "granted_roles RoleClaim RoleMap claims =
     {r. \<exists>raw val. claims RoleClaim = Some raw \<and> val \<in> set (flattenRoleValues raw) \<and>
        RoleMap (ToLower (TrimSpace val)) = Some r}"

lemma finite_granted_roles: "finite (granted_roles c m claims)"
proof (cases "claims c")
  case (Some raw)
  have "granted_roles c m claims \<subseteq> (\<lambda>val. the (m (ToLower (TrimSpace val)))) ` set (flattenRoleValues raw)"
    using Some by (force simp: granted_roles_def)
  then show ?thesis by (rule finite_subset) simp
qed (simp add: granted_roles_def)

lemma resolveRole_Max:
  "resolveRole c m claims = Max (insert auth_RoleViewer (granted_roles c m claims))"
proof (cases "claims c")
  case None
  then show ?thesis by (simp add: resolveRole_def granted_roles_def)
next
  case (Some raw)
  let ?vals = "flattenRoleValues raw"
  define best where "best = fold (\<lambda>val best. case m (ToLower (TrimSpace val)) of
      Some r \<Rightarrow> if r > best then r else best | None \<Rightarrow> best) ?vals 0"
  have gr: "granted_roles c m claims = {r. \<exists>val \<in> set ?vals. m (ToLower (TrimSpace val)) = Some r}"
    using Some by (auto simp: granted_roles_def)
  have best: "best = Max (insert 0 (granted_roles c m claims))" unfolding best_def gr by (rule best_fold)
  have res: "resolveRole c m claims = (if best = 0 then 1 else best)"
    using Some by (simp add: resolveRole_def Let_def best_def)
  note fin = finite_granted_roles [of c m claims]
  have one: "w = 0 \<or> 1 \<le> w" for w :: auth_Role
    by (metis word_le_less_eq word_not_simps(1) linorder_not_less word_gt_0 inc_le add_0)
  show ?thesis
  proof (cases "granted_roles c m claims = {}")
    case True
    then show ?thesis by (simp add: res best)
  next
    case False
    let ?M = "Max (granted_roles c m claims)"
    have "best = ?M" using fin False by (simp add: best max_def)
    moreover have "Max (insert 1 (granted_roles c m claims)) = max 1 ?M" using fin False by simp
    ultimately show ?thesis using one [of ?M] by (auto simp: res max_def)
  qed
qed

lemma resolveRole_ge: "auth_RoleViewer \<le> resolveRole c m claims"
  unfolding resolveRole_Max using finite_granted_roles by (intro Max_ge) auto

text \<open>The first issuer whose verifier accepts the token decides.\<close>

lemma verify_with_Inr:
  assumes "verify_with X v raw ivs err = Inr i"
  shows "\<exists>pre iv post tok claims. ivs = pre @ iv # post \<and>
    (\<forall>iv' \<in> set pre. \<exists>e. Verify X (iv_provider iv') (iv_audience iv') raw = Inl e) \<and>
    Verify X (iv_provider iv) (iv_audience iv) raw = Inr tok \<and> Claims X tok = Inr claims \<and>
    claims ''sub'' = Some (AString (claim_string claims ''sub'')) \<and> claim_string claims ''sub'' \<noteq> [] \<and>
    i = \<lparr>id_Subject = Issuer X tok @ ''|'' @ claim_string claims ''sub'', id_Issuer = Issuer X tok,
         id_Role = resolveRole (v_RoleClaim v) (v_RoleMap v) claims, id_Raw = claims\<rparr>"
  using assms
proof (induction ivs arbitrary: err)
  case (Cons iv ivs)
  show ?case
  proof (cases "Verify X (iv_provider iv) (iv_audience iv) raw")
    case (Inl e)
    with Cons.prems have "verify_with X v raw ivs (Some e) = Inr i" by simp
    from Cons.IH [OF this] Inl obtain pre iv' post tok claims where *: "ivs = pre @ iv' # post"
      "\<forall>iv'' \<in> set pre. \<exists>e. Verify X (iv_provider iv'') (iv_audience iv'') raw = Inl e" and
      **: "Verify X (iv_provider iv') (iv_audience iv') raw = Inr tok" "Claims X tok = Inr claims"
      "claims ''sub'' = Some (AString (claim_string claims ''sub''))" "claim_string claims ''sub'' \<noteq> []"
      "i = \<lparr>id_Subject = Issuer X tok @ ''|'' @ claim_string claims ''sub'', id_Issuer = Issuer X tok,
         id_Role = resolveRole (v_RoleClaim v) (v_RoleMap v) claims, id_Raw = claims\<rparr>" by blast
    show ?thesis
      by (rule exI [of _ "iv # pre"], rule exI [of _ iv'], rule exI [of _ post]) (use * ** Inl in auto)
  next
    case (Inr tok)
    with Cons.prems obtain claims where c: "Claims X tok = Inr claims" "claim_string claims ''sub'' \<noteq> []"
      "i = \<lparr>id_Subject = Issuer X tok @ ''|'' @ claim_string claims ''sub'', id_Issuer = Issuer X tok,
         id_Role = resolveRole (v_RoleClaim v) (v_RoleMap v) claims, id_Raw = claims\<rparr>"
      by (auto simp: Let_def split: sum.splits if_splits)
    then have "claims ''sub'' = Some (AString (claim_string claims ''sub''))"
      by (auto simp: claim_string_def split: option.splits claim.splits)
    then show ?thesis
      by (intro exI [of _ "[]"] exI [of _ iv] exI [of _ ivs]) (use Inr c in auto)
  qed
qed (simp split: option.splits)

lemma discover_length: "discover X issuers auds = Inr ivs \<Longrightarrow> length issuers = length auds \<Longrightarrow>
  map iv_issuerURL ivs = issuers \<and> map iv_audience ivs = auds \<and>
  (\<forall>iv \<in> set ivs. NewProvider X (iv_issuerURL iv) = Inr (iv_provider iv))"
  by (induction X issuers auds arbitrary: ivs rule: discover.induct) (auto split: sum.splits)


section \<open>Properties\<close>

text \<open>
  The role of a token is the highest role its claim grants, and never less than Viewer.
\<close>

theorem resolveRole_highest:
  "resolveRole c m claims \<in> insert auth_RoleViewer (granted_roles c m claims) \<and>
   (\<forall>r. r \<in> insert auth_RoleViewer (granted_roles c m claims) \<longrightarrow> r \<le> resolveRole c m claims)"
  unfolding resolveRole_Max using finite_granted_roles [of c m claims] by (metis Max_ge Max_in finite_insert insert_not_empty)

definition sim_claims :: claims where
  "sim_claims = [''sub'' \<mapsto> AString ''42'', ''groups'' \<mapsto> AString ''staff, Linea-Curator linea-viewer'']"

theorem resolveRole_highest_witness:
  "auth_RoleViewer \<le> resolveRole ''groups'' defaultRoleMap sim_claims \<and>
   resolveRole ''groups'' defaultRoleMap sim_claims = auth_RoleCurator"
proof
  show "auth_RoleViewer \<le> resolveRole ''groups'' defaultRoleMap sim_claims"
    by (rule conjunct2 [OF resolveRole_highest, rule_format]) simp
  show "resolveRole ''groups'' defaultRoleMap sim_claims = auth_RoleCurator" by code_simp
qed

text \<open>
  C39: what an accepted token means. \<open>NewVerifier\<close> pairs every issuer with its audience, and a
  token that \<open>VerifyToken\<close> accepts was accepted by the provider of one configured issuer for
  that issuer's audience, after every earlier issuer rejected it; the identity is the token's
  issuer and non-empty subject with the role of its claims.
\<close>

theorem VerifyToken_sound:
  assumes "NewVerifier X cfg = Inr v" and "VerifyToken X v raw = Inr i"
  shows "\<exists>n prov tok claims.
    n < length (v_verifiers v) \<and>
    NewProvider X (iv_issuerURL (v_verifiers v ! n)) = Inr prov \<and>
    (iv_issuerURL (v_verifiers v ! n), iv_audience (v_verifiers v ! n)) \<in> set
      (zip (if ac_IssuerURLs cfg = [] then [ac_IssuerURL cfg] else ac_IssuerURLs cfg)
           (if ac_Audiences cfg = [] then [ac_Audience cfg] else ac_Audiences cfg)) \<and>
    Verify X prov (iv_audience (v_verifiers v ! n)) raw = Inr tok \<and>
    (\<forall>k < n. \<exists>e. Verify X (iv_provider (v_verifiers v ! k)) (iv_audience (v_verifiers v ! k)) raw = Inl e) \<and>
    Claims X tok = Inr claims \<and> claim_string claims ''sub'' \<noteq> [] \<and>
    id_Subject i = Issuer X tok @ ''|'' @ claim_string claims ''sub'' \<and> id_Issuer i = Issuer X tok \<and>
    id_Role i = resolveRole (v_RoleClaim v) (v_RoleMap v) claims"
proof -
  let ?is = "if ac_IssuerURLs cfg = [] \<and> ac_IssuerURL cfg \<noteq> [] then [ac_IssuerURL cfg] else ac_IssuerURLs cfg"
  let ?as = "if ac_Audiences cfg = [] \<and> ac_Audience cfg \<noteq> [] then [ac_Audience cfg] else ac_Audiences cfg"
  from assms(1) have len: "length ?is = length ?as" "?is \<noteq> []" and d: "discover X ?is ?as = Inr (v_verifiers v)"
    by (auto simp: NewVerifier_def Let_def split: if_splits sum.splits)
  note ivs = discover_length [OF d len(1)]
  have lists: "?is = (if ac_IssuerURLs cfg = [] then [ac_IssuerURL cfg] else ac_IssuerURLs cfg)"
    "?as = (if ac_Audiences cfg = [] then [ac_Audience cfg] else ac_Audiences cfg)"
    using len by (auto split: if_splits)
  from verify_with_Inr [OF assms(2) [unfolded VerifyToken_def]] obtain pre iv post tok claims where
    split: "v_verifiers v = pre @ iv # post"
    and pre: "\<forall>iv' \<in> set pre. \<exists>e. Verify X (iv_provider iv') (iv_audience iv') raw = Inl e"
    and tok: "Verify X (iv_provider iv) (iv_audience iv) raw = Inr tok" "Claims X tok = Inr claims"
      "claim_string claims ''sub'' \<noteq> []"
    and i: "i = \<lparr>id_Subject = Issuer X tok @ ''|'' @ claim_string claims ''sub'', id_Issuer = Issuer X tok,
         id_Role = resolveRole (v_RoleClaim v) (v_RoleMap v) claims, id_Raw = claims\<rparr>" by blast
  have at: "v_verifiers v ! length pre = iv" by (simp add: split)
  have "map (\<lambda>iv. (iv_issuerURL iv, iv_audience iv)) (v_verifiers v) = zip ?is ?as"
    unfolding conjunct1 [OF ivs, symmetric] conjunct1 [OF conjunct2 [OF ivs], symmetric]
    by (simp add: zip_map_map zip_same_conv_map)
  then have "(iv_issuerURL iv, iv_audience iv) \<in> set (zip ?is ?as)"
    using split by (metis (mono_tags, lifting) in_set_conv_decomp image_eqI list.set_map)
  moreover have "\<exists>e. Verify X (iv_provider (v_verifiers v ! k)) (iv_audience (v_verifiers v ! k)) raw = Inl e"
    if "k < length pre" for k using pre that by (simp add: split nth_append)
  moreover have "NewProvider X (iv_issuerURL iv) = Inr (iv_provider iv)" using ivs split by simp
  ultimately show ?thesis
    using tok i at split lists by (intro exI [of _ "length pre"] exI [of _ "iv_provider iv"]) auto
qed

text \<open>A provider that accepts one token.\<close>

definition sim_oidc :: "(string, string) oidc" where
  "sim_oidc =
     \<lparr>NewProvider = (\<lambda>iss. Inr iss),
      Verify = (\<lambda>prov aud raw. if raw = ''good'' \<and> prov = ''https://b'' then Inr prov else Inl (ErrExt ''bad signature'')),
      Claims = (\<lambda>tok. Inr sim_claims), Issuer = (\<lambda>tok. tok)\<rparr>"

definition sim_auth :: auth_Config where
  "sim_auth = \<lparr>ac_IssuerURLs = [''https://a'', ''https://b''], ac_Audiences = [''x'', ''y''], ac_RoleClaim = [],
     ac_RoleMap = None, ac_IssuerURL = [], ac_Audience = []\<rparr>"

definition sim_verifier :: "string Verifier" where
  "sim_verifier = projr (NewVerifier sim_oidc sim_auth)"

lemma sim_verifier_new: "NewVerifier sim_oidc sim_auth = Inr sim_verifier"
  by (simp add: sim_verifier_def NewVerifier_def sim_auth_def sim_oidc_def)

lemma sim_identity:
  "VerifyToken sim_oidc sim_verifier ''good'' =
     Inr \<lparr>id_Subject = ''https://b|42'', id_Issuer = ''https://b'', id_Role = auth_RoleCurator, id_Raw = sim_claims\<rparr>"
proof -
  have role: "resolveRole ''groups'' defaultRoleMap sim_claims = auth_RoleCurator" by code_simp
  have sub: "claim_string sim_claims ''sub'' = ''42''" by (simp add: claim_string_def sim_claims_def)
  show ?thesis
    using role sub by (simp add: VerifyToken_def sim_verifier_def NewVerifier_def sim_auth_def sim_oidc_def)
qed

theorem VerifyToken_sound_witness:
  "\<exists>i tok claims. VerifyToken sim_oidc sim_verifier ''good'' = Inr i \<and>
     Claims sim_oidc tok = Inr claims \<and> id_Subject i = Issuer sim_oidc tok @ ''|'' @ claim_string claims ''sub''"
  using VerifyToken_sound [OF sim_verifier_new sim_identity] sim_identity by blast

text \<open>
  Subjects of different users never collide: when the providers' issuers contain no bar, equal
  subject strings of two accepted tokens come from the same issuer and the same \<open>sub\<close> claim.
\<close>

theorem subjects_distinct:
  assumes "VerifyToken X v raw1 = Inr i1" and "VerifyToken X v raw2 = Inr i2"
    and "\<forall>prov aud raw tok. Verify X prov aud raw = Inr tok \<longrightarrow> CHR ''|'' \<notin> set (Issuer X tok)"
    and "id_Subject i1 = id_Subject i2"
  shows "id_Issuer i1 = id_Issuer i2 \<and> claim_string (id_Raw i1) ''sub'' = claim_string (id_Raw i2) ''sub''"
proof -
  have shape: "CHR ''|'' \<notin> set (id_Issuer i) \<and> id_Subject i = id_Issuer i @ CHR ''|'' # claim_string (id_Raw i) ''sub''"
    if "VerifyToken X v raw = Inr i" for raw i
    using verify_with_Inr [OF that [unfolded VerifyToken_def]] assms(3) by auto
  from shape [OF assms(1)] shape [OF assms(2)] assms(4) append_sep_inject show ?thesis by metis
qed

theorem subjects_distinct_witness:
  "\<exists>i. VerifyToken sim_oidc sim_verifier ''good'' = Inr i \<and> id_Issuer i = id_Issuer i \<and>
     claim_string (id_Raw i) ''sub'' = ''42''"
proof -
  have "\<forall>prov aud raw tok. Verify sim_oidc prov aud raw = Inr tok \<longrightarrow> CHR ''|'' \<notin> set (Issuer sim_oidc tok)"
    by (auto simp: sim_oidc_def split: if_splits)
  from subjects_distinct [OF sim_identity sim_identity this] sim_identity show ?thesis
    by (simp add: claim_string_def sim_claims_def)
qed

end
