(* ===== verification/Float64.thy ===== *)
theory Float64
  imports Complex_Main "HOL-Library.Log_Nat"
begin

text \<open>
  Go's \<open>float64\<close> arithmetic as far as the rate limiter uses it: a value is a rational number,
  an operation is the exact result rounded to 53 significant bits, ties to even. Exponents are
  unbounded here; the limiter's values stay between a billionth and a few hundred billions. The
  products and sums are rounded one by one, as on a machine without fused multiply-add.
\<close>

definition pow2 :: "int \<Rightarrow> rat" where
  "pow2 e = (if 0 \<le> e then 2 ^ nat e else 1 / 2 ^ nat (- e))"

text \<open>The exponent of a positive number: \<open>pow2 e \<le> x < pow2 (e + 1)\<close>.\<close>

definition expo :: "rat \<Rightarrow> int" where
  "expo x =
     (case quotient_of x of (p, q) \<Rightarrow>
        let e = bitlen p - bitlen q in if pow2 e \<le> x then e else e - 1)"

text \<open>The nearest integer, ties to even.\<close>

definition rne :: "rat \<Rightarrow> int" where
  "rne x =
     (let f = \<lfloor>x\<rfloor>; d = x - of_int f in
      if d < 1 / 2 then f else if 1 / 2 < d then f + 1 else if even f then f else f + 1)"

definition f64 :: "rat \<Rightarrow> rat" where
  "f64 x =
     (if x = 0 then 0
      else let u = pow2 (expo \<bar>x\<bar> - 52) in of_int (rne (x / u)) * u)"

section \<open>Powers of two\<close>

lemma pow2_powi: "pow2 e = 2 powi e"
  by (simp add: pow2_def power_int_def inverse_eq_divide power_one_over)

lemma pow2_pos [simp]: "0 < pow2 e"
  by (simp add: pow2_powi)

lemma pow2_nonzero [simp]: "pow2 e \<noteq> 0"
  using pow2_pos [of e] by linarith

lemma pow2_add: "pow2 (a + b) = pow2 a * pow2 b"
  by (simp add: pow2_powi power_int_add)

lemma pow2_le: "a \<le> b \<Longrightarrow> pow2 a \<le> pow2 b"
  by (simp add: pow2_powi power_int_increasing)

lemma pow2_nat [simp]: "pow2 (int n) = 2 ^ n"
  by (simp add: pow2_def)

lemma pow2_less_cancel: "pow2 a < pow2 b \<Longrightarrow> a < b"
  by (meson leD leI pow2_le)

lemma pow2_suc: "pow2 (e + 1) = 2 * pow2 e"
  by (simp add: pow2_add) (simp add: pow2_def)

section \<open>The exponent\<close>

lemma bitlen_bounds_pos:
  assumes "0 < p"
  shows "pow2 (bitlen p - 1) \<le> of_int p" "of_int p < pow2 (bitlen p)"
proof -
  have nn: "0 \<le> bitlen p" "1 \<le> bitlen p" using assms by (simp_all add: bitlen_def floorlog_def)
  have b: "2 ^ nat (bitlen p - 1) \<le> p \<and> p < 2 ^ nat (bitlen p)" using bitlen_bounds [OF assms] .
  show "pow2 (bitlen p - 1) \<le> of_int p" "of_int p < pow2 (bitlen p)"
    using b nn by (simp_all add: pow2_def)
qed

lemma expo_bounds:
  assumes "0 < x"
  shows "pow2 (expo x) \<le> x" "x < pow2 (expo x + 1)"
proof -
  obtain p q where pq: "quotient_of x = (p, q)" by (cases "quotient_of x")
  have x: "x = of_int p / of_int q" and q: "0 < q" using quotient_of_div [OF pq] quotient_of_denom_pos [OF pq] by auto
  then have p: "0 < p" using assms by (simp add: zero_less_divide_iff)
  note P = bitlen_bounds_pos [OF p] and Q = bitlen_bounds_pos [OF q]
  let ?e = "bitlen p - bitlen q"
  have "x < pow2 (bitlen p) / pow2 (bitlen q - 1)"
    unfolding x using P(2) Q(1) p q by (intro frac_less) auto
  also have "pow2 (bitlen p) / pow2 (bitlen q - 1) = pow2 (?e + 1)"
    using pow2_add [of "?e + 1" "bitlen q - 1"] by (simp add: field_simps)
  finally have up: "x < pow2 (?e + 1)" .
  have "pow2 (?e - 1) = pow2 (bitlen p - 1) / pow2 (bitlen q)"
    using pow2_add [of "?e - 1" "bitlen q"] by (simp add: field_simps)
  also have "\<dots> \<le> x" unfolding x using P(1) Q(2) p q by (intro frac_le) auto
  finally have low: "pow2 (?e - 1) \<le> x" .
  show "pow2 (expo x) \<le> x" "x < pow2 (expo x + 1)"
    using up low by (auto simp: expo_def pq Let_def not_le)
qed

lemma expo_unique: "0 < x \<Longrightarrow> pow2 e \<le> x \<Longrightarrow> x < pow2 (e + 1) \<Longrightarrow> expo x = e"
proof -
  assume "0 < x" "pow2 e \<le> x" "x < pow2 (e + 1)"
  with expo_bounds [of x] have "pow2 e < pow2 (expo x + 1)" "pow2 (expo x) < pow2 (e + 1)" by auto
  then have "e < expo x + 1" "expo x < e + 1" by (auto dest: pow2_less_cancel)
  then show "expo x = e" by simp
qed

lemma expo_mono: "0 < x \<Longrightarrow> x \<le> y \<Longrightarrow> expo x \<le> expo y"
proof -
  assume "0 < x" "x \<le> y"
  with expo_bounds [of x] expo_bounds [of y] have "pow2 (expo x) < pow2 (expo y + 1)" by auto
  then have "expo x < expo y + 1" by (rule pow2_less_cancel)
  then show ?thesis by simp
qed

section \<open>Rounding\<close>

lemma rne_bounds: "\<bar>of_int (rne x) - x\<bar> \<le> 1 / 2"
proof -
  have "of_int \<lfloor>x\<rfloor> \<le> x" "x < of_int \<lfloor>x\<rfloor> + 1" by linarith+
  then show ?thesis by (auto simp: rne_def Let_def abs_le_iff)
qed

lemma rne_int [simp]: "rne (of_int k) = k"
  by (simp add: rne_def)

lemma rne_mono: "x \<le> y \<Longrightarrow> rne x \<le> rne y"
proof (cases "\<lfloor>x\<rfloor> = \<lfloor>y\<rfloor>")
  case True
  assume "x \<le> y"
  with True show ?thesis by (auto simp: rne_def Let_def)
next
  case False
  assume "x \<le> y"
  with False have "\<lfloor>x\<rfloor> + 1 \<le> \<lfloor>y\<rfloor>" using floor_mono [of x y] by linarith
  moreover have "rne x \<le> \<lfloor>x\<rfloor> + 1" "\<lfloor>y\<rfloor> \<le> rne y" by (auto simp: rne_def Let_def)
  ultimately show ?thesis by linarith
qed

lemma f64_zero [simp]: "f64 0 = 0"
  by (simp add: f64_def)

lemma f64_pos_eq: "0 < x \<Longrightarrow> f64 x = of_int (rne (x / pow2 (expo x - 52))) * pow2 (expo x - 52)"
  by (simp add: f64_def Let_def)

text \<open>A multiple of the last place's unit is represented exactly.\<close>

lemma f64_exact:
  assumes "0 < x" and "x = of_int k * pow2 (expo x - 52)"
  shows "f64 x = x"
proof -
  have "x / pow2 (expo x - 52) = of_int k" using assms(2) pow2_pos [of "expo x - 52"] by (simp add: field_simps)
  then have "f64 x = of_int k * pow2 (expo x - 52)" using f64_pos_eq [OF assms(1)] by simp
  then show ?thesis using assms(2) by simp
qed

lemma f64_pow2 [simp]: "f64 (pow2 e) = pow2 e"
proof (rule f64_exact [of _ "2 ^ 52"])
  have "expo (pow2 e) = e" by (rule expo_unique) (simp_all add: pow2_suc)
  then show "pow2 e = of_int (2 ^ 52) * pow2 (expo (pow2 e) - 52)"
    using pow2_add [of "e - 52" 52] pow2_nat [of 52] by simp
qed simp

lemma f64_error: "0 \<le> x \<Longrightarrow> \<bar>f64 x - x\<bar> \<le> x / 2 ^ 53"
proof (cases "x = 0")
  case False
  assume "0 \<le> x"
  with False have x: "0 < x" by simp
  let ?u = "pow2 (expo x - 52)"
  have "f64 x - x = (of_int (rne (x / ?u)) - x / ?u) * ?u"
    using f64_pos_eq [OF x] by (simp add: field_simps)
  then have "\<bar>f64 x - x\<bar> = \<bar>of_int (rne (x / ?u)) - x / ?u\<bar> * ?u" by (simp add: abs_mult abs_of_pos)
  also have "\<dots> \<le> 1 / 2 * ?u" by (intro mult_right_mono rne_bounds) (simp add: less_imp_le)
  also have "\<dots> = pow2 (expo x) / 2 ^ 53" using pow2_add [of "expo x - 52" 52] pow2_nat [of 52] by (simp add: field_simps)
  also have "\<dots> \<le> x / 2 ^ 53" using expo_bounds(1) [OF x] by (intro divide_right_mono) simp_all
  finally show ?thesis .
qed simp

lemma f64_nonneg: "0 \<le> x \<Longrightarrow> 0 \<le> f64 x"
proof -
  assume "0 \<le> x"
  with f64_error [OF this] have "- (x / 2 ^ 53) \<le> f64 x - x" "x / 2 ^ 53 \<le> x" by (simp_all only: abs_le_iff) (linarith, simp add: field_simps)
  then show ?thesis by linarith
qed

lemma f64_mono: "0 \<le> x \<Longrightarrow> x \<le> y \<Longrightarrow> f64 x \<le> f64 y"
proof (cases "x = 0")
  case True
  assume "0 \<le> x" "x \<le> y"
  with True show ?thesis using f64_nonneg [of y] by simp
next
  case False
  assume "0 \<le> x" and xy: "x \<le> y"
  with False have x: "0 < x" and y: "0 < y" by auto
  show ?thesis
  proof (cases "expo x = expo y")
    case True
    let ?u = "pow2 (expo x - 52)"
    have "of_int (rne (x / ?u)) * ?u \<le> of_int (rne (y / ?u)) * ?u"
      using xy by (intro mult_right_mono) (simp_all add: rne_mono divide_right_mono less_imp_le)
    then show ?thesis using f64_pos_eq [OF x] f64_pos_eq [OF y] True by simp
  next
    case False
    then have lt: "expo x + 1 \<le> expo y" using expo_mono [OF x xy] by simp
    let ?u = "pow2 (expo x - 52)" and ?v = "pow2 (expo y - 52)"
    have two: "pow2 (e + 52 - k) = of_int (2 ^ nat (52 - k)) * pow2 e" if "k \<le> 52" for e k
      using pow2_add [of e "52 - k"] that by (simp add: pow2_def add.commute algebra_simps)
    have "x / ?u \<le> of_int (2 ^ 53)"
      using expo_bounds(2) [OF x] two [of "- 1" "expo x - 52"] by (simp add: divide_le_eq algebra_simps)
    then have "rne (x / ?u) \<le> 2 ^ 53" using rne_mono [of "x / ?u" "of_int (2 ^ 53)"] unfolding rne_int by blast
    then have "f64 x \<le> of_int (2 ^ 53) * ?u"
      using f64_pos_eq [OF x] by (simp only:) (intro mult_right_mono, simp_all only: of_int_le_iff less_imp_le [OF pow2_pos])
    also have "\<dots> = pow2 (expo x + 1)" using two [of "- 1" "expo x - 52"] by (simp add: algebra_simps)
    also have "\<dots> \<le> pow2 (expo y)" by (rule pow2_le [OF lt])
    also have "\<dots> = of_int (2 ^ 52) * ?v" using two [of 0 "expo y - 52"] by (simp add: algebra_simps)
    also have "\<dots> \<le> f64 y"
    proof -
      have "of_int (2 ^ 52) \<le> y / ?v" using expo_bounds(1) [OF y] two [of 0 "expo y - 52"] by (simp add: le_divide_eq algebra_simps)
      then have "2 ^ 52 \<le> rne (y / ?v)" using rne_mono [of "of_int (2 ^ 52)" "y / ?v"] unfolding rne_int by blast
      then show ?thesis using f64_pos_eq [OF y]
        by (simp only:) (intro mult_right_mono, simp_all only: of_int_le_iff less_imp_le [OF pow2_pos])
    qed
    finally show ?thesis .
  qed
qed

text \<open>Whole numbers up to \<open>2 ^ 53\<close> are exact.\<close>

lemma f64_int:
  assumes "0 \<le> k" "k < 2 ^ 53"
  shows "f64 (of_int k) = of_int k"
proof (cases "k = 0")
  case False
  with assms have k: "0 < k" by simp
  then have x: "0 < (of_int k :: rat)" by simp
  let ?e = "expo (of_int k)"
  have "of_int k < (of_int (2 ^ 53) :: rat)" using assms(2) by (simp only: of_int_less_iff)
  then have "pow2 ?e < pow2 53" using expo_bounds(1) [OF x] pow2_nat [of 53] by simp
  then have "?e < 53" by (rule pow2_less_cancel)
  then have le: "?e \<le> 52" by simp
  then have "pow2 (52 - ?e) = of_int (2 ^ nat (52 - ?e))" by (simp add: pow2_def)
  then have "of_int (k * 2 ^ nat (52 - ?e)) * pow2 (?e - 52) = of_int k * (pow2 (52 - ?e) * pow2 (?e - 52))"
    by simp
  also have "\<dots> = of_int k" using pow2_add [of "52 - ?e" "?e - 52"] by (simp add: pow2_def)
  finally show ?thesis by (intro f64_exact [OF x, of "k * 2 ^ nat (52 - ?e)"]) (rule sym)
qed simp

end
