(* ===== verification/Ratelimit.thy ===== *)
theory Ratelimit
  imports Prelude Float64 "HOL-Library.Signed_Division"
begin

text \<open>
  The token-bucket rate limiter (\<open>internal/ratelimit/ratelimit.go\<close>). Times are monotonic clock
  readings in nanoseconds; \<open>now\<close> is the reading a call makes. The mutex makes every call and
  every pass of the sweeper one step.
\<close>

section \<open>Time\<close>

text \<open>\<open>time.Time.Sub\<close> saturates at the ends of \<open>Duration\<close>; \<open>Duration.Seconds\<close>.\<close>

definition Sub :: "int \<Rightarrow> int \<Rightarrow> int" where
  "Sub t u = max (- (2 ^ 63)) (min (2 ^ 63 - 1) (t - u))"

definition Seconds :: "int \<Rightarrow> rat" where
  "Seconds d = f64 (f64 (of_int (d sdiv 10 ^ 9)) + f64 (f64 (of_int (d smod 10 ^ 9)) / 10 ^ 9))"

section \<open>The bucket\<close>

record rl_entry =
  tokens :: rat
  updated :: int

record Bucket =
  capacity :: rat
  refillPerSecond :: rat
  idleTimeout :: int
  buckets :: "string \<rightharpoonup> rl_entry"
  stopped :: bool \<comment> \<open>the channel \<open>stop\<close> is closed\<close>

record rl_Config =
  rc_Capacity :: rat
  rc_RefillPerSecond :: rat
  rc_IdleTimeout :: int

definition rl_New :: "rl_Config \<Rightarrow> Bucket" where
  "rl_New cfg =
     \<lparr>capacity = rc_Capacity cfg, refillPerSecond = rc_RefillPerSecond cfg,
      idleTimeout = (if rc_IdleTimeout cfg \<le> 0 then 10 * 60 * 10 ^ 9 else rc_IdleTimeout cfg),
      buckets = Map.empty, stopped = False\<rparr>"

definition refill :: "Bucket \<Rightarrow> int \<Rightarrow> rl_entry \<Rightarrow> rat" where
  "refill b now e =
     (let dt = Seconds (Sub now (updated e));
          t = f64 (tokens e + f64 (dt * refillPerSecond b))
      in if t > capacity b then capacity b else t)"

definition Allow :: "int \<Rightarrow> string \<Rightarrow> Bucket \<Rightarrow> bool \<times> Bucket" where
  "Allow now key b =
     (let t = (case buckets b key of None \<Rightarrow> capacity b | Some e \<Rightarrow> refill b now e) in
      if 1 \<le> t then (True, b\<lparr>buckets := (buckets b)(key \<mapsto> \<lparr>tokens = f64 (t - 1), updated = now\<rparr>)\<rparr>)
      else (False, b\<lparr>buckets := (buckets b)(key \<mapsto> \<lparr>tokens = t, updated = now\<rparr>)\<rparr>))"

text \<open>One pass of the sweeper's loop, and \<open>Close\<close>, which panics the second time.\<close>

definition sweep_tick :: "int \<Rightarrow> Bucket \<Rightarrow> Bucket" where
  "sweep_tick now b =
     b\<lparr>buckets := (\<lambda>k. case buckets b k of
         None \<Rightarrow> None
       | Some e \<Rightarrow> if Sub now (updated e) > idleTimeout b then None else Some e)\<rparr>"

definition rl_Close :: "Bucket \<Rightarrow> Bucket outcome" where
  "rl_Close b = (if stopped b then Panic else Ret (b\<lparr>stopped := True\<rparr>))"

definition AlwaysAllow_Allow :: "string \<Rightarrow> bool" where
  "AlwaysAllow_Allow key = True"

section \<open>Sequences of calls and sweeps\<close>

datatype rl_event = Call string int | Tick int

fun ev_time :: "rl_event \<Rightarrow> int" where
  "ev_time (Call k t) = t"
| "ev_time (Tick t) = t"

fun rl_step :: "rl_event \<Rightarrow> Bucket \<Rightarrow> (string \<times> bool) list \<times> Bucket" where
  "rl_step (Call k t) b = (case Allow t k b of (ok, b') \<Rightarrow> ([(k, ok)], b'))"
| "rl_step (Tick t) b = ([], if stopped b then b else sweep_tick t b)"

text \<open>The answers, in order.\<close>

fun rl_run :: "rl_event list \<Rightarrow> Bucket \<Rightarrow> (string \<times> bool) list \<times> Bucket" where
  "rl_run [] b = ([], b)"
| "rl_run (e # es) b = (case rl_step e b of (out, b1) \<Rightarrow> (case rl_run es b1 of (outs, b2) \<Rightarrow> (out @ outs, b2)))"

fun is_call :: "rl_event \<Rightarrow> bool" where
  "is_call (Call k t) = True"
| "is_call (Tick t) = False"

section \<open>Seconds\<close>

lemma Sub_nonneg: "u \<le> t \<Longrightarrow> 0 \<le> Sub t u \<and> Sub t u \<le> t - u \<and> Sub t u < 2 ^ 63"
  by (auto simp: Sub_def)

lemma quot_rem:
  fixes d :: int
  assumes "0 \<le> d"
  shows "d sdiv 10 ^ 9 = d div 10 ^ 9" "d smod 10 ^ 9 = d mod 10 ^ 9"
  using assms by (auto simp: signed_divide_int_def signed_modulo_int_def sgn_if)

lemma Seconds_eq:
  assumes "0 \<le> d" "d < 2 ^ 63"
  shows "Seconds d = f64 (of_int (d div 10 ^ 9) + f64 (of_int (d mod 10 ^ 9) / 10 ^ 9))"
proof -
  have "d div 10 ^ 9 < 2 ^ 53" "0 \<le> d div 10 ^ 9"
    using assms by (simp_all add: div_less_iff_less_mult pos_imp_zdiv_nonneg_iff)
  then have a: "f64 (of_int (d div 10 ^ 9)) = of_int (d div 10 ^ 9)" by (intro f64_int)
  have "d mod 10 ^ 9 < 2 ^ 53" "0 \<le> d mod 10 ^ 9" using pos_mod_bound [of "10 ^ 9" d] by simp_all
  then have b: "f64 (of_int (d mod 10 ^ 9)) = of_int (d mod 10 ^ 9)" by (intro f64_int)
  show ?thesis unfolding Seconds_def quot_rem [OF assms(1)] a b ..
qed

lemma frac_bounds: "0 \<le> of_int (d mod 10 ^ 9) / (10 ^ 9 :: rat)" "of_int (d mod 10 ^ 9) / (10 ^ 9 :: rat) \<le> 1"
  using pos_mod_bound [of "10 ^ 9" d] pos_mod_sign [of "10 ^ 9" d] by (simp_all flip: of_int_le_iff)

lemma f64_one [simp]: "f64 1 = 1"
  using f64_int [of 1] by simp

lemma f64_frac: "f64 (of_int (d mod 10 ^ 9) / 10 ^ 9) \<le> 1"
  using f64_mono [OF frac_bounds] by simp

lemma whole_frac: "of_int d / (10 ^ 9 :: rat) = of_int (d div 10 ^ 9) + of_int (d mod 10 ^ 9) / 10 ^ 9"
proof -
  have "of_int (d div 10 ^ 9) * 10 ^ 9 + of_int (d mod 10 ^ 9) = (of_int d :: rat)"
    using arg_cong [OF div_mult_mod_eq [of d "10 ^ 9"], of rat_of_int]
    by (simp only: of_int_add of_int_mult of_int_power of_int_numeral)
  then show ?thesis by (simp add: field_simps)
qed

lemma Seconds_nonneg: "0 \<le> d \<Longrightarrow> d < 2 ^ 63 \<Longrightarrow> 0 \<le> Seconds d"
  by (simp add: Seconds_eq f64_nonneg frac_bounds(1) pos_imp_zdiv_nonneg_iff)

lemma Seconds_mono:
  assumes "0 \<le> c" "c \<le> d" "d < 2 ^ 63"
  shows "Seconds c \<le> Seconds d"
proof -
  have q: "0 \<le> c div 10 ^ 9" "c div 10 ^ 9 \<le> d div 10 ^ 9"
    using assms by (simp_all add: pos_imp_zdiv_nonneg_iff zdiv_mono1)
  have "of_int (c div 10 ^ 9) + f64 (of_int (c mod 10 ^ 9) / 10 ^ 9) \<le>
      of_int (d div 10 ^ 9) + f64 (of_int (d mod 10 ^ 9) / 10 ^ 9)"
  proof (cases "c div 10 ^ 9 = d div 10 ^ 9")
    case True
    then have "c mod 10 ^ 9 \<le> d mod 10 ^ 9"
      using assms(2) by (metis add_le_cancel_left mult_div_mod_eq)
    then have "of_int (c mod 10 ^ 9) / (10 ^ 9 :: rat) \<le> of_int (d mod 10 ^ 9) / 10 ^ 9"
      by (intro divide_right_mono) simp_all
    then show ?thesis using True f64_mono [OF frac_bounds(1)] by simp
  next
    case False
    then have "of_int (c div 10 ^ 9) + 1 \<le> (of_int (d div 10 ^ 9) :: rat)"
      using q(2) by (metis of_int_1 of_int_add of_int_le_iff zless_imp_add1_zle le_less)
    then show ?thesis using f64_frac [of c] f64_nonneg [OF frac_bounds(1) [of d]] by linarith
  qed
  moreover have "0 \<le> of_int (c div 10 ^ 9) + f64 (of_int (c mod 10 ^ 9) / 10 ^ 9)"
    using q f64_nonneg [OF frac_bounds(1)] by simp
  ultimately show ?thesis using assms by (simp add: Seconds_eq f64_mono)
qed

text \<open>One rounding step enlarges a non-negative number by at most this factor.\<close>

definition eps :: rat where
  "eps = 1 / 2 ^ 53"

abbreviation ulps :: "nat \<Rightarrow> rat" where
  "ulps n \<equiv> (1 + eps) ^ n"

lemma eps_nonneg [simp]: "0 \<le> eps"
  by (simp add: eps_def)

lemma f64_up: "0 \<le> x \<Longrightarrow> f64 x \<le> x * ulps 1"
  using abs_le_D1 [OF f64_error [of x]] by (simp add: distrib_left eps_def)

lemma Seconds_up:
  assumes "0 \<le> d" "d < 2 ^ 63"
  shows "Seconds d \<le> of_int d / 10 ^ 9 * ulps 2"
proof -
  let ?a = "of_int (d div 10 ^ 9) :: rat" and ?b = "of_int (d mod 10 ^ 9) / (10 ^ 9 :: rat)"
  have a: "0 \<le> ?a" using assms(1) by (simp add: pos_imp_zdiv_nonneg_iff)
  have "?a * 1 \<le> ?a * ulps 1" using a by (intro mult_left_mono) simp_all
  then have s: "?a + f64 ?b \<le> (?a + ?b) * ulps 1"
    unfolding distrib_right using f64_up [OF frac_bounds(1) [of d]] by (intro add_mono) simp_all
  have "Seconds d \<le> (?a + f64 ?b) * ulps 1"
    unfolding Seconds_eq [OF assms] using a f64_nonneg [OF frac_bounds(1) [of d]] by (intro f64_up) simp
  also have "\<dots> \<le> (?a + ?b) * ulps 1 * ulps 1" using s by (intro mult_right_mono) simp_all
  finally show ?thesis unfolding whole_frac [of d] by (simp only: power2_eq_square power_one_right mult.assoc)
qed


section \<open>The invariant\<close>

text \<open>A sensible configuration: the capacity is a number of tokens a \<open>float64\<close> holds.\<close>

definition rl_cfg_ok :: "Bucket \<Rightarrow> bool" where
  "rl_cfg_ok b \<longleftrightarrow> 1 \<le> capacity b \<and> f64 (capacity b) = capacity b \<and> 0 \<le> refillPerSecond b \<and>
     0 \<le> idleTimeout b \<and> idleTimeout b < 2 ^ 63 - 1 \<and>
     capacity b \<le> f64 (Seconds (idleTimeout b) * refillPerSecond b)"

definition rl_ok :: "int \<Rightarrow> Bucket \<Rightarrow> bool" where
  "rl_ok t b \<longleftrightarrow> rl_cfg_ok b \<and>
     (\<forall>k e. buckets b k = Some e \<longrightarrow> 0 \<le> tokens e \<and> tokens e \<le> capacity b \<and> updated e \<le> t)"

lemma rl_ok_later: "rl_ok t b \<Longrightarrow> t \<le> t' \<Longrightarrow> rl_ok t' b"
  unfolding rl_ok_def by (meson order_trans)

lemma rl_okD:
  assumes "rl_ok t b" and "buckets b k = Some e" and "t \<le> now"
  shows "0 \<le> tokens e" "tokens e \<le> capacity b" "0 \<le> Sub now (updated e)" "Sub now (updated e) \<le> now - updated e"
    "Sub now (updated e) < 2 ^ 63"
  using assms Sub_nonneg [of "updated e" now] unfolding rl_ok_def by (auto dest: order_trans)

lemma refill_bounds:
  assumes "rl_ok t b" and "buckets b k = Some e" and "t \<le> now"
  shows "0 \<le> refill b now e" "refill b now e \<le> capacity b"
proof -
  note D = rl_okD [OF assms]
  have "0 \<le> refillPerSecond b" "0 \<le> capacity b" using assms(1) by (simp_all add: rl_ok_def rl_cfg_ok_def)
  then show "0 \<le> refill b now e" "refill b now e \<le> capacity b"
    using D Seconds_nonneg [OF D(3,5)] by (simp_all add: refill_def Let_def f64_nonneg)
qed

text \<open>The tokens a call of \<open>key\<close> at \<open>now\<close> finds.\<close>

definition found :: "int \<Rightarrow> string \<Rightarrow> Bucket \<Rightarrow> rat" where
  "found now key b = (case buckets b key of None \<Rightarrow> capacity b | Some e \<Rightarrow> refill b now e)"

lemma found_bounds:
  assumes "rl_ok t b" and "t \<le> now"
  shows "0 \<le> found now k b" "found now k b \<le> capacity b"
  using refill_bounds [OF assms(1) _ assms(2)] assms(1)
  by (auto simp: found_def rl_ok_def rl_cfg_ok_def split: option.splits)

lemma Allow_eq: "Allow now key b =
  (1 \<le> found now key b, b\<lparr>buckets := (buckets b)(key \<mapsto>
     \<lparr>tokens = (if 1 \<le> found now key b then f64 (found now key b - 1) else found now key b), updated = now\<rparr>)\<rparr>)"
  by (simp add: Allow_def found_def Let_def)

lemma f64_le_cap: "0 \<le> x \<Longrightarrow> x \<le> c \<Longrightarrow> f64 c = c \<Longrightarrow> f64 x \<le> c"
  using f64_mono [of x c] by simp

lemma rl_ok_Allow: "rl_ok t b \<Longrightarrow> t \<le> now \<Longrightarrow> rl_ok now (snd (Allow now key b))"
proof -
  assume ok: "rl_ok t b" and le: "t \<le> now"
  note fb = found_bounds [OF ok le, of key]
  have cap: "f64 (capacity b) = capacity b" using ok by (simp add: rl_ok_def rl_cfg_ok_def)
  have "0 \<le> (if 1 \<le> found now key b then f64 (found now key b - 1) else found now key b)"
    "(if 1 \<le> found now key b then f64 (found now key b - 1) else found now key b) \<le> capacity b"
    using fb f64_le_cap [OF _ _ cap, of "found now key b - 1"] by (auto simp: f64_nonneg)
  then show ?thesis using rl_ok_later [OF ok le] by (auto simp: Allow_eq rl_ok_def rl_cfg_ok_def)
qed

lemma rl_ok_sweep: "rl_ok t b \<Longrightarrow> rl_ok t (sweep_tick now b)"
  by (auto simp: rl_ok_def rl_cfg_ok_def sweep_tick_def split: option.splits if_splits)

lemma rl_ok_step: "rl_ok t b \<Longrightarrow> t \<le> ev_time e \<Longrightarrow> rl_ok (ev_time e) (snd (rl_step e b))"
  using rl_ok_Allow [of t b] rl_ok_sweep [OF rl_ok_later [of t b]] rl_ok_later [of t b]
  by (cases e) (simp_all add: case_prod_beta)

section \<open>Sweeping is not observable\<close>

text \<open>An idle entry would be full again: deleting it changes no answer.\<close>

definition swept :: "int \<Rightarrow> Bucket \<Rightarrow> Bucket \<Rightarrow> bool" where
  "swept t b b' \<longleftrightarrow> capacity b = capacity b' \<and> refillPerSecond b = refillPerSecond b' \<and> idleTimeout b = idleTimeout b' \<and>
     stopped b = stopped b' \<and>
     (\<forall>k. buckets b k = buckets b' k \<or>
        buckets b k = None \<and> (\<exists>e. buckets b' k = Some e \<and> idleTimeout b' < t - updated e))"

lemma idle_full:
  assumes ok: "rl_ok t b" and e: "buckets b k = Some e" and le: "t \<le> now" and idle: "idleTimeout b \<le> now - updated e"
  shows "refill b now e = capacity b"
proof -
  note D = rl_okD [OF ok e le]
  have c: "0 \<le> refillPerSecond b" "0 \<le> idleTimeout b" "idleTimeout b < 2 ^ 63 - 1" "f64 (capacity b) = capacity b"
    "capacity b \<le> f64 (Seconds (idleTimeout b) * refillPerSecond b)" "0 \<le> capacity b"
    using ok by (simp_all add: rl_ok_def rl_cfg_ok_def)
  have "idleTimeout b \<le> Sub now (updated e)" using idle c(2,3) by (auto simp: Sub_def)
  then have "Seconds (idleTimeout b) * refillPerSecond b \<le> Seconds (Sub now (updated e)) * refillPerSecond b"
    using Seconds_mono [OF c(2) _ D(5)] c(1) by (intro mult_right_mono)
  moreover have "0 \<le> Seconds (idleTimeout b) * refillPerSecond b"
    using Seconds_nonneg [OF c(2)] c(1,3) by (intro mult_nonneg_nonneg) simp_all
  ultimately have "capacity b \<le> f64 (Seconds (Sub now (updated e)) * refillPerSecond b)"
    using f64_mono c(5) by (meson order_trans)
  then have "capacity b \<le> tokens e + f64 (Seconds (Sub now (updated e)) * refillPerSecond b)" using D(1) by linarith
  then have "f64 (capacity b) \<le> f64 (tokens e + f64 (Seconds (Sub now (updated e)) * refillPerSecond b))"
    by (intro f64_mono c(6))
  then show ?thesis using c(4) by (simp add: refill_def Let_def)
qed

lemma swept_found:
  assumes "swept t b b'" and "rl_ok t b'" and "t \<le> now"
  shows "found now k b = found now k b'"
proof (cases "buckets b k = buckets b' k")
  case True
  then show ?thesis using assms(1) by (simp add: found_def refill_def swept_def Let_def split: option.splits)
next
  case False
  then obtain e where e: "buckets b k = None" "buckets b' k = Some e" "idleTimeout b' < t - updated e"
    using assms(1) by (auto simp: swept_def)
  then have "refill b' now e = capacity b'" using idle_full [OF assms(2) e(2) assms(3)] assms(3) by simp
  then show ?thesis using e assms(1) by (simp add: found_def swept_def)
qed

lemma swept_Allow:
  assumes "swept t b b'" and "rl_ok t b'" and "t \<le> now"
  shows "fst (Allow now k b) = fst (Allow now k b') \<and> swept now (snd (Allow now k b)) (snd (Allow now k b'))"
  using assms(1,3) swept_found [OF assms, of k] by (fastforce simp: Allow_eq swept_def)

lemma swept_later: "swept t b b' \<Longrightarrow> t \<le> now \<Longrightarrow> swept now b b'"
  unfolding swept_def by (meson diff_right_mono less_le_trans)

lemma swept_tick:
  assumes "swept t b b'" and "rl_ok t b'" and "t \<le> now"
  shows "swept now (sweep_tick now b) b'"
proof -
  note sw = swept_later [OF assms(1,3)]
  have same: "idleTimeout b = idleTimeout b'" and i: "0 \<le> idleTimeout b'"
    using sw assms(2) by (simp_all add: swept_def rl_ok_def rl_cfg_ok_def)
  have gone: "idleTimeout b' < now - updated e" if "idleTimeout b < Sub now (updated e)" for e
    using that same i by (auto simp: Sub_def)
  have "buckets (sweep_tick now b) k = buckets b' k \<or> buckets (sweep_tick now b) k = None \<and>
      (\<exists>e. buckets b' k = Some e \<and> idleTimeout b' < now - updated e)" for k
  proof -
    have "buckets b k = buckets b' k \<or>
        buckets b k = None \<and> (\<exists>e. buckets b' k = Some e \<and> idleTimeout b' < now - updated e)"
      using sw by (simp add: swept_def)
    then show ?thesis using gone by (cases "buckets b' k") (auto simp: sweep_tick_def split: if_splits)
  qed
  then show ?thesis using sw by (simp add: swept_def sweep_tick_def)
qed

lemma rl_run_swept:
  assumes "swept t b b'" and "rl_ok t b'" and "sorted (map ev_time es)" and "\<forall>e \<in> set es. t \<le> ev_time e"
  shows "fst (rl_run es b) = fst (rl_run (filter is_call es) b')"
  using assms
proof (induction es arbitrary: t b b')
  case (Cons e es)
  show ?case
  proof (cases e)
    case (Call k now)
    let ?b = "snd (Allow now k b)" and ?b' = "snd (Allow now k b')"
    from Cons.prems Call have le: "t \<le> now" by simp
    note sw = swept_Allow [OF Cons.prems(1,2) le, of k]
    have "fst (rl_run es ?b) = fst (rl_run (filter is_call es) ?b')"
      using Cons.prems Call sw rl_ok_Allow [OF Cons.prems(2) le] by (intro Cons.IH [of now]) auto
    then show ?thesis using Call sw by (simp add: case_prod_beta)
  next
    case (Tick now)
    from Cons.prems Tick have le: "t \<le> now" by simp
    let ?b = "if stopped b then b else sweep_tick now b"
    have "swept now ?b b'" using swept_later [OF Cons.prems(1) le] swept_tick [OF Cons.prems(1,2) le] by simp
    then have "fst (rl_run es ?b) = fst (rl_run (filter is_call es) b')"
      using Cons.prems Tick rl_ok_later [OF Cons.prems(2) le] by (intro Cons.IH [of now]) auto
    then show ?thesis using Tick by (simp add: case_prod_beta)
  qed
qed simp


section \<open>The rate\<close>

text \<open>
  What a key can spend at time \<open>t\<close>: the tokens left and what has come in since, never more than
  the capacity. The factor covers the roundings of one refill.
\<close>

definition rate :: "Bucket \<Rightarrow> rat" where
  "rate b = refillPerSecond b * (1 + 8 * eps) / 10 ^ 9"

definition level :: "int \<Rightarrow> string \<Rightarrow> Bucket \<Rightarrow> rat" where
  "level t k b =
     (case buckets b k of
        None \<Rightarrow> capacity b
      | Some e \<Rightarrow> min (capacity b) (tokens e + rate b * of_int (t - updated e)))"

lemma ulps_4: "ulps 4 \<le> 1 + 8 * eps"
  by (simp add: eps_def field_simps)

lemma refill_up:
  assumes ok: "rl_ok t b" and e: "buckets b k = Some e" and le: "t \<le> now"
  shows "refill b now e \<le> min (capacity b) (tokens e + rate b * of_int (now - updated e)) + capacity b * eps"
proof -
  note D = rl_okD [OF ok e le]
  have r: "0 \<le> refillPerSecond b" "0 \<le> capacity b" using ok by (simp_all add: rl_ok_def rl_cfg_ok_def)
  let ?d = "Sub now (updated e)"
  have s: "0 \<le> Seconds ?d" "Seconds ?d \<le> of_int ?d / 10 ^ 9 * ulps 2"
    using Seconds_nonneg [OF D(3,5)] Seconds_up [OF D(3,5)] by simp_all
  have "f64 (Seconds ?d * refillPerSecond b) \<le> Seconds ?d * refillPerSecond b * ulps 1"
    using s(1) r(1) by (intro f64_up) simp
  also have "\<dots> \<le> of_int ?d / 10 ^ 9 * ulps 2 * refillPerSecond b * ulps 1"
    using s(2) r(1) by (intro mult_right_mono) simp_all
  finally have p: "f64 (Seconds ?d * refillPerSecond b) \<le> of_int ?d / 10 ^ 9 * refillPerSecond b * ulps 3"
    by (simp add: numeral_eq_Suc mult_ac)
  have "f64 (tokens e + f64 (Seconds ?d * refillPerSecond b)) \<le> (tokens e + f64 (Seconds ?d * refillPerSecond b)) * ulps 1"
    using D(1) s(1) r(1) by (intro f64_up) (simp add: f64_nonneg)
  also have "\<dots> \<le> (tokens e + of_int ?d / 10 ^ 9 * refillPerSecond b * ulps 3) * ulps 1"
    using p by (intro mult_right_mono) simp_all
  also have "\<dots> = tokens e + tokens e * eps + of_int ?d / 10 ^ 9 * refillPerSecond b * ulps 4"
    by (simp add: numeral_eq_Suc distrib_right distrib_left mult_ac)
  also have "\<dots> \<le> tokens e + capacity b * eps + of_int (now - updated e) / 10 ^ 9 * refillPerSecond b * (1 + 8 * eps)"
    using D r ulps_4 by (intro add_mono mult_mono divide_right_mono mult_right_mono) simp_all
  finally have "f64 (tokens e + f64 (Seconds ?d * refillPerSecond b)) \<le>
      tokens e + rate b * of_int (now - updated e) + capacity b * eps"
    by (simp add: rate_def mult_ac)
  moreover have "0 \<le> capacity b * eps" using r(2) by simp
  ultimately show ?thesis unfolding refill_def Let_def by (simp add: min_def)
qed

lemma found_up:
  assumes "rl_ok t b" and "t \<le> now"
  shows "found now k b \<le> level now k b + capacity b * eps"
  using refill_up [OF assms(1) _ assms(2), of k] assms(1)
  by (auto simp: found_def level_def rl_ok_def rl_cfg_ok_def split: option.splits)

text \<open>A call spends one unit of the level, up to two roundings.\<close>

lemma Allow_level:
  assumes "rl_ok t b" and "t \<le> now"
  shows "level now k (snd (Allow now k b)) + (if fst (Allow now k b) then 1 else 0) \<le> level now k b + 2 * (capacity b * eps)"
proof -
  note fb = found_bounds [OF assms, of k] and up = found_up [OF assms, of k]
  have c: "0 \<le> capacity b" using assms(1) by (simp add: rl_ok_def rl_cfg_ok_def)
  have e: "0 \<le> capacity b * eps" using c by simp
  show ?thesis
  proof (cases "1 \<le> found now k b")
    case True
    have "f64 (found now k b - 1) \<le> (found now k b - 1) * ulps 1" using True by (intro f64_up) simp
    also have "\<dots> = found now k b - 1 + (found now k b - 1) * eps" by (simp add: distrib_left)
    also have "(found now k b - 1) * eps \<le> capacity b * eps" using fb(2) by (intro mult_right_mono) simp_all
    finally have "f64 (found now k b - 1) \<le> found now k b - 1 + capacity b * eps" by simp
    moreover have "level now k (snd (Allow now k b)) \<le> f64 (found now k b - 1)" "fst (Allow now k b)"
      using True by (simp_all add: Allow_eq level_def)
    ultimately show ?thesis using up e by simp
  next
    case False
    then have "level now k (snd (Allow now k b)) \<le> found now k b" "\<not> fst (Allow now k b)"
      by (simp_all add: Allow_eq level_def)
    then show ?thesis using up e by simp
  qed
qed

lemma level_other: "k' \<noteq> k \<Longrightarrow> level t k (snd (Allow now k' b)) = level t k b"
  by (simp add: Allow_eq level_def rate_def split: option.splits)

lemma level_later:
  assumes "rl_ok t b" and "t \<le> now"
  shows "level now k b \<le> level t k b + rate b * of_int (now - t)"
proof -
  have r: "0 \<le> rate b" using assms(1) by (simp add: rl_ok_def rl_cfg_ok_def rate_def)
  then have g: "0 \<le> rate b * of_int (now - t)" using assms(2) by simp
  show ?thesis
  proof (cases "buckets b k")
    case (Some e)
    have "rate b * of_int (now - updated e) = rate b * of_int (t - updated e) + rate b * of_int (now - t)"
      by (simp add: algebra_simps)
    then show ?thesis using Some g by (simp add: level_def min_def)
  qed (use g in \<open>simp add: level_def\<close>)
qed


text \<open>How often \<open>k\<close> was allowed in a list of answers, and how often it asked.\<close>

definition allowed :: "string \<Rightarrow> (string \<times> bool) list \<Rightarrow> nat" where
  "allowed k out = length (filter (\<lambda>a. a = (k, True)) out)"

definition asked :: "string \<Rightarrow> (string \<times> bool) list \<Rightarrow> nat" where
  "asked k out = length (filter (\<lambda>a. fst a = k) out)"

lemma Allow_cfg [simp]: "capacity (snd (Allow t k b)) = capacity b" "rate (snd (Allow t k b)) = rate b"
  by (simp_all add: Allow_eq rate_def)

lemma calls_bound:
  assumes "rl_ok t b" and "sorted (map ev_time es)" and "\<forall>e \<in> set es. t \<le> ev_time e \<and> ev_time e \<le> T"
    and "\<forall>e \<in> set es. is_call e" and "t \<le> T"
  shows "of_nat (allowed k (fst (rl_run es b))) \<le>
    level t k b + rate b * of_int (T - t) + of_nat (asked k (fst (rl_run es b))) * (2 * (capacity b * eps))"
  using assms
proof (induction es arbitrary: t b)
  case Nil
  have "0 \<le> level t k b + rate b * of_int (T - t)"
  proof -
    have r: "0 \<le> rate b" "0 \<le> capacity b" using Nil.prems(1) by (simp_all add: rl_ok_def rl_cfg_ok_def rate_def)
    have "0 \<le> level t k b"
      using r Nil.prems(1) by (auto simp: level_def rl_ok_def split: option.splits)
    then show ?thesis using r Nil.prems(5) by simp
  qed
  then show ?case by (simp add: allowed_def asked_def)
next
  case (Cons e es)
  from Cons.prems(4) obtain k' now where e: "e = Call k' now" by (cases e) auto
  let ?b = "snd (Allow now k' b)" and ?d = "2 * (capacity b * eps)"
  from Cons.prems e have le: "t \<le> now" "now \<le> T" by auto
  note ok = rl_ok_Allow [OF Cons.prems(1) le(1), of k']
  have IH: "of_nat (allowed k (fst (rl_run es ?b))) \<le>
      level now k ?b + rate b * of_int (T - now) + of_nat (asked k (fst (rl_run es ?b))) * ?d"
    using Cons.IH [OF ok] Cons.prems e le by auto
  have step: "level now k ?b + (if k' = k \<and> fst (Allow now k' b) then 1 else 0) \<le>
      level now k b + (if k' = k then ?d else 0)"
    using Allow_level [OF Cons.prems(1) le(1), of k] level_other [of k' k now now b] by auto
  have grow: "level now k b \<le> level t k b + rate b * of_int (now - t)" by (rule level_later [OF Cons.prems(1) le(1)])
  have split: "rate b * of_int (T - t) = rate b * of_int (now - t) + rate b * of_int (T - now)" by (simp add: algebra_simps)
  have n: "of_nat (allowed k (fst (rl_run (e # es) b))) =
      (if k' = k \<and> fst (Allow now k' b) then 1 else 0) + (of_nat (allowed k (fst (rl_run es ?b))) :: rat)"
    and m: "of_nat (asked k (fst (rl_run (e # es) b))) * ?d =
      (if k' = k then ?d else 0) + of_nat (asked k (fst (rl_run es ?b))) * ?d"
    by (auto simp: e case_prod_beta allowed_def asked_def distrib_right)
  show ?case unfolding n m split using IH step grow by linarith
qed

section \<open>Properties\<close>

text \<open>
  C18: the sweeper is not observable. Deleting idle buckets changes no answer of the limiter, for any
  sequence of calls of any keys and any sweeps, provided a bucket refills within the idle time.
\<close>

theorem sweep_unobservable:
  assumes "rl_ok t b" and "sorted (map ev_time es)" and "\<forall>e \<in> set es. t \<le> ev_time e"
  shows "fst (rl_run es b) = fst (rl_run (filter is_call es) b)"
  by (rule rl_run_swept [OF _ assms]) (simp add: swept_def)

text \<open>The limiter of the server: a burst of 60 and 60 per second, swept after ten minutes.\<close>

definition server_bucket :: Bucket where
  "server_bucket = rl_New \<lparr>rc_Capacity = 60, rc_RefillPerSecond = 60, rc_IdleTimeout = 0\<rparr>"

lemma server_bucket_ok: "rl_ok t server_bucket"
proof -
  have s: "Seconds (600 * 10 ^ 9) = 600"
    using f64_int [of 600] Seconds_eq [of "600 * 10 ^ 9"] by simp
  have "f64 (Seconds (600 * 10 ^ 9) * 60) = 36000" unfolding s using f64_int [of 36000] by simp
  moreover have "f64 60 = 60" using f64_int [of 60] by simp
  ultimately show ?thesis by (simp add: rl_ok_def rl_cfg_ok_def server_bucket_def rl_New_def)
qed

theorem sweep_unobservable_witness:
  "fst (rl_run [Call ''a'' 5, Tick (700 * 10 ^ 9), Call ''a'' (800 * 10 ^ 9)] server_bucket) =
   fst (rl_run [Call ''a'' 5, Call ''a'' (800 * 10 ^ 9)] server_bucket)"
  using sweep_unobservable [OF server_bucket_ok [of 0], of "[Call ''a'' 5, Tick (700 * 10 ^ 9), Call ''a'' (800 * 10 ^ 9)]"]
  by simp

text \<open>
  C17: the rate limit, rounding included. Over any sequence of calls and sweeps from time \<open>t\<close> to time
  \<open>T\<close>, a key is allowed at most the capacity plus the refill of that time; the roundings add less
  than one part in \<open>2 ^ 50\<close> of the refill and two parts in \<open>2 ^ 53\<close> of the capacity per call made.
\<close>

theorem rate_bound:
  assumes "rl_ok t b" and "sorted (map ev_time es)" and "\<forall>e \<in> set es. t \<le> ev_time e \<and> ev_time e \<le> T" and "t \<le> T"
  shows "of_nat (allowed k (fst (rl_run es b))) \<le>
    capacity b + refillPerSecond b * (1 + 1 / 2 ^ 50) * (of_int (T - t) / 10 ^ 9) +
    of_nat (asked k (fst (rl_run es b))) * (2 / 2 ^ 53) * capacity b"
proof -
  let ?es = "filter is_call es"
  have same: "fst (rl_run es b) = fst (rl_run ?es b)"
    using assms(1,2,3) by (intro rl_run_swept) (auto simp: swept_def)
  have "sorted (map ev_time ?es)" using assms(2) by (rule sorted_filter)
  then have "of_nat (allowed k (fst (rl_run es b))) \<le>
      level t k b + rate b * of_int (T - t) + of_nat (asked k (fst (rl_run es b))) * (2 * (capacity b * eps))"
    unfolding same using assms by (intro calls_bound) auto
  moreover have "level t k b \<le> capacity b" by (simp add: level_def split: option.splits)
  moreover have "rate b * of_int (T - t) = refillPerSecond b * (1 + 1 / 2 ^ 50) * (of_int (T - t) / 10 ^ 9)"
    by (simp add: rate_def eps_def)
  moreover have "of_nat (asked k (fst (rl_run es b))) * (2 * (capacity b * eps)) =
      of_nat (asked k (fst (rl_run es b))) * (2 / 2 ^ 53) * capacity b" by (simp add: eps_def)
  ultimately show ?thesis by linarith
qed

theorem rate_bound_witness:
  "allowed ''a'' (fst (rl_run (replicate 100 (Call ''a'' 0)) server_bucket)) \<le> 60"
proof -
  let ?es = "replicate 100 (Call ''a'' 0)"
  have c: "capacity server_bucket = 60" by (simp add: server_bucket_def rl_New_def)
  have m: "asked ''a'' (fst (rl_run (replicate n (Call ''a'' 0)) b)) = n" for n b
    by (induction n arbitrary: b) (simp_all add: asked_def case_prod_beta)
  have "of_nat (allowed ''a'' (fst (rl_run ?es server_bucket))) \<le> (60 :: rat) + 100 * (2 / 2 ^ 53) * 60"
    using rate_bound [OF server_bucket_ok [of 0], of ?es 0 "''a''"] by (simp add: c m sorted_replicate)
  also have "\<dots> < 61" by simp
  finally have "of_nat (allowed ''a'' (fst (rl_run ?es server_bucket))) < (of_nat 61 :: rat)" by simp
  then show ?thesis unfolding of_nat_less_iff by simp
qed

text \<open>
  The limiter recovers. A key that made no call for a second is allowed again, and a key never
  seen before is allowed, whenever the refill rate is at least one per second.
\<close>

theorem idle_key_allowed:
  assumes "rl_ok t b" and "1 \<le> refillPerSecond b" and "t \<le> now"
    and "\<forall>e. buckets b k = Some e \<longrightarrow> updated e + 10 ^ 9 \<le> now"
  shows "fst (Allow now k b)"
proof (cases "buckets b k")
  case None
  then show ?thesis using assms(1) by (simp add: Allow_eq found_def rl_ok_def rl_cfg_ok_def)
next
  case (Some e)
  note D = rl_okD [OF assms(1) Some assms(3)]
  have "10 ^ 9 \<le> Sub now (updated e)" using assms(4) Some by (auto simp: Sub_def)
  then have "Seconds (10 ^ 9) \<le> Seconds (Sub now (updated e))" by (intro Seconds_mono D(5)) simp_all
  moreover have "Seconds (10 ^ 9) = 1" using Seconds_eq [of "10 ^ 9"] by simp
  ultimately have "1 * 1 \<le> Seconds (Sub now (updated e)) * refillPerSecond b" using assms(2) by (intro mult_mono) simp_all
  then have "1 \<le> f64 (Seconds (Sub now (updated e)) * refillPerSecond b)" using f64_mono [of 1] by simp
  then have "1 \<le> f64 (tokens e + f64 (Seconds (Sub now (updated e)) * refillPerSecond b))"
    using D(1) f64_mono [of 1 "tokens e + f64 (Seconds (Sub now (updated e)) * refillPerSecond b)"] by simp
  then show ?thesis
    using assms(1) Some by (simp add: Allow_eq found_def refill_def Let_def rl_ok_def rl_cfg_ok_def)
qed

theorem idle_key_allowed_witness: "fst (Allow (10 ^ 9 + 5) ''a'' (snd (Allow 5 ''a'' server_bucket)))"
  by (rule idle_key_allowed [OF rl_ok_Allow [OF server_bucket_ok [of 5], of 5]])
    (simp_all add: Allow_eq server_bucket_def rl_New_def)

end
