(* ===== verification/Interceptors.thy ===== *)
theory Interceptors
  imports Auth Ratelimit Core
begin

text \<open>
  The gRPC interceptors (\<open>internal/interceptors/interceptors.go\<close>). An interceptor takes the
  full method name and the next handler. A handler maps a context and the state to a response or
  an error and the new state; it may also panic or wait. The state holds the rate limiter and the
  log besides the part \<open>'s\<close> the procedures work on. What a call reads from the clock is in the
  argument \<open>k\<close>: the limiter's reading.
\<close>

section \<open>Handlers and state\<close>

record logline =
  l_method :: string
  l_subject :: string
  l_role :: string
  l_code :: "gcode option" \<comment> \<open>only on errors, with level Warn instead of Info\<close>

record 's frontend =
  fe_limiter :: Bucket
  fe_log :: "logline list"
  fe_inner :: 's

type_synonym ('a, 's) call = "Ctx \<Rightarrow> 's frontend \<Rightarrow> ((err + 'a) \<times> 's frontend) outcome option"

section \<open>Errors\<close>

text \<open>
  \<open>errors.As\<close> for \<open>*errors.Error\<close>, and \<open>status.FromError\<close>: the code of the status error in the
  chain, if there is one. A nil error does not occur here.
\<close>

fun as_lerror :: "err \<Rightarrow> (lcode \<times> string) option" where
  "as_lerror (LError c s) = Some (c, s)"
| "as_lerror (Wrap s e) = as_lerror e"
| "as_lerror _ = None"

fun status_FromError :: "err \<Rightarrow> gcode option" where
  "status_FromError (StatusError c s) = Some c"
| "status_FromError (Wrap s e) = status_FromError e"
| "status_FromError _ = None"

definition status_Code :: "err \<Rightarrow> gcode" where
  "status_Code e = (case status_FromError e of Some c \<Rightarrow> c | None \<Rightarrow> Unknown)"

definition codeFor :: "lcode \<Rightarrow> gcode" where
  "codeFor c =
     (case c of
        CodeNoKnownConnection \<Rightarrow> NotFound
      | CodePersonNotFound \<Rightarrow> NotFound
      | CodeRelationshipNotFound \<Rightarrow> NotFound
      | CodeSourceNotFound \<Rightarrow> NotFound
      | CodeProposalNotFound \<Rightarrow> NotFound
      | CodeVersionNotFound \<Rightarrow> NotFound
      | CodeInvalidArgument \<Rightarrow> InvalidArgument
      | CodeForbiddenRelationship \<Rightarrow> InvalidArgument
      | CodeInvalidTransition \<Rightarrow> FailedPrecondition
      | CodeImmutableTerminalProposal \<Rightarrow> FailedPrecondition
      | CodeCycleDetected \<Rightarrow> FailedPrecondition
      | CodeFabricationAttempt \<Rightarrow> FailedPrecondition
      | CodeOther _ \<Rightarrow> Unknown)"

text \<open>What \<open>ErrorInterceptor\<close> makes of a handler's error.\<close>

definition map_error :: "(err \<Rightarrow> string) \<Rightarrow> err \<Rightarrow> err" where
  "map_error Error e =
     (case as_lerror e of
        None \<Rightarrow> e
      | Some (c, s) \<Rightarrow>
          if status_FromError e \<noteq> None \<and> status_Code e \<noteq> Unknown then e
          else StatusError (codeFor c) (Error (LError c s)))"

definition ErrorInterceptor :: "(err \<Rightarrow> string) \<Rightarrow> string \<Rightarrow> ('a, 's) call \<Rightarrow> ('a, 's) call" where
  "ErrorInterceptor Error method handler ctx s =
     map_option (map_outcome (map_prod (map_sum (map_error Error) id) id)) (handler ctx s)"

section \<open>Authentication and roles\<close>

fun first_bearer :: "string list \<Rightarrow> string" where
  "first_bearer [] = []"
| "first_bearer (v # vs) =
     (if prefix ''Bearer '' v then TrimSpace (drop (length ''Bearer '') v) else first_bearer vs)"

definition bearerToken :: "(string \<Rightarrow> string list) \<Rightarrow> string" where
  "bearerToken md = first_bearer (md ''authorization'')"

definition AuthInterceptor ::
  "(err \<Rightarrow> string) \<Rightarrow> ('prov, 'tok) oidc \<Rightarrow> 'prov Verifier option \<Rightarrow> (string \<Rightarrow> bool) \<Rightarrow> string \<Rightarrow> ('a, 's) call \<Rightarrow> ('a, 's) call" where
  "AuthInterceptor Error X verifier noAuth method handler ctx s =
     (if noAuth method then handler ctx s
      else
        (case verifier of
           None \<Rightarrow>
             handler (WithIdentity ctx \<lparr>id_Subject = ''anonymous'', id_Issuer = [], id_Role = auth_RoleCurator,
                                         id_Raw = Map.empty\<rparr>) s
         | Some v \<Rightarrow>
             (let token = bearerToken (ctx_md ctx) in
              if token = [] then Some (Ret (Inl (StatusError Unauthenticated ''missing bearer token''), s))
              else
                (case VerifyToken X v token of
                   Inl e \<Rightarrow> Some (Ret (Inl (StatusError Unauthenticated (''invalid token: '' @ Error e)), s))
                 | Inr i \<Rightarrow>
                     if id_Role i = auth_RoleNone
                     then Some (Ret (Inl (StatusError PermissionDenied ''no Linea role granted''), s))
                     else handler (WithIdentity ctx i) s))))"

definition RoleInterceptor :: "(string \<rightharpoonup> auth_Role) \<Rightarrow> string \<Rightarrow> ('a, 's) call \<Rightarrow> ('a, 's) call" where
  "RoleInterceptor roles method handler ctx s =
     (case roles method of
        None \<Rightarrow> handler ctx s
      | Some mn \<Rightarrow>
          (let i = IdentityOf ctx in
           if id_Role i < mn
           then Some (Ret (Inl (StatusError PermissionDenied
                  (''role '' @ auth_Role_String mn @ '' required, have '' @ auth_Role_String (id_Role i))), s))
           else handler ctx s))"

section \<open>Logging\<close>

text \<open>One line after the call; the context is the interceptor's own, so an identity attached by an inner interceptor is not in it.\<close>

definition log_line :: "string \<Rightarrow> Ctx \<Rightarrow> err + 'a \<Rightarrow> logline" where
  "log_line method ctx r =
     (let i = IdentityOf ctx in
      \<lparr>l_method = method, l_subject = id_Subject i, l_role = auth_Role_String (id_Role i),
       l_code = (case r of Inl e \<Rightarrow> Some (status_Code e) | Inr _ \<Rightarrow> None)\<rparr>)"

definition LoggingInterceptor :: "string \<Rightarrow> ('a, 's) call \<Rightarrow> ('a, 's) call" where
  "LoggingInterceptor method handler ctx s =
     map_option (map_outcome (\<lambda>(r, s'). (r, s'\<lparr>fe_log := fe_log s' @ [log_line method ctx r]\<rparr>))) (handler ctx s)"

section \<open>Rate limiting\<close>

definition SubjectOrPeerKey :: "Ctx \<Rightarrow> string" where
  "SubjectOrPeerKey ctx =
     (if id_Subject (IdentityOf ctx) \<noteq> [] then ''u:'' @ id_Subject (IdentityOf ctx)
      else (case ctx_peer ctx of Some a \<Rightarrow> ''ip:'' @ a | None \<Rightarrow> []))"

definition RateLimitInterceptor :: "int \<Rightarrow> (Ctx \<Rightarrow> string) \<Rightarrow> string \<Rightarrow> ('a, 's) call \<Rightarrow> ('a, 's) call" where
  "RateLimitInterceptor now keyFn method handler ctx s =
     (let key = keyFn ctx in
      if key = [] then handler ctx s
      else
        (case Allow now key (fe_limiter s) of
           (False, l) \<Rightarrow> Some (Ret (Inl (StatusError ResourceExhausted ''rate limit exceeded''), s\<lparr>fe_limiter := l\<rparr>))
         | (True, l) \<Rightarrow> handler ctx (s\<lparr>fe_limiter := l\<rparr>)))"


section \<open>What passes each interceptor\<close>

lemma as_lerror_no_status: "as_lerror e = Some x \<Longrightarrow> status_FromError e = None"
  by (induction e) auto

lemma map_error_eq:
  "map_error Error e = (case as_lerror e of None \<Rightarrow> e | Some (c, t) \<Rightarrow> StatusError (codeFor c) (Error (LError c t)))"
  using as_lerror_no_status [of e] by (auto simp: map_error_def split: option.splits)

lemma map_outcome_Ret: "map_outcome f z = Ret y \<longleftrightarrow> (\<exists>p. z = Ret p \<and> y = f p)"
  by (cases z) auto

lemma map_handled_Ret:
  "map_option (map_outcome f) h = Some (Ret y) \<longleftrightarrow> (\<exists>p. h = Some (Ret p) \<and> y = f p)"
proof (cases h)
  case (Some out)
  then show ?thesis by (cases out) auto
qed simp

lemma ErrorInterceptor_Inr: "ErrorInterceptor Error m h ctx s = Some (Ret (Inr x, s')) \<longleftrightarrow> h ctx s = Some (Ret (Inr x, s'))"
proof -
  have "(Inr x, s') = map_prod (map_sum (map_error Error) id) id p \<longleftrightarrow> p = (Inr x, s')" for p :: "(err + 'a) \<times> 'b frontend"
    by (cases p; cases "fst p") auto
  then show ?thesis unfolding ErrorInterceptor_def map_handled_Ret by simp
qed

lemma ErrorInterceptor_state:
  "ErrorInterceptor Error m h ctx s = Some (Ret (r, s')) \<Longrightarrow> \<exists>r0. h ctx s = Some (Ret (r0, s'))"
  unfolding ErrorInterceptor_def map_handled_Ret by auto

lemma LoggingInterceptor_Ret:
  "LoggingInterceptor m h ctx s = Some (Ret (r, s')) \<longleftrightarrow>
     (\<exists>s1. h ctx s = Some (Ret (r, s1)) \<and> s' = s1\<lparr>fe_log := fe_log s1 @ [log_line m ctx r]\<rparr>)"
  unfolding LoggingInterceptor_def map_handled_Ret by auto

lemma AuthInterceptor_Some:
  assumes "AuthInterceptor Error X (Some v) noAuth m h ctx s = Some (Ret (r, s'))" and "\<not> noAuth m"
  shows "(\<exists>c t. r = Inl (StatusError c t) \<and> s' = s) \<or>
    (\<exists>i. bearerToken (ctx_md ctx) \<noteq> [] \<and> VerifyToken X v (bearerToken (ctx_md ctx)) = Inr i \<and> id_Role i \<noteq> auth_RoleNone \<and>
       h (WithIdentity ctx i) s = Some (Ret (r, s')))"
  using assms by (auto simp: AuthInterceptor_def Let_def split: if_splits sum.splits)

lemma RateLimitInterceptor_Ret:
  assumes "RateLimitInterceptor now keyFn m h ctx s = Some (Ret (r, s'))"
  shows "\<exists>s1. fe_inner s1 = fe_inner s \<and> fe_log s1 = fe_log s \<and>
    (fe_limiter s1 = fe_limiter s \<or> fe_limiter s1 = snd (Allow now (keyFn ctx) (fe_limiter s))) \<and>
    (r = Inl (StatusError ResourceExhausted ''rate limit exceeded'') \<and> s' = s1 \<or> h ctx s1 = Some (Ret (r, s')))"
proof (cases "keyFn ctx = []")
  case True
  with assms show ?thesis by (intro exI [of _ s]) (simp add: RateLimitInterceptor_def)
next
  case False
  obtain ok l where a: "Allow now (keyFn ctx) (fe_limiter s) = (ok, l)" by (cases "Allow now (keyFn ctx) (fe_limiter s)")
  show ?thesis
    by (rule exI [of _ "s\<lparr>fe_limiter := l\<rparr>"]) (use assms False a in \<open>auto simp: RateLimitInterceptor_def split: bool.splits\<close>)
qed

lemma RoleInterceptor_Ret:
  assumes "RoleInterceptor roles m h ctx s = Some (Ret (r, s'))"
  shows "(\<exists>c t. r = Inl (StatusError c t) \<and> s' = s) \<or>
    (\<forall>mn. roles m = Some mn \<longrightarrow> mn \<le> id_Role (IdentityOf ctx)) \<and> h ctx s = Some (Ret (r, s'))"
  using assms by (auto simp: RoleInterceptor_def Let_def not_less split: option.splits if_splits)

section \<open>Properties\<close>

text \<open>
  Error translation. Behind \<open>ErrorInterceptor\<close> a response stays as it is, an error that is or
  wraps an error of the graph library becomes the status of its code with the library's message,
  and every other error passes unchanged; the code is \<open>Unknown\<close> only for codes the server does not
  name. The state is the handler's.
\<close>

theorem error_translation:
  assumes "handler ctx s = Some (Ret (r, s'))"
  shows "ErrorInterceptor Error m handler ctx s =
      Some (Ret (case r of
                   Inr x \<Rightarrow> Inr x
                 | Inl e \<Rightarrow> Inl (case as_lerror e of None \<Rightarrow> e | Some (c, t) \<Rightarrow> StatusError (codeFor c) (Error (LError c t))), s')) \<and>
    (codeFor c = Unknown \<longleftrightarrow> (\<exists>t. c = CodeOther t))"
  using assms by (auto simp: ErrorInterceptor_def map_error_eq codeFor_def split: sum.splits lcode.splits)

definition sim_ctx :: Ctx where
  "sim_ctx = \<lparr>ctx_Identity = None, ctx_md = (\<lambda>k. if k = ''authorization'' then [''Bearer good''] else []), ctx_peer = Some ''10.0.0.1''\<rparr>"

definition sim_frontend :: "'s \<Rightarrow> 's frontend" where
  "sim_frontend inner = \<lparr>fe_limiter = server_bucket, fe_log = [], fe_inner = inner\<rparr>"

theorem error_translation_witness:
  "ErrorInterceptor (\<lambda>_. ''message'') ''m'' (\<lambda>ctx s. Some (Ret (Inl (Wrap ''ctx'' (LError CodeProposalNotFound ''p1'')), s)))
     sim_ctx (sim_frontend ()) = Some (Ret (Inl (StatusError NotFound ''message'') :: err + unit, sim_frontend ()))"
  using error_translation [of "\<lambda>ctx s. Some (Ret (Inl (Wrap ''ctx'' (LError CodeProposalNotFound ''p1'')) :: err + unit, s))"
      sim_ctx "sim_frontend ()" _ _ "\<lambda>_. ''message''" "''m''" CodeProposalNotFound]
  by (simp add: codeFor_def)

end
