(* ===== verification/Gateway.thy ===== *)
theory Gateway
  imports Dispatch Interceptors
begin

text \<open>
  The REST gateway (\<open>gen/go/linea/v1/*.pb.gw.go\<close>): for each procedure the URL pattern, the function
  that builds the call from an HTTP request, and the registration of the handlers with the
  multiplexer. The runtime library of the gateway (multiplexer, JSON decoding, query and path
  parameters, contexts) is a parameter; what the handlers rely on is the locale \<open>gateway_lib\<close>.
  A request function returns the call it makes through its client, or the error it answers.
\<close>

section \<open>Method names\<close>

fun FullMethod :: "rpc \<Rightarrow> string" where
  "FullMethod Server_Version = ''/linea.v1.Server/Version''"
| "FullMethod (Persons_GetPerson r) = ''/linea.v1.Persons/GetPerson''"
| "FullMethod (Persons_ListPersons r) = ''/linea.v1.Persons/ListPersons''"
| "FullMethod (Relationships_GetRelationship r) = ''/linea.v1.Relationships/GetRelationship''"
| "FullMethod (Relationships_ListRelationships r) = ''/linea.v1.Relationships/ListRelationships''"
| "FullMethod (Sources_GetSource r) = ''/linea.v1.Sources/GetSource''"
| "FullMethod (Sources_ListSources r) = ''/linea.v1.Sources/ListSources''"
| "FullMethod (Proposals_GetProposal r) = ''/linea.v1.Proposals/GetProposal''"
| "FullMethod (Proposals_ListProposals r) = ''/linea.v1.Proposals/ListProposals''"
| "FullMethod (Proposals_CreateProposal r) = ''/linea.v1.Proposals/CreateProposal''"
| "FullMethod (Proposals_Submit r) = ''/linea.v1.Proposals/Submit''"
| "FullMethod (Proposals_Withdraw r) = ''/linea.v1.Proposals/Withdraw''"
| "FullMethod (Proposals_Claim r) = ''/linea.v1.Proposals/Claim''"
| "FullMethod (Proposals_Accept r) = ''/linea.v1.Proposals/Accept''"
| "FullMethod (Proposals_Reject r) = ''/linea.v1.Proposals/Reject''"
| "FullMethod (Proposals_BulkReject r) = ''/linea.v1.Proposals/BulkReject''"
| "FullMethod (Queries_FindPaths r) = ''/linea.v1.Queries/FindPaths''"
| "FullMethod (Queries_NKCA r) = ''/linea.v1.Queries/NKCA''"
| "FullMethod (Genealogies_CreateGenealogy r) = ''/linea.v1.Genealogies/CreateGenealogy''"
| "FullMethod (Genealogies_ListGenealogies r) = ''/linea.v1.Genealogies/ListGenealogies''"
| "FullMethod (Genealogies_GetGenealogy r) = ''/linea.v1.Genealogies/GetGenealogy''"
| "FullMethod (Genealogies_UpdateVisibility r) = ''/linea.v1.Genealogies/UpdateVisibility''"
| "FullMethod (Genealogies_DeleteGenealogy r) = ''/linea.v1.Genealogies/DeleteGenealogy''"
| "FullMethod (Genealogies_UpsertMembership r) = ''/linea.v1.Genealogies/UpsertMembership''"
| "FullMethod (Genealogies_RemoveMember r) = ''/linea.v1.Genealogies/RemoveMember''"
| "FullMethod (Genealogies_LeaveGenealogy r) = ''/linea.v1.Genealogies/LeaveGenealogy''"
| "FullMethod (Genealogies_ListMembers r) = ''/linea.v1.Genealogies/ListMembers''"
| "FullMethod (Genealogies_BanUser r) = ''/linea.v1.Genealogies/BanUser''"
| "FullMethod (Genealogies_UnbanUser r) = ''/linea.v1.Genealogies/UnbanUser''"

section \<open>The runtime library\<close>

type_synonym pathParams = "string \<rightharpoonup> string"
type_synonym form = "(string \<times> string list) list"

record http_Request =
  h_Method :: string
  h_Path :: string
  h_Header :: "(string \<times> string list) list"
  h_Body :: string

text \<open>A URL pattern as the program of the pattern matcher, and a filter of query parameters.\<close>

record Pattern =
  p_ops :: "nat list"
  p_pool :: "string list"
  p_verb :: string

record DoubleArray =
  Encoding :: "(string \<times> nat) list"
  Base :: "nat list"
  Check :: "nat list"

text \<open>
  What the library does with messages of one type: decoding a body into a message (an error, if
  any, and the message as it is then), setting a field named by a path, and setting fields from
  the query except those of a filter.
\<close>

record 'm codec =
  Decode :: "string \<Rightarrow> 'm \<Rightarrow> err option \<times> 'm"
  PopulateFieldFromPath :: "'m \<Rightarrow> string \<Rightarrow> string \<Rightarrow> err + 'm"
  PopulateQueryParameters :: "'m \<Rightarrow> form \<Rightarrow> DoubleArray \<Rightarrow> err + 'm"

record runtime =
  rt_String :: "string \<Rightarrow> err + string"
  rt_ParseForm :: "http_Request \<Rightarrow> err + form"
  rt_Error :: "err \<Rightarrow> string" \<comment> \<open>the text of an error\<close>
  rt_AnnotateContext :: "http_Request \<Rightarrow> string \<Rightarrow> err + Ctx" \<comment> \<open>the context of a call over a connection\<close>
  rt_AnnotateIncomingContext :: "http_Request \<Rightarrow> string \<Rightarrow> err + Ctx" \<comment> \<open>the context of a call in process\<close>
  rt_Match :: "(string \<times> Pattern) list \<Rightarrow> http_Request \<Rightarrow> (nat \<times> pathParams) option"

section \<open>The steps of a request function\<close>

definition io_EOF :: err where
  "io_EOF = ErrExt ''EOF''"

definition decodeBody :: "runtime \<Rightarrow> 'm codec \<Rightarrow> http_Request \<Rightarrow> 'm \<Rightarrow> err + 'm" where
  "decodeBody rt L req m =
     (case Decode L (h_Body req) m of
        (Some e, m') \<Rightarrow> if errors_Is e io_EOF then Inr m' else Inl (StatusError InvalidArgument (rt_Error rt e))
      | (None, m') \<Rightarrow> Inr m')"

definition missing :: "string \<Rightarrow> err" where
  "missing name = StatusError InvalidArgument (''missing parameter '' @ name)"

definition mismatch :: "runtime \<Rightarrow> string \<Rightarrow> err \<Rightarrow> err" where
  "mismatch rt name e = StatusError InvalidArgument (''type mismatch, parameter: '' @ name @ '', error: '' @ rt_Error rt e)"

definition pathString :: "runtime \<Rightarrow> pathParams \<Rightarrow> string \<Rightarrow> err + string" where
  "pathString rt pathParams name =
     (case pathParams name of
        None \<Rightarrow> Inl (missing name)
      | Some val \<Rightarrow> (case rt_String rt val of Inl e \<Rightarrow> Inl (mismatch rt name e) | Inr v \<Rightarrow> Inr v))"

definition pathField :: "runtime \<Rightarrow> 'm codec \<Rightarrow> pathParams \<Rightarrow> string \<Rightarrow> 'm \<Rightarrow> err + 'm" where
  "pathField rt L pathParams name m =
     (case pathParams name of
        None \<Rightarrow> Inl (missing name)
      | Some val \<Rightarrow> (case PopulateFieldFromPath L m name val of Inl e \<Rightarrow> Inl (mismatch rt name e) | Inr m' \<Rightarrow> Inr m'))"

definition queryParameters :: "runtime \<Rightarrow> 'm codec \<Rightarrow> http_Request \<Rightarrow> DoubleArray \<Rightarrow> 'm \<Rightarrow> err + 'm" where
  "queryParameters rt L req fl m =
     (case rt_ParseForm rt req of
        Inl e \<Rightarrow> Inl (StatusError InvalidArgument (rt_Error rt e))
      | Inr f \<Rightarrow>
          (case PopulateQueryParameters L m f fl of
             Inl e \<Rightarrow> Inl (StatusError InvalidArgument (rt_Error rt e))
           | Inr m' \<Rightarrow> Inr m'))"

section \<open>Empty messages\<close>

definition GetPersonRequest_zero :: pb_GetPersonRequest where
  "GetPersonRequest_zero =
     \<lparr>GetPersonRequest_GenealogyId = [], GetPersonRequest_Id = None\<rparr>"

definition ListPersonsRequest_zero :: pb_ListPersonsRequest where
  "ListPersonsRequest_zero =
     \<lparr>ListPersonsRequest_GenealogyId = [], ListPersonsRequest_PageSize = 0,
      ListPersonsRequest_PageToken = []\<rparr>"

definition GetRelationshipRequest_zero :: pb_GetRelationshipRequest where
  "GetRelationshipRequest_zero =
     \<lparr>GetRelationshipRequest_GenealogyId = [], GetRelationshipRequest_Id = None\<rparr>"

definition ListRelationshipsRequest_zero :: pb_ListRelationshipsRequest where
  "ListRelationshipsRequest_zero =
     \<lparr>ListRelationshipsRequest_GenealogyId = [], ListRelationshipsRequest_PageSize = 0,
      ListRelationshipsRequest_PageToken = []\<rparr>"

definition GetSourceRequest_zero :: pb_GetSourceRequest where
  "GetSourceRequest_zero =
     \<lparr>GetSourceRequest_GenealogyId = [], GetSourceRequest_Id = None\<rparr>"

definition ListSourcesRequest_zero :: pb_ListSourcesRequest where
  "ListSourcesRequest_zero =
     \<lparr>ListSourcesRequest_GenealogyId = [], ListSourcesRequest_PageSize = 0,
      ListSourcesRequest_PageToken = []\<rparr>"

definition GetProposalRequest_zero :: pb_GetProposalRequest where
  "GetProposalRequest_zero =
     \<lparr>GetProposalRequest_GenealogyId = [], GetProposalRequest_Id = None\<rparr>"

definition ListProposalsRequest_zero :: pb_ListProposalsRequest where
  "ListProposalsRequest_zero =
     \<lparr>ListProposalsRequest_GenealogyId = [], ListProposalsRequest_PageSize = 0,
      ListProposalsRequest_PageToken = [], ListProposalsRequest_StateFilter = 0\<rparr>"

definition CreateProposalRequest_zero :: pb_CreateProposalRequest where
  "CreateProposalRequest_zero =
     \<lparr>CreateProposalRequest_GenealogyId = [], CreateProposalRequest_Action = 0,
      CreateProposalRequest_EntityKind = 0, CreateProposalRequest_TargetId = None,
      CreateProposalRequest_SecondaryId = None, CreateProposalRequest_Payload = [],
      CreateProposalRequest_Reason = [], CreateProposalRequest_Sources = []\<rparr>"

definition TransitionRequest_zero :: pb_TransitionRequest where
  "TransitionRequest_zero =
     \<lparr>TransitionRequest_GenealogyId = [], TransitionRequest_Id = None, TransitionRequest_Reason = []\<rparr>"

definition BulkRejectRequest_zero :: pb_BulkRejectRequest where
  "BulkRejectRequest_zero =
     \<lparr>BulkRejectRequest_GenealogyId = [], BulkRejectRequest_Ids = [], BulkRejectRequest_Reason = []\<rparr>"

definition FindPathsRequest_zero :: pb_FindPathsRequest where
  "FindPathsRequest_zero =
     \<lparr>FindPathsRequest_GenealogyId = [], FindPathsRequest_From = None, FindPathsRequest_To = None,
      FindPathsRequest_MaxDepth = 0, FindPathsRequest_MaxPaths = 0,
      FindPathsRequest_IncludeAffinal = False\<rparr>"

definition NKCARequest_zero :: pb_NKCARequest where
  "NKCARequest_zero =
     \<lparr>NKCARequest_GenealogyId = [], NKCARequest_A = None, NKCARequest_B = None\<rparr>"

definition CreateGenealogyRequest_zero :: pb_CreateGenealogyRequest where
  "CreateGenealogyRequest_zero =
     \<lparr>CreateGenealogyRequest_Name = [], CreateGenealogyRequest_Visibility = 0\<rparr>"

definition ListGenealogiesRequest_zero :: pb_ListGenealogiesRequest where
  "ListGenealogiesRequest_zero =
     \<lparr>ListGenealogiesRequest_PageSize = 0, ListGenealogiesRequest_PageToken = []\<rparr>"

definition GetGenealogyRequest_zero :: pb_GetGenealogyRequest where
  "GetGenealogyRequest_zero =
     \<lparr>GetGenealogyRequest_Id = []\<rparr>"

definition UpdateVisibilityRequest_zero :: pb_UpdateVisibilityRequest where
  "UpdateVisibilityRequest_zero =
     \<lparr>UpdateVisibilityRequest_Id = [], UpdateVisibilityRequest_Visibility = 0\<rparr>"

definition DeleteGenealogyRequest_zero :: pb_DeleteGenealogyRequest where
  "DeleteGenealogyRequest_zero =
     \<lparr>DeleteGenealogyRequest_Id = []\<rparr>"

definition UpsertMembershipRequest_zero :: pb_UpsertMembershipRequest where
  "UpsertMembershipRequest_zero =
     \<lparr>UpsertMembershipRequest_GenealogyId = [], UpsertMembershipRequest_Subject = [],
      UpsertMembershipRequest_Role = 0\<rparr>"

definition RemoveMemberRequest_zero :: pb_RemoveMemberRequest where
  "RemoveMemberRequest_zero =
     \<lparr>RemoveMemberRequest_GenealogyId = [], RemoveMemberRequest_Subject = []\<rparr>"

definition LeaveGenealogyRequest_zero :: pb_LeaveGenealogyRequest where
  "LeaveGenealogyRequest_zero =
     \<lparr>LeaveGenealogyRequest_Id = []\<rparr>"

definition BanUserRequest_zero :: pb_BanUserRequest where
  "BanUserRequest_zero =
     \<lparr>BanUserRequest_GenealogyId = [], BanUserRequest_Subject = [], BanUserRequest_Reason = []\<rparr>"

definition UnbanUserRequest_zero :: pb_UnbanUserRequest where
  "UnbanUserRequest_zero =
     \<lparr>UnbanUserRequest_GenealogyId = [], UnbanUserRequest_Subject = []\<rparr>"

definition ListMembersRequest_zero :: pb_ListMembersRequest where
  "ListMembersRequest_zero =
     \<lparr>ListMembersRequest_GenealogyId = [], ListMembersRequest_PageSize = 0,
      ListMembersRequest_PageToken = []\<rparr>"

text \<open>The functions of the runtime library, for each message.\<close>

record gateway =
  gw_GetPersonRequest :: "pb_GetPersonRequest codec"
  gw_ListPersonsRequest :: "pb_ListPersonsRequest codec"
  gw_GetRelationshipRequest :: "pb_GetRelationshipRequest codec"
  gw_ListRelationshipsRequest :: "pb_ListRelationshipsRequest codec"
  gw_GetSourceRequest :: "pb_GetSourceRequest codec"
  gw_ListSourcesRequest :: "pb_ListSourcesRequest codec"
  gw_GetProposalRequest :: "pb_GetProposalRequest codec"
  gw_ListProposalsRequest :: "pb_ListProposalsRequest codec"
  gw_CreateProposalRequest :: "pb_CreateProposalRequest codec"
  gw_TransitionRequest :: "pb_TransitionRequest codec"
  gw_BulkRejectRequest :: "pb_BulkRejectRequest codec"
  gw_FindPathsRequest :: "pb_FindPathsRequest codec"
  gw_NKCARequest :: "pb_NKCARequest codec"
  gw_CreateGenealogyRequest :: "pb_CreateGenealogyRequest codec"
  gw_ListGenealogiesRequest :: "pb_ListGenealogiesRequest codec"
  gw_GetGenealogyRequest :: "pb_GetGenealogyRequest codec"
  gw_UpdateVisibilityRequest :: "pb_UpdateVisibilityRequest codec"
  gw_DeleteGenealogyRequest :: "pb_DeleteGenealogyRequest codec"
  gw_UpsertMembershipRequest :: "pb_UpsertMembershipRequest codec"
  gw_RemoveMemberRequest :: "pb_RemoveMemberRequest codec"
  gw_LeaveGenealogyRequest :: "pb_LeaveGenealogyRequest codec"
  gw_BanUserRequest :: "pb_BanUserRequest codec"
  gw_UnbanUserRequest :: "pb_UnbanUserRequest codec"
  gw_ListMembersRequest :: "pb_ListMembersRequest codec"

section \<open>Filters and patterns\<close>

definition filter_Persons_GetPerson_0 :: DoubleArray where
  "filter_Persons_GetPerson_0 =
     \<lparr>Encoding = [(''genealogy_id'', 0), (''id'', 1), (''value'', 2)], Base = [1, 1, 1, 2, 0, 0], Check = [0, 1, 1, 3, 2, 4]\<rparr>"

definition filter_Persons_ListPersons_0 :: DoubleArray where
  "filter_Persons_ListPersons_0 =
     \<lparr>Encoding = [(''genealogy_id'', 0)], Base = [1, 1, 0], Check = [0, 1, 2]\<rparr>"

definition filter_Relationships_GetRelationship_0 :: DoubleArray where
  "filter_Relationships_GetRelationship_0 =
     \<lparr>Encoding = [(''genealogy_id'', 0), (''id'', 1), (''value'', 2)], Base = [1, 1, 1, 2, 0, 0], Check = [0, 1, 1, 3, 2, 4]\<rparr>"

definition filter_Relationships_ListRelationships_0 :: DoubleArray where
  "filter_Relationships_ListRelationships_0 =
     \<lparr>Encoding = [(''genealogy_id'', 0)], Base = [1, 1, 0], Check = [0, 1, 2]\<rparr>"

definition filter_Sources_GetSource_0 :: DoubleArray where
  "filter_Sources_GetSource_0 =
     \<lparr>Encoding = [(''genealogy_id'', 0), (''id'', 1), (''value'', 2)], Base = [1, 1, 1, 2, 0, 0], Check = [0, 1, 1, 3, 2, 4]\<rparr>"

definition filter_Sources_ListSources_0 :: DoubleArray where
  "filter_Sources_ListSources_0 =
     \<lparr>Encoding = [(''genealogy_id'', 0)], Base = [1, 1, 0], Check = [0, 1, 2]\<rparr>"

definition filter_Proposals_GetProposal_0 :: DoubleArray where
  "filter_Proposals_GetProposal_0 =
     \<lparr>Encoding = [(''genealogy_id'', 0), (''id'', 1), (''value'', 2)], Base = [1, 1, 1, 2, 0, 0], Check = [0, 1, 1, 3, 2, 4]\<rparr>"

definition filter_Proposals_ListProposals_0 :: DoubleArray where
  "filter_Proposals_ListProposals_0 =
     \<lparr>Encoding = [(''genealogy_id'', 0)], Base = [1, 1, 0], Check = [0, 1, 2]\<rparr>"

definition filter_Genealogies_ListGenealogies_0 :: DoubleArray where
  "filter_Genealogies_ListGenealogies_0 =
     \<lparr>Encoding = [], Base = [], Check = []\<rparr>"

definition filter_Genealogies_ListMembers_0 :: DoubleArray where
  "filter_Genealogies_ListMembers_0 =
     \<lparr>Encoding = [(''genealogy_id'', 0)], Base = [1, 1, 0], Check = [0, 1, 2]\<rparr>"

definition pattern_Server_Version_0 :: Pattern where
  "pattern_Server_Version_0 =
     \<lparr>p_ops = [2, 0, 2, 1], p_pool = [''v1'', ''version''], p_verb = []\<rparr>"

definition pattern_Persons_GetPerson_0 :: Pattern where
  "pattern_Persons_GetPerson_0 =
     \<lparr>p_ops = [2, 0, 2, 1, 1, 0, 4, 1, 5, 2, 2, 3, 1, 0, 4, 1, 5, 4], p_pool = [''v1'', ''g'', ''genealogy_id'', ''persons'', ''id.value''], p_verb = []\<rparr>"

definition pattern_Persons_ListPersons_0 :: Pattern where
  "pattern_Persons_ListPersons_0 =
     \<lparr>p_ops = [2, 0, 2, 1, 1, 0, 4, 1, 5, 2, 2, 3], p_pool = [''v1'', ''g'', ''genealogy_id'', ''persons''], p_verb = []\<rparr>"

definition pattern_Relationships_GetRelationship_0 :: Pattern where
  "pattern_Relationships_GetRelationship_0 =
     \<lparr>p_ops = [2, 0, 2, 1, 1, 0, 4, 1, 5, 2, 2, 3, 1, 0, 4, 1, 5, 4], p_pool = [''v1'', ''g'', ''genealogy_id'', ''relationships'', ''id.value''], p_verb = []\<rparr>"

definition pattern_Relationships_ListRelationships_0 :: Pattern where
  "pattern_Relationships_ListRelationships_0 =
     \<lparr>p_ops = [2, 0, 2, 1, 1, 0, 4, 1, 5, 2, 2, 3], p_pool = [''v1'', ''g'', ''genealogy_id'', ''relationships''], p_verb = []\<rparr>"

definition pattern_Sources_GetSource_0 :: Pattern where
  "pattern_Sources_GetSource_0 =
     \<lparr>p_ops = [2, 0, 2, 1, 1, 0, 4, 1, 5, 2, 2, 3, 1, 0, 4, 1, 5, 4], p_pool = [''v1'', ''g'', ''genealogy_id'', ''sources'', ''id.value''], p_verb = []\<rparr>"

definition pattern_Sources_ListSources_0 :: Pattern where
  "pattern_Sources_ListSources_0 =
     \<lparr>p_ops = [2, 0, 2, 1, 1, 0, 4, 1, 5, 2, 2, 3], p_pool = [''v1'', ''g'', ''genealogy_id'', ''sources''], p_verb = []\<rparr>"

definition pattern_Proposals_GetProposal_0 :: Pattern where
  "pattern_Proposals_GetProposal_0 =
     \<lparr>p_ops = [2, 0, 2, 1, 1, 0, 4, 1, 5, 2, 2, 3, 1, 0, 4, 1, 5, 4], p_pool = [''v1'', ''g'', ''genealogy_id'', ''proposals'', ''id.value''], p_verb = []\<rparr>"

definition pattern_Proposals_ListProposals_0 :: Pattern where
  "pattern_Proposals_ListProposals_0 =
     \<lparr>p_ops = [2, 0, 2, 1, 1, 0, 4, 1, 5, 2, 2, 3], p_pool = [''v1'', ''g'', ''genealogy_id'', ''proposals''], p_verb = []\<rparr>"

definition pattern_Proposals_CreateProposal_0 :: Pattern where
  "pattern_Proposals_CreateProposal_0 =
     \<lparr>p_ops = [2, 0, 2, 1, 1, 0, 4, 1, 5, 2, 2, 3], p_pool = [''v1'', ''g'', ''genealogy_id'', ''proposals''], p_verb = []\<rparr>"

definition pattern_Proposals_Submit_0 :: Pattern where
  "pattern_Proposals_Submit_0 =
     \<lparr>p_ops = [2, 0, 2, 1, 1, 0, 4, 1, 5, 2, 2, 3, 1, 0, 4, 1, 5, 4], p_pool = [''v1'', ''g'', ''genealogy_id'', ''proposals'', ''id.value''], p_verb = ''submit''\<rparr>"

definition pattern_Proposals_Claim_0 :: Pattern where
  "pattern_Proposals_Claim_0 =
     \<lparr>p_ops = [2, 0, 2, 1, 1, 0, 4, 1, 5, 2, 2, 3, 1, 0, 4, 1, 5, 4], p_pool = [''v1'', ''g'', ''genealogy_id'', ''proposals'', ''id.value''], p_verb = ''claim''\<rparr>"

definition pattern_Proposals_Accept_0 :: Pattern where
  "pattern_Proposals_Accept_0 =
     \<lparr>p_ops = [2, 0, 2, 1, 1, 0, 4, 1, 5, 2, 2, 3, 1, 0, 4, 1, 5, 4], p_pool = [''v1'', ''g'', ''genealogy_id'', ''proposals'', ''id.value''], p_verb = ''accept''\<rparr>"

definition pattern_Proposals_Reject_0 :: Pattern where
  "pattern_Proposals_Reject_0 =
     \<lparr>p_ops = [2, 0, 2, 1, 1, 0, 4, 1, 5, 2, 2, 3, 1, 0, 4, 1, 5, 4], p_pool = [''v1'', ''g'', ''genealogy_id'', ''proposals'', ''id.value''], p_verb = ''reject''\<rparr>"

definition pattern_Proposals_Withdraw_0 :: Pattern where
  "pattern_Proposals_Withdraw_0 =
     \<lparr>p_ops = [2, 0, 2, 1, 1, 0, 4, 1, 5, 2, 2, 3, 1, 0, 4, 1, 5, 4], p_pool = [''v1'', ''g'', ''genealogy_id'', ''proposals'', ''id.value''], p_verb = ''withdraw''\<rparr>"

definition pattern_Proposals_BulkReject_0 :: Pattern where
  "pattern_Proposals_BulkReject_0 =
     \<lparr>p_ops = [2, 0, 2, 1, 1, 0, 4, 1, 5, 2, 2, 3], p_pool = [''v1'', ''g'', ''genealogy_id'', ''proposals''], p_verb = ''bulkReject''\<rparr>"

definition pattern_Queries_FindPaths_0 :: Pattern where
  "pattern_Queries_FindPaths_0 =
     \<lparr>p_ops = [2, 0, 2, 1, 1, 0, 4, 1, 5, 2, 2, 3], p_pool = [''v1'', ''g'', ''genealogy_id'', ''queries''], p_verb = ''findPaths''\<rparr>"

definition pattern_Queries_NKCA_0 :: Pattern where
  "pattern_Queries_NKCA_0 =
     \<lparr>p_ops = [2, 0, 2, 1, 1, 0, 4, 1, 5, 2, 2, 3], p_pool = [''v1'', ''g'', ''genealogy_id'', ''queries''], p_verb = ''nkca''\<rparr>"

definition pattern_Genealogies_CreateGenealogy_0 :: Pattern where
  "pattern_Genealogies_CreateGenealogy_0 =
     \<lparr>p_ops = [2, 0, 2, 1], p_pool = [''v1'', ''genealogies''], p_verb = []\<rparr>"

definition pattern_Genealogies_ListGenealogies_0 :: Pattern where
  "pattern_Genealogies_ListGenealogies_0 =
     \<lparr>p_ops = [2, 0, 2, 1], p_pool = [''v1'', ''genealogies''], p_verb = []\<rparr>"

definition pattern_Genealogies_GetGenealogy_0 :: Pattern where
  "pattern_Genealogies_GetGenealogy_0 =
     \<lparr>p_ops = [2, 0, 2, 1, 1, 0, 4, 1, 5, 2], p_pool = [''v1'', ''genealogies'', ''id''], p_verb = []\<rparr>"

definition pattern_Genealogies_UpdateVisibility_0 :: Pattern where
  "pattern_Genealogies_UpdateVisibility_0 =
     \<lparr>p_ops = [2, 0, 2, 1, 1, 0, 4, 1, 5, 2, 2, 3], p_pool = [''v1'', ''genealogies'', ''id'', ''visibility''], p_verb = []\<rparr>"

definition pattern_Genealogies_DeleteGenealogy_0 :: Pattern where
  "pattern_Genealogies_DeleteGenealogy_0 =
     \<lparr>p_ops = [2, 0, 2, 1, 1, 0, 4, 1, 5, 2], p_pool = [''v1'', ''genealogies'', ''id''], p_verb = []\<rparr>"

definition pattern_Genealogies_UpsertMembership_0 :: Pattern where
  "pattern_Genealogies_UpsertMembership_0 =
     \<lparr>p_ops = [2, 0, 2, 1, 1, 0, 4, 1, 5, 2, 2, 3, 1, 0, 4, 1, 5, 4], p_pool = [''v1'', ''genealogies'', ''genealogy_id'', ''members'', ''subject''], p_verb = []\<rparr>"

definition pattern_Genealogies_RemoveMember_0 :: Pattern where
  "pattern_Genealogies_RemoveMember_0 =
     \<lparr>p_ops = [2, 0, 2, 1, 1, 0, 4, 1, 5, 2, 2, 3, 1, 0, 4, 1, 5, 4], p_pool = [''v1'', ''genealogies'', ''genealogy_id'', ''members'', ''subject''], p_verb = []\<rparr>"

definition pattern_Genealogies_LeaveGenealogy_0 :: Pattern where
  "pattern_Genealogies_LeaveGenealogy_0 =
     \<lparr>p_ops = [2, 0, 2, 1, 1, 0, 4, 1, 5, 2, 2, 3], p_pool = [''v1'', ''genealogies'', ''id'', ''leave''], p_verb = []\<rparr>"

definition pattern_Genealogies_BanUser_0 :: Pattern where
  "pattern_Genealogies_BanUser_0 =
     \<lparr>p_ops = [2, 0, 2, 1, 1, 0, 4, 1, 5, 2, 2, 3, 1, 0, 4, 1, 5, 4], p_pool = [''v1'', ''genealogies'', ''genealogy_id'', ''bans'', ''subject''], p_verb = []\<rparr>"

definition pattern_Genealogies_UnbanUser_0 :: Pattern where
  "pattern_Genealogies_UnbanUser_0 =
     \<lparr>p_ops = [2, 0, 2, 1, 1, 0, 4, 1, 5, 2, 2, 3, 1, 0, 4, 1, 5, 4], p_pool = [''v1'', ''genealogies'', ''genealogy_id'', ''bans'', ''subject''], p_verb = []\<rparr>"

definition pattern_Genealogies_ListMembers_0 :: Pattern where
  "pattern_Genealogies_ListMembers_0 =
     \<lparr>p_ops = [2, 0, 2, 1, 1, 0, 4, 1, 5, 2, 2, 3], p_pool = [''v1'', ''genealogies'', ''genealogy_id'', ''members''], p_verb = []\<rparr>"

section \<open>Requests\<close>

definition request_Server_Version_0 ::
  "runtime \<Rightarrow> gateway \<Rightarrow> http_Request \<Rightarrow> pathParams \<Rightarrow> err + rpc" where
  "request_Server_Version_0 rt G req pathParams = Inr Server_Version"

definition request_Persons_GetPerson_0 ::
  "runtime \<Rightarrow> gateway \<Rightarrow> http_Request \<Rightarrow> pathParams \<Rightarrow> err + rpc" where
  "request_Persons_GetPerson_0 rt G req pathParams =
     (andThen (pathString rt pathParams ''genealogy_id'') (\<lambda>val.
      let m = GetPersonRequest_zero\<lparr>GetPersonRequest_GenealogyId := val\<rparr> in
      andThen (pathField rt (gw_GetPersonRequest G) pathParams ''id.value'' m) (\<lambda>m.
      andThen (queryParameters rt (gw_GetPersonRequest G) req filter_Persons_GetPerson_0 m) (\<lambda>m.
      Inr (Persons_GetPerson m)))))"

definition request_Persons_ListPersons_0 ::
  "runtime \<Rightarrow> gateway \<Rightarrow> http_Request \<Rightarrow> pathParams \<Rightarrow> err + rpc" where
  "request_Persons_ListPersons_0 rt G req pathParams =
     (andThen (pathString rt pathParams ''genealogy_id'') (\<lambda>val.
      let m = ListPersonsRequest_zero\<lparr>ListPersonsRequest_GenealogyId := val\<rparr> in
      andThen (queryParameters rt (gw_ListPersonsRequest G) req filter_Persons_ListPersons_0 m) (\<lambda>m.
      Inr (Persons_ListPersons m))))"

definition request_Relationships_GetRelationship_0 ::
  "runtime \<Rightarrow> gateway \<Rightarrow> http_Request \<Rightarrow> pathParams \<Rightarrow> err + rpc" where
  "request_Relationships_GetRelationship_0 rt G req pathParams =
     (andThen (pathString rt pathParams ''genealogy_id'') (\<lambda>val.
      let m = GetRelationshipRequest_zero\<lparr>GetRelationshipRequest_GenealogyId := val\<rparr> in
      andThen (pathField rt (gw_GetRelationshipRequest G) pathParams ''id.value'' m) (\<lambda>m.
      andThen (queryParameters rt (gw_GetRelationshipRequest G) req filter_Relationships_GetRelationship_0 m) (\<lambda>m.
      Inr (Relationships_GetRelationship m)))))"

definition request_Relationships_ListRelationships_0 ::
  "runtime \<Rightarrow> gateway \<Rightarrow> http_Request \<Rightarrow> pathParams \<Rightarrow> err + rpc" where
  "request_Relationships_ListRelationships_0 rt G req pathParams =
     (andThen (pathString rt pathParams ''genealogy_id'') (\<lambda>val.
      let m = ListRelationshipsRequest_zero\<lparr>ListRelationshipsRequest_GenealogyId := val\<rparr> in
      andThen (queryParameters rt (gw_ListRelationshipsRequest G) req filter_Relationships_ListRelationships_0 m) (\<lambda>m.
      Inr (Relationships_ListRelationships m))))"

definition request_Sources_GetSource_0 ::
  "runtime \<Rightarrow> gateway \<Rightarrow> http_Request \<Rightarrow> pathParams \<Rightarrow> err + rpc" where
  "request_Sources_GetSource_0 rt G req pathParams =
     (andThen (pathString rt pathParams ''genealogy_id'') (\<lambda>val.
      let m = GetSourceRequest_zero\<lparr>GetSourceRequest_GenealogyId := val\<rparr> in
      andThen (pathField rt (gw_GetSourceRequest G) pathParams ''id.value'' m) (\<lambda>m.
      andThen (queryParameters rt (gw_GetSourceRequest G) req filter_Sources_GetSource_0 m) (\<lambda>m.
      Inr (Sources_GetSource m)))))"

definition request_Sources_ListSources_0 ::
  "runtime \<Rightarrow> gateway \<Rightarrow> http_Request \<Rightarrow> pathParams \<Rightarrow> err + rpc" where
  "request_Sources_ListSources_0 rt G req pathParams =
     (andThen (pathString rt pathParams ''genealogy_id'') (\<lambda>val.
      let m = ListSourcesRequest_zero\<lparr>ListSourcesRequest_GenealogyId := val\<rparr> in
      andThen (queryParameters rt (gw_ListSourcesRequest G) req filter_Sources_ListSources_0 m) (\<lambda>m.
      Inr (Sources_ListSources m))))"

definition request_Proposals_GetProposal_0 ::
  "runtime \<Rightarrow> gateway \<Rightarrow> http_Request \<Rightarrow> pathParams \<Rightarrow> err + rpc" where
  "request_Proposals_GetProposal_0 rt G req pathParams =
     (andThen (pathString rt pathParams ''genealogy_id'') (\<lambda>val.
      let m = GetProposalRequest_zero\<lparr>GetProposalRequest_GenealogyId := val\<rparr> in
      andThen (pathField rt (gw_GetProposalRequest G) pathParams ''id.value'' m) (\<lambda>m.
      andThen (queryParameters rt (gw_GetProposalRequest G) req filter_Proposals_GetProposal_0 m) (\<lambda>m.
      Inr (Proposals_GetProposal m)))))"

definition request_Proposals_ListProposals_0 ::
  "runtime \<Rightarrow> gateway \<Rightarrow> http_Request \<Rightarrow> pathParams \<Rightarrow> err + rpc" where
  "request_Proposals_ListProposals_0 rt G req pathParams =
     (andThen (pathString rt pathParams ''genealogy_id'') (\<lambda>val.
      let m = ListProposalsRequest_zero\<lparr>ListProposalsRequest_GenealogyId := val\<rparr> in
      andThen (queryParameters rt (gw_ListProposalsRequest G) req filter_Proposals_ListProposals_0 m) (\<lambda>m.
      Inr (Proposals_ListProposals m))))"

definition request_Proposals_CreateProposal_0 ::
  "runtime \<Rightarrow> gateway \<Rightarrow> http_Request \<Rightarrow> pathParams \<Rightarrow> err + rpc" where
  "request_Proposals_CreateProposal_0 rt G req pathParams =
     (andThen (decodeBody rt (gw_CreateProposalRequest G) req CreateProposalRequest_zero) (\<lambda>m.
      andThen (pathString rt pathParams ''genealogy_id'') (\<lambda>val.
      let m = m\<lparr>CreateProposalRequest_GenealogyId := val\<rparr> in
      Inr (Proposals_CreateProposal m))))"

definition request_Proposals_Submit_0 ::
  "runtime \<Rightarrow> gateway \<Rightarrow> http_Request \<Rightarrow> pathParams \<Rightarrow> err + rpc" where
  "request_Proposals_Submit_0 rt G req pathParams =
     (andThen (decodeBody rt (gw_TransitionRequest G) req TransitionRequest_zero) (\<lambda>m.
      andThen (pathString rt pathParams ''genealogy_id'') (\<lambda>val.
      let m = m\<lparr>TransitionRequest_GenealogyId := val\<rparr> in
      andThen (pathField rt (gw_TransitionRequest G) pathParams ''id.value'' m) (\<lambda>m.
      Inr (Proposals_Submit m)))))"

definition request_Proposals_Claim_0 ::
  "runtime \<Rightarrow> gateway \<Rightarrow> http_Request \<Rightarrow> pathParams \<Rightarrow> err + rpc" where
  "request_Proposals_Claim_0 rt G req pathParams =
     (andThen (decodeBody rt (gw_TransitionRequest G) req TransitionRequest_zero) (\<lambda>m.
      andThen (pathString rt pathParams ''genealogy_id'') (\<lambda>val.
      let m = m\<lparr>TransitionRequest_GenealogyId := val\<rparr> in
      andThen (pathField rt (gw_TransitionRequest G) pathParams ''id.value'' m) (\<lambda>m.
      Inr (Proposals_Claim m)))))"

definition request_Proposals_Accept_0 ::
  "runtime \<Rightarrow> gateway \<Rightarrow> http_Request \<Rightarrow> pathParams \<Rightarrow> err + rpc" where
  "request_Proposals_Accept_0 rt G req pathParams =
     (andThen (decodeBody rt (gw_TransitionRequest G) req TransitionRequest_zero) (\<lambda>m.
      andThen (pathString rt pathParams ''genealogy_id'') (\<lambda>val.
      let m = m\<lparr>TransitionRequest_GenealogyId := val\<rparr> in
      andThen (pathField rt (gw_TransitionRequest G) pathParams ''id.value'' m) (\<lambda>m.
      Inr (Proposals_Accept m)))))"

definition request_Proposals_Reject_0 ::
  "runtime \<Rightarrow> gateway \<Rightarrow> http_Request \<Rightarrow> pathParams \<Rightarrow> err + rpc" where
  "request_Proposals_Reject_0 rt G req pathParams =
     (andThen (decodeBody rt (gw_TransitionRequest G) req TransitionRequest_zero) (\<lambda>m.
      andThen (pathString rt pathParams ''genealogy_id'') (\<lambda>val.
      let m = m\<lparr>TransitionRequest_GenealogyId := val\<rparr> in
      andThen (pathField rt (gw_TransitionRequest G) pathParams ''id.value'' m) (\<lambda>m.
      Inr (Proposals_Reject m)))))"

definition request_Proposals_Withdraw_0 ::
  "runtime \<Rightarrow> gateway \<Rightarrow> http_Request \<Rightarrow> pathParams \<Rightarrow> err + rpc" where
  "request_Proposals_Withdraw_0 rt G req pathParams =
     (andThen (decodeBody rt (gw_TransitionRequest G) req TransitionRequest_zero) (\<lambda>m.
      andThen (pathString rt pathParams ''genealogy_id'') (\<lambda>val.
      let m = m\<lparr>TransitionRequest_GenealogyId := val\<rparr> in
      andThen (pathField rt (gw_TransitionRequest G) pathParams ''id.value'' m) (\<lambda>m.
      Inr (Proposals_Withdraw m)))))"

definition request_Proposals_BulkReject_0 ::
  "runtime \<Rightarrow> gateway \<Rightarrow> http_Request \<Rightarrow> pathParams \<Rightarrow> err + rpc" where
  "request_Proposals_BulkReject_0 rt G req pathParams =
     (andThen (decodeBody rt (gw_BulkRejectRequest G) req BulkRejectRequest_zero) (\<lambda>m.
      andThen (pathString rt pathParams ''genealogy_id'') (\<lambda>val.
      let m = m\<lparr>BulkRejectRequest_GenealogyId := val\<rparr> in
      Inr (Proposals_BulkReject m))))"

definition request_Queries_FindPaths_0 ::
  "runtime \<Rightarrow> gateway \<Rightarrow> http_Request \<Rightarrow> pathParams \<Rightarrow> err + rpc" where
  "request_Queries_FindPaths_0 rt G req pathParams =
     (andThen (decodeBody rt (gw_FindPathsRequest G) req FindPathsRequest_zero) (\<lambda>m.
      andThen (pathString rt pathParams ''genealogy_id'') (\<lambda>val.
      let m = m\<lparr>FindPathsRequest_GenealogyId := val\<rparr> in
      Inr (Queries_FindPaths m))))"

definition request_Queries_NKCA_0 ::
  "runtime \<Rightarrow> gateway \<Rightarrow> http_Request \<Rightarrow> pathParams \<Rightarrow> err + rpc" where
  "request_Queries_NKCA_0 rt G req pathParams =
     (andThen (decodeBody rt (gw_NKCARequest G) req NKCARequest_zero) (\<lambda>m.
      andThen (pathString rt pathParams ''genealogy_id'') (\<lambda>val.
      let m = m\<lparr>NKCARequest_GenealogyId := val\<rparr> in
      Inr (Queries_NKCA m))))"

definition request_Genealogies_CreateGenealogy_0 ::
  "runtime \<Rightarrow> gateway \<Rightarrow> http_Request \<Rightarrow> pathParams \<Rightarrow> err + rpc" where
  "request_Genealogies_CreateGenealogy_0 rt G req pathParams =
     (andThen (decodeBody rt (gw_CreateGenealogyRequest G) req CreateGenealogyRequest_zero) (\<lambda>m.
      Inr (Genealogies_CreateGenealogy m)))"

definition request_Genealogies_ListGenealogies_0 ::
  "runtime \<Rightarrow> gateway \<Rightarrow> http_Request \<Rightarrow> pathParams \<Rightarrow> err + rpc" where
  "request_Genealogies_ListGenealogies_0 rt G req pathParams =
     (andThen (queryParameters rt (gw_ListGenealogiesRequest G) req filter_Genealogies_ListGenealogies_0 ListGenealogiesRequest_zero) (\<lambda>m.
      Inr (Genealogies_ListGenealogies m)))"

definition request_Genealogies_GetGenealogy_0 ::
  "runtime \<Rightarrow> gateway \<Rightarrow> http_Request \<Rightarrow> pathParams \<Rightarrow> err + rpc" where
  "request_Genealogies_GetGenealogy_0 rt G req pathParams =
     (andThen (pathString rt pathParams ''id'') (\<lambda>val.
      let m = GetGenealogyRequest_zero\<lparr>GetGenealogyRequest_Id := val\<rparr> in
      Inr (Genealogies_GetGenealogy m)))"

definition request_Genealogies_UpdateVisibility_0 ::
  "runtime \<Rightarrow> gateway \<Rightarrow> http_Request \<Rightarrow> pathParams \<Rightarrow> err + rpc" where
  "request_Genealogies_UpdateVisibility_0 rt G req pathParams =
     (andThen (decodeBody rt (gw_UpdateVisibilityRequest G) req UpdateVisibilityRequest_zero) (\<lambda>m.
      andThen (pathString rt pathParams ''id'') (\<lambda>val.
      let m = m\<lparr>UpdateVisibilityRequest_Id := val\<rparr> in
      Inr (Genealogies_UpdateVisibility m))))"

definition request_Genealogies_DeleteGenealogy_0 ::
  "runtime \<Rightarrow> gateway \<Rightarrow> http_Request \<Rightarrow> pathParams \<Rightarrow> err + rpc" where
  "request_Genealogies_DeleteGenealogy_0 rt G req pathParams =
     (andThen (pathString rt pathParams ''id'') (\<lambda>val.
      let m = DeleteGenealogyRequest_zero\<lparr>DeleteGenealogyRequest_Id := val\<rparr> in
      Inr (Genealogies_DeleteGenealogy m)))"

definition request_Genealogies_UpsertMembership_0 ::
  "runtime \<Rightarrow> gateway \<Rightarrow> http_Request \<Rightarrow> pathParams \<Rightarrow> err + rpc" where
  "request_Genealogies_UpsertMembership_0 rt G req pathParams =
     (andThen (decodeBody rt (gw_UpsertMembershipRequest G) req UpsertMembershipRequest_zero) (\<lambda>m.
      andThen (pathString rt pathParams ''genealogy_id'') (\<lambda>val.
      let m = m\<lparr>UpsertMembershipRequest_GenealogyId := val\<rparr> in
      andThen (pathString rt pathParams ''subject'') (\<lambda>val.
      let m = m\<lparr>UpsertMembershipRequest_Subject := val\<rparr> in
      Inr (Genealogies_UpsertMembership m)))))"

definition request_Genealogies_RemoveMember_0 ::
  "runtime \<Rightarrow> gateway \<Rightarrow> http_Request \<Rightarrow> pathParams \<Rightarrow> err + rpc" where
  "request_Genealogies_RemoveMember_0 rt G req pathParams =
     (andThen (pathString rt pathParams ''genealogy_id'') (\<lambda>val.
      let m = RemoveMemberRequest_zero\<lparr>RemoveMemberRequest_GenealogyId := val\<rparr> in
      andThen (pathString rt pathParams ''subject'') (\<lambda>val.
      let m = m\<lparr>RemoveMemberRequest_Subject := val\<rparr> in
      Inr (Genealogies_RemoveMember m))))"

definition request_Genealogies_LeaveGenealogy_0 ::
  "runtime \<Rightarrow> gateway \<Rightarrow> http_Request \<Rightarrow> pathParams \<Rightarrow> err + rpc" where
  "request_Genealogies_LeaveGenealogy_0 rt G req pathParams =
     (andThen (decodeBody rt (gw_LeaveGenealogyRequest G) req LeaveGenealogyRequest_zero) (\<lambda>m.
      andThen (pathString rt pathParams ''id'') (\<lambda>val.
      let m = m\<lparr>LeaveGenealogyRequest_Id := val\<rparr> in
      Inr (Genealogies_LeaveGenealogy m))))"

definition request_Genealogies_BanUser_0 ::
  "runtime \<Rightarrow> gateway \<Rightarrow> http_Request \<Rightarrow> pathParams \<Rightarrow> err + rpc" where
  "request_Genealogies_BanUser_0 rt G req pathParams =
     (andThen (decodeBody rt (gw_BanUserRequest G) req BanUserRequest_zero) (\<lambda>m.
      andThen (pathString rt pathParams ''genealogy_id'') (\<lambda>val.
      let m = m\<lparr>BanUserRequest_GenealogyId := val\<rparr> in
      andThen (pathString rt pathParams ''subject'') (\<lambda>val.
      let m = m\<lparr>BanUserRequest_Subject := val\<rparr> in
      Inr (Genealogies_BanUser m)))))"

definition request_Genealogies_UnbanUser_0 ::
  "runtime \<Rightarrow> gateway \<Rightarrow> http_Request \<Rightarrow> pathParams \<Rightarrow> err + rpc" where
  "request_Genealogies_UnbanUser_0 rt G req pathParams =
     (andThen (pathString rt pathParams ''genealogy_id'') (\<lambda>val.
      let m = UnbanUserRequest_zero\<lparr>UnbanUserRequest_GenealogyId := val\<rparr> in
      andThen (pathString rt pathParams ''subject'') (\<lambda>val.
      let m = m\<lparr>UnbanUserRequest_Subject := val\<rparr> in
      Inr (Genealogies_UnbanUser m))))"

definition request_Genealogies_ListMembers_0 ::
  "runtime \<Rightarrow> gateway \<Rightarrow> http_Request \<Rightarrow> pathParams \<Rightarrow> err + rpc" where
  "request_Genealogies_ListMembers_0 rt G req pathParams =
     (andThen (pathString rt pathParams ''genealogy_id'') (\<lambda>val.
      let m = ListMembersRequest_zero\<lparr>ListMembersRequest_GenealogyId := val\<rparr> in
      andThen (queryParameters rt (gw_ListMembersRequest G) req filter_Genealogies_ListMembers_0 m) (\<lambda>m.
      Inr (Genealogies_ListMembers m))))"

section \<open>Routes\<close>

record route =
  ro_method :: string
  ro_pattern :: Pattern
  ro_name :: string \<comment> \<open>the full method name given to \<open>AnnotateContext\<close>\<close>
  ro_path :: string \<comment> \<open>the text of the pattern, given to \<open>WithHTTPPathPattern\<close>\<close>
  ro_request :: "runtime \<Rightarrow> gateway \<Rightarrow> http_Request \<Rightarrow> pathParams \<Rightarrow> err + rpc"

section \<open>Registration\<close>

text \<open>One registered route per \<open>mux.Handle\<close>; what its closure does with a request is \<open>rest_handler\<close>.\<close>

definition route_Server_Version_0 :: route where
  "route_Server_Version_0 =
     \<lparr>ro_method = ''GET'', ro_pattern = pattern_Server_Version_0, ro_name = ''/linea.v1.Server/Version'',
      ro_path = ''/v1/version'', ro_request = request_Server_Version_0\<rparr>"

definition route_Persons_GetPerson_0 :: route where
  "route_Persons_GetPerson_0 =
     \<lparr>ro_method = ''GET'', ro_pattern = pattern_Persons_GetPerson_0, ro_name = ''/linea.v1.Persons/GetPerson'',
      ro_path = ''/v1/g/{genealogy_id}/persons/{id.value}'', ro_request = request_Persons_GetPerson_0\<rparr>"

definition route_Persons_ListPersons_0 :: route where
  "route_Persons_ListPersons_0 =
     \<lparr>ro_method = ''GET'', ro_pattern = pattern_Persons_ListPersons_0, ro_name = ''/linea.v1.Persons/ListPersons'',
      ro_path = ''/v1/g/{genealogy_id}/persons'', ro_request = request_Persons_ListPersons_0\<rparr>"

definition route_Relationships_GetRelationship_0 :: route where
  "route_Relationships_GetRelationship_0 =
     \<lparr>ro_method = ''GET'', ro_pattern = pattern_Relationships_GetRelationship_0, ro_name = ''/linea.v1.Relationships/GetRelationship'',
      ro_path = ''/v1/g/{genealogy_id}/relationships/{id.value}'', ro_request = request_Relationships_GetRelationship_0\<rparr>"

definition route_Relationships_ListRelationships_0 :: route where
  "route_Relationships_ListRelationships_0 =
     \<lparr>ro_method = ''GET'', ro_pattern = pattern_Relationships_ListRelationships_0, ro_name = ''/linea.v1.Relationships/ListRelationships'',
      ro_path = ''/v1/g/{genealogy_id}/relationships'', ro_request = request_Relationships_ListRelationships_0\<rparr>"

definition route_Sources_GetSource_0 :: route where
  "route_Sources_GetSource_0 =
     \<lparr>ro_method = ''GET'', ro_pattern = pattern_Sources_GetSource_0, ro_name = ''/linea.v1.Sources/GetSource'',
      ro_path = ''/v1/g/{genealogy_id}/sources/{id.value}'', ro_request = request_Sources_GetSource_0\<rparr>"

definition route_Sources_ListSources_0 :: route where
  "route_Sources_ListSources_0 =
     \<lparr>ro_method = ''GET'', ro_pattern = pattern_Sources_ListSources_0, ro_name = ''/linea.v1.Sources/ListSources'',
      ro_path = ''/v1/g/{genealogy_id}/sources'', ro_request = request_Sources_ListSources_0\<rparr>"

definition route_Proposals_GetProposal_0 :: route where
  "route_Proposals_GetProposal_0 =
     \<lparr>ro_method = ''GET'', ro_pattern = pattern_Proposals_GetProposal_0, ro_name = ''/linea.v1.Proposals/GetProposal'',
      ro_path = ''/v1/g/{genealogy_id}/proposals/{id.value}'', ro_request = request_Proposals_GetProposal_0\<rparr>"

definition route_Proposals_ListProposals_0 :: route where
  "route_Proposals_ListProposals_0 =
     \<lparr>ro_method = ''GET'', ro_pattern = pattern_Proposals_ListProposals_0, ro_name = ''/linea.v1.Proposals/ListProposals'',
      ro_path = ''/v1/g/{genealogy_id}/proposals'', ro_request = request_Proposals_ListProposals_0\<rparr>"

definition route_Proposals_CreateProposal_0 :: route where
  "route_Proposals_CreateProposal_0 =
     \<lparr>ro_method = ''POST'', ro_pattern = pattern_Proposals_CreateProposal_0, ro_name = ''/linea.v1.Proposals/CreateProposal'',
      ro_path = ''/v1/g/{genealogy_id}/proposals'', ro_request = request_Proposals_CreateProposal_0\<rparr>"

definition route_Proposals_Submit_0 :: route where
  "route_Proposals_Submit_0 =
     \<lparr>ro_method = ''POST'', ro_pattern = pattern_Proposals_Submit_0, ro_name = ''/linea.v1.Proposals/Submit'',
      ro_path = ''/v1/g/{genealogy_id}/proposals/{id.value}:submit'', ro_request = request_Proposals_Submit_0\<rparr>"

definition route_Proposals_Claim_0 :: route where
  "route_Proposals_Claim_0 =
     \<lparr>ro_method = ''POST'', ro_pattern = pattern_Proposals_Claim_0, ro_name = ''/linea.v1.Proposals/Claim'',
      ro_path = ''/v1/g/{genealogy_id}/proposals/{id.value}:claim'', ro_request = request_Proposals_Claim_0\<rparr>"

definition route_Proposals_Accept_0 :: route where
  "route_Proposals_Accept_0 =
     \<lparr>ro_method = ''POST'', ro_pattern = pattern_Proposals_Accept_0, ro_name = ''/linea.v1.Proposals/Accept'',
      ro_path = ''/v1/g/{genealogy_id}/proposals/{id.value}:accept'', ro_request = request_Proposals_Accept_0\<rparr>"

definition route_Proposals_Reject_0 :: route where
  "route_Proposals_Reject_0 =
     \<lparr>ro_method = ''POST'', ro_pattern = pattern_Proposals_Reject_0, ro_name = ''/linea.v1.Proposals/Reject'',
      ro_path = ''/v1/g/{genealogy_id}/proposals/{id.value}:reject'', ro_request = request_Proposals_Reject_0\<rparr>"

definition route_Proposals_Withdraw_0 :: route where
  "route_Proposals_Withdraw_0 =
     \<lparr>ro_method = ''POST'', ro_pattern = pattern_Proposals_Withdraw_0, ro_name = ''/linea.v1.Proposals/Withdraw'',
      ro_path = ''/v1/g/{genealogy_id}/proposals/{id.value}:withdraw'', ro_request = request_Proposals_Withdraw_0\<rparr>"

definition route_Proposals_BulkReject_0 :: route where
  "route_Proposals_BulkReject_0 =
     \<lparr>ro_method = ''POST'', ro_pattern = pattern_Proposals_BulkReject_0, ro_name = ''/linea.v1.Proposals/BulkReject'',
      ro_path = ''/v1/g/{genealogy_id}/proposals:bulkReject'', ro_request = request_Proposals_BulkReject_0\<rparr>"

definition route_Queries_FindPaths_0 :: route where
  "route_Queries_FindPaths_0 =
     \<lparr>ro_method = ''POST'', ro_pattern = pattern_Queries_FindPaths_0, ro_name = ''/linea.v1.Queries/FindPaths'',
      ro_path = ''/v1/g/{genealogy_id}/queries:findPaths'', ro_request = request_Queries_FindPaths_0\<rparr>"

definition route_Queries_NKCA_0 :: route where
  "route_Queries_NKCA_0 =
     \<lparr>ro_method = ''POST'', ro_pattern = pattern_Queries_NKCA_0, ro_name = ''/linea.v1.Queries/NKCA'',
      ro_path = ''/v1/g/{genealogy_id}/queries:nkca'', ro_request = request_Queries_NKCA_0\<rparr>"

definition route_Genealogies_CreateGenealogy_0 :: route where
  "route_Genealogies_CreateGenealogy_0 =
     \<lparr>ro_method = ''POST'', ro_pattern = pattern_Genealogies_CreateGenealogy_0, ro_name = ''/linea.v1.Genealogies/CreateGenealogy'',
      ro_path = ''/v1/genealogies'', ro_request = request_Genealogies_CreateGenealogy_0\<rparr>"

definition route_Genealogies_ListGenealogies_0 :: route where
  "route_Genealogies_ListGenealogies_0 =
     \<lparr>ro_method = ''GET'', ro_pattern = pattern_Genealogies_ListGenealogies_0, ro_name = ''/linea.v1.Genealogies/ListGenealogies'',
      ro_path = ''/v1/genealogies'', ro_request = request_Genealogies_ListGenealogies_0\<rparr>"

definition route_Genealogies_GetGenealogy_0 :: route where
  "route_Genealogies_GetGenealogy_0 =
     \<lparr>ro_method = ''GET'', ro_pattern = pattern_Genealogies_GetGenealogy_0, ro_name = ''/linea.v1.Genealogies/GetGenealogy'',
      ro_path = ''/v1/genealogies/{id}'', ro_request = request_Genealogies_GetGenealogy_0\<rparr>"

definition route_Genealogies_UpdateVisibility_0 :: route where
  "route_Genealogies_UpdateVisibility_0 =
     \<lparr>ro_method = ''PATCH'', ro_pattern = pattern_Genealogies_UpdateVisibility_0, ro_name = ''/linea.v1.Genealogies/UpdateVisibility'',
      ro_path = ''/v1/genealogies/{id}/visibility'', ro_request = request_Genealogies_UpdateVisibility_0\<rparr>"

definition route_Genealogies_DeleteGenealogy_0 :: route where
  "route_Genealogies_DeleteGenealogy_0 =
     \<lparr>ro_method = ''DELETE'', ro_pattern = pattern_Genealogies_DeleteGenealogy_0, ro_name = ''/linea.v1.Genealogies/DeleteGenealogy'',
      ro_path = ''/v1/genealogies/{id}'', ro_request = request_Genealogies_DeleteGenealogy_0\<rparr>"

definition route_Genealogies_UpsertMembership_0 :: route where
  "route_Genealogies_UpsertMembership_0 =
     \<lparr>ro_method = ''PUT'', ro_pattern = pattern_Genealogies_UpsertMembership_0, ro_name = ''/linea.v1.Genealogies/UpsertMembership'',
      ro_path = ''/v1/genealogies/{genealogy_id}/members/{subject}'', ro_request = request_Genealogies_UpsertMembership_0\<rparr>"

definition route_Genealogies_RemoveMember_0 :: route where
  "route_Genealogies_RemoveMember_0 =
     \<lparr>ro_method = ''DELETE'', ro_pattern = pattern_Genealogies_RemoveMember_0, ro_name = ''/linea.v1.Genealogies/RemoveMember'',
      ro_path = ''/v1/genealogies/{genealogy_id}/members/{subject}'', ro_request = request_Genealogies_RemoveMember_0\<rparr>"

definition route_Genealogies_LeaveGenealogy_0 :: route where
  "route_Genealogies_LeaveGenealogy_0 =
     \<lparr>ro_method = ''POST'', ro_pattern = pattern_Genealogies_LeaveGenealogy_0, ro_name = ''/linea.v1.Genealogies/LeaveGenealogy'',
      ro_path = ''/v1/genealogies/{id}/leave'', ro_request = request_Genealogies_LeaveGenealogy_0\<rparr>"

definition route_Genealogies_BanUser_0 :: route where
  "route_Genealogies_BanUser_0 =
     \<lparr>ro_method = ''PUT'', ro_pattern = pattern_Genealogies_BanUser_0, ro_name = ''/linea.v1.Genealogies/BanUser'',
      ro_path = ''/v1/genealogies/{genealogy_id}/bans/{subject}'', ro_request = request_Genealogies_BanUser_0\<rparr>"

definition route_Genealogies_UnbanUser_0 :: route where
  "route_Genealogies_UnbanUser_0 =
     \<lparr>ro_method = ''DELETE'', ro_pattern = pattern_Genealogies_UnbanUser_0, ro_name = ''/linea.v1.Genealogies/UnbanUser'',
      ro_path = ''/v1/genealogies/{genealogy_id}/bans/{subject}'', ro_request = request_Genealogies_UnbanUser_0\<rparr>"

definition route_Genealogies_ListMembers_0 :: route where
  "route_Genealogies_ListMembers_0 =
     \<lparr>ro_method = ''GET'', ro_pattern = pattern_Genealogies_ListMembers_0, ro_name = ''/linea.v1.Genealogies/ListMembers'',
      ro_path = ''/v1/genealogies/{genealogy_id}/members'', ro_request = request_Genealogies_ListMembers_0\<rparr>"

definition RegisterServerHandlerClient :: "route list" where
  "RegisterServerHandlerClient =
     [route_Server_Version_0]"

definition RegisterPersonsHandlerClient :: "route list" where
  "RegisterPersonsHandlerClient =
     [route_Persons_GetPerson_0, route_Persons_ListPersons_0]"

definition RegisterRelationshipsHandlerClient :: "route list" where
  "RegisterRelationshipsHandlerClient =
     [route_Relationships_GetRelationship_0, route_Relationships_ListRelationships_0]"

definition RegisterSourcesHandlerClient :: "route list" where
  "RegisterSourcesHandlerClient =
     [route_Sources_GetSource_0, route_Sources_ListSources_0]"

definition RegisterProposalsHandlerClient :: "route list" where
  "RegisterProposalsHandlerClient =
     [route_Proposals_GetProposal_0, route_Proposals_ListProposals_0, route_Proposals_CreateProposal_0,
      route_Proposals_Submit_0, route_Proposals_Claim_0, route_Proposals_Accept_0, route_Proposals_Reject_0,
      route_Proposals_Withdraw_0, route_Proposals_BulkReject_0]"

definition RegisterQueriesHandlerClient :: "route list" where
  "RegisterQueriesHandlerClient =
     [route_Queries_FindPaths_0, route_Queries_NKCA_0]"

definition RegisterGenealogiesHandlerClient :: "route list" where
  "RegisterGenealogiesHandlerClient =
     [route_Genealogies_CreateGenealogy_0, route_Genealogies_ListGenealogies_0,
      route_Genealogies_GetGenealogy_0, route_Genealogies_UpdateVisibility_0,
      route_Genealogies_DeleteGenealogy_0, route_Genealogies_UpsertMembership_0,
      route_Genealogies_RemoveMember_0, route_Genealogies_LeaveGenealogy_0, route_Genealogies_BanUser_0,
      route_Genealogies_UnbanUser_0, route_Genealogies_ListMembers_0]"

definition RegisterServerHandlerFromEndpoint :: "(string \<Rightarrow> err + unit) \<Rightarrow> string \<Rightarrow> err + route list" where
  "RegisterServerHandlerFromEndpoint NewClient endpoint =
     andThen (NewClient endpoint) (\<lambda>_. Inr RegisterServerHandlerClient)"

definition RegisterPersonsHandlerFromEndpoint :: "(string \<Rightarrow> err + unit) \<Rightarrow> string \<Rightarrow> err + route list" where
  "RegisterPersonsHandlerFromEndpoint NewClient endpoint =
     andThen (NewClient endpoint) (\<lambda>_. Inr RegisterPersonsHandlerClient)"

definition RegisterRelationshipsHandlerFromEndpoint :: "(string \<Rightarrow> err + unit) \<Rightarrow> string \<Rightarrow> err + route list" where
  "RegisterRelationshipsHandlerFromEndpoint NewClient endpoint =
     andThen (NewClient endpoint) (\<lambda>_. Inr RegisterRelationshipsHandlerClient)"

definition RegisterSourcesHandlerFromEndpoint :: "(string \<Rightarrow> err + unit) \<Rightarrow> string \<Rightarrow> err + route list" where
  "RegisterSourcesHandlerFromEndpoint NewClient endpoint =
     andThen (NewClient endpoint) (\<lambda>_. Inr RegisterSourcesHandlerClient)"

definition RegisterProposalsHandlerFromEndpoint :: "(string \<Rightarrow> err + unit) \<Rightarrow> string \<Rightarrow> err + route list" where
  "RegisterProposalsHandlerFromEndpoint NewClient endpoint =
     andThen (NewClient endpoint) (\<lambda>_. Inr RegisterProposalsHandlerClient)"

definition RegisterQueriesHandlerFromEndpoint :: "(string \<Rightarrow> err + unit) \<Rightarrow> string \<Rightarrow> err + route list" where
  "RegisterQueriesHandlerFromEndpoint NewClient endpoint =
     andThen (NewClient endpoint) (\<lambda>_. Inr RegisterQueriesHandlerClient)"

definition RegisterGenealogiesHandlerFromEndpoint :: "(string \<Rightarrow> err + unit) \<Rightarrow> string \<Rightarrow> err + route list" where
  "RegisterGenealogiesHandlerFromEndpoint NewClient endpoint =
     andThen (NewClient endpoint) (\<lambda>_. Inr RegisterGenealogiesHandlerClient)"

definition routes :: "route list" where
  "routes = RegisterServerHandlerClient @ RegisterPersonsHandlerClient @ RegisterRelationshipsHandlerClient @
     RegisterSourcesHandlerClient @ RegisterProposalsHandlerClient @ RegisterQueriesHandlerClient @
     RegisterGenealogiesHandlerClient"

section \<open>Handlers\<close>

datatype http_answer = NoRoute | HTTPError err | Forward response

text \<open>The closure each \<open>mux.Handle\<close> registers; \<open>client\<close> makes the call.\<close>

definition rest_handler ::
  "runtime \<Rightarrow> gateway \<Rightarrow> (rpc \<Rightarrow> (response, 's) call) \<Rightarrow> route \<Rightarrow> http_Request \<Rightarrow> pathParams \<Rightarrow> 's frontend \<Rightarrow>
   (http_answer \<times> 's frontend) outcome option" where
  "rest_handler rt G client ro req pathParams s =
     (case rt_AnnotateContext rt req (ro_name ro) of
        Inl e \<Rightarrow> Some (Ret (HTTPError e, s))
      | Inr ctx \<Rightarrow>
          (case ro_request ro rt G req pathParams of
             Inl e \<Rightarrow> Some (Ret (HTTPError e, s))
           | Inr r \<Rightarrow>
               map_option (map_outcome (\<lambda>(x, s'). (case x of Inl e \<Rightarrow> HTTPError e | Inr m \<Rightarrow> Forward m, s')))
                 (client r ctx s)))"

definition rest_serve ::
  "runtime \<Rightarrow> gateway \<Rightarrow> route list \<Rightarrow> (rpc \<Rightarrow> (response, 's) call) \<Rightarrow> http_Request \<Rightarrow> 's frontend \<Rightarrow>
   (http_answer \<times> 's frontend) outcome option" where
  "rest_serve rt G rs client req s =
     (case rt_Match rt (map (\<lambda>ro. (ro_method ro, ro_pattern ro)) rs) req of
        None \<Rightarrow> Some (Ret (NoRoute, s))
      | Some (i, pathParams) \<Rightarrow> rest_handler rt G client (rs ! i) req pathParams s)"

lemmas request_defs = request_Server_Version_0_def request_Persons_GetPerson_0_def request_Persons_ListPersons_0_def
    request_Relationships_GetRelationship_0_def request_Relationships_ListRelationships_0_def
    request_Sources_GetSource_0_def request_Sources_ListSources_0_def request_Proposals_GetProposal_0_def
    request_Proposals_ListProposals_0_def request_Proposals_CreateProposal_0_def request_Proposals_Submit_0_def
    request_Proposals_Claim_0_def request_Proposals_Accept_0_def request_Proposals_Reject_0_def
    request_Proposals_Withdraw_0_def request_Proposals_BulkReject_0_def request_Queries_FindPaths_0_def
    request_Queries_NKCA_0_def request_Genealogies_CreateGenealogy_0_def request_Genealogies_ListGenealogies_0_def
    request_Genealogies_GetGenealogy_0_def request_Genealogies_UpdateVisibility_0_def
    request_Genealogies_DeleteGenealogy_0_def request_Genealogies_UpsertMembership_0_def
    request_Genealogies_RemoveMember_0_def request_Genealogies_LeaveGenealogy_0_def request_Genealogies_BanUser_0_def
    request_Genealogies_UnbanUser_0_def request_Genealogies_ListMembers_0_def

lemmas pattern_defs = pattern_Server_Version_0_def pattern_Persons_GetPerson_0_def pattern_Persons_ListPersons_0_def
    pattern_Relationships_GetRelationship_0_def pattern_Relationships_ListRelationships_0_def
    pattern_Sources_GetSource_0_def pattern_Sources_ListSources_0_def pattern_Proposals_GetProposal_0_def
    pattern_Proposals_ListProposals_0_def pattern_Proposals_CreateProposal_0_def pattern_Proposals_Submit_0_def
    pattern_Proposals_Claim_0_def pattern_Proposals_Accept_0_def pattern_Proposals_Reject_0_def
    pattern_Proposals_Withdraw_0_def pattern_Proposals_BulkReject_0_def pattern_Queries_FindPaths_0_def
    pattern_Queries_NKCA_0_def pattern_Genealogies_CreateGenealogy_0_def pattern_Genealogies_ListGenealogies_0_def
    pattern_Genealogies_GetGenealogy_0_def pattern_Genealogies_UpdateVisibility_0_def
    pattern_Genealogies_DeleteGenealogy_0_def pattern_Genealogies_UpsertMembership_0_def
    pattern_Genealogies_RemoveMember_0_def pattern_Genealogies_LeaveGenealogy_0_def pattern_Genealogies_BanUser_0_def
    pattern_Genealogies_UnbanUser_0_def pattern_Genealogies_ListMembers_0_def

lemmas filter_defs = filter_Persons_GetPerson_0_def filter_Persons_ListPersons_0_def
    filter_Relationships_GetRelationship_0_def filter_Relationships_ListRelationships_0_def
    filter_Sources_GetSource_0_def filter_Sources_ListSources_0_def filter_Proposals_GetProposal_0_def
    filter_Proposals_ListProposals_0_def filter_Genealogies_ListGenealogies_0_def filter_Genealogies_ListMembers_0_def

lemmas route_defs = route_Server_Version_0_def route_Persons_GetPerson_0_def route_Persons_ListPersons_0_def
    route_Relationships_GetRelationship_0_def route_Relationships_ListRelationships_0_def
    route_Sources_GetSource_0_def route_Sources_ListSources_0_def route_Proposals_GetProposal_0_def
    route_Proposals_ListProposals_0_def route_Proposals_CreateProposal_0_def route_Proposals_Submit_0_def
    route_Proposals_Claim_0_def route_Proposals_Accept_0_def route_Proposals_Reject_0_def
    route_Proposals_Withdraw_0_def route_Proposals_BulkReject_0_def route_Queries_FindPaths_0_def
    route_Queries_NKCA_0_def route_Genealogies_CreateGenealogy_0_def route_Genealogies_ListGenealogies_0_def
    route_Genealogies_GetGenealogy_0_def route_Genealogies_UpdateVisibility_0_def
    route_Genealogies_DeleteGenealogy_0_def route_Genealogies_UpsertMembership_0_def
    route_Genealogies_RemoveMember_0_def route_Genealogies_LeaveGenealogy_0_def route_Genealogies_BanUser_0_def
    route_Genealogies_UnbanUser_0_def route_Genealogies_ListMembers_0_def

lemmas register_defs = RegisterServerHandlerClient_def RegisterPersonsHandlerClient_def
    RegisterRelationshipsHandlerClient_def RegisterSourcesHandlerClient_def RegisterProposalsHandlerClient_def
    RegisterQueriesHandlerClient_def RegisterGenealogiesHandlerClient_def route_defs

lemmas from_endpoint_defs = RegisterServerHandlerFromEndpoint_def RegisterPersonsHandlerFromEndpoint_def
    RegisterRelationshipsHandlerFromEndpoint_def RegisterSourcesHandlerFromEndpoint_def
    RegisterProposalsHandlerFromEndpoint_def RegisterQueriesHandlerFromEndpoint_def RegisterGenealogiesHandlerFromEndpoint_def

section \<open>What the handlers rely on\<close>

text \<open>The names a pattern captures: operation 5 names the last segment by an entry of the pool.\<close>

fun captures_of :: "nat list \<Rightarrow> string list \<Rightarrow> string list" where
  "captures_of (n # i # ops) pool = (if n = 5 then [pool ! i] else []) @ captures_of ops pool"
| "captures_of _ pool = []"

definition captures :: "Pattern \<Rightarrow> string list" where
  "captures p = captures_of (p_ops p) (p_pool p)"

text \<open>
  The URL templates of \<open>google.api.http\<close>, which the library documents its matching by. A path is cut at the
  slashes after its first one. Operation 2 takes a component that is the literal, operation 1 any
  component, operation 5 binds a name to the component taken last (operation 4 joins the last \<open>i\<close> ones, here
  always one); all components must be taken. With a verb, the last component ends with a colon and the verb, and what
  stands before them, not empty, is matched.
\<close>

definition path_components :: "http_Request \<Rightarrow> string list" where
  "path_components req = tl (Split (CHR ''/'') (h_Path req))"

fun match_ops :: "nat list \<Rightarrow> string list \<Rightarrow> string list \<Rightarrow> string \<Rightarrow> pathParams \<Rightarrow> pathParams option" where
  "match_ops (n # i # ops) pool comps seg ps =
     (if n = 5 then match_ops ops pool comps seg (ps(pool ! i \<mapsto> seg))
      else if n = 4 then match_ops ops pool comps seg ps
      else (case comps of
              [] \<Rightarrow> None
            | c # cs \<Rightarrow> if n = 1 \<or> n = 2 \<and> c = pool ! i then match_ops ops pool cs c ps else None))"
| "match_ops _ pool comps seg ps = (if comps = [] then Some ps else None)"

definition match_path :: "Pattern \<Rightarrow> string list \<Rightarrow> pathParams option" where
  "match_path p comps =
     (if p_verb p = [] then match_ops (p_ops p) (p_pool p) comps [] Map.empty
      else
        (let c = last comps; n = length c - (length (p_verb p) + 1) in
         if comps \<noteq> [] \<and> 0 < n \<and> drop n c = CHR '':'' # p_verb p
         then match_ops (p_ops p) (p_pool p) (butlast comps @ [take n c]) [] Map.empty
         else None))"

lemma match_ops_captures: "match_ops ops pool comps seg ps = Some ps' \<Longrightarrow> dom ps \<union> set (captures_of ops pool) \<subseteq> dom ps'"
  by (induction ops pool comps seg ps rule: match_ops.induct) (fastforce split: if_splits list.splits)+

lemma match_path_captures: "match_path p comps = Some ps \<Longrightarrow> set (captures p) \<subseteq> dom ps"
  by (auto simp: match_path_def captures_def Let_def dest!: match_ops_captures split: if_splits)

definition genealogy_param :: "route \<Rightarrow> string" where
  "genealogy_param ro = (if ''genealogy_id'' \<in> set (captures (ro_pattern ro)) then ''genealogy_id'' else ''id'')"

text \<open>
  Neither a query with \<open>genealogy_id\<close> in its filter nor setting \<open>id.value\<close> changes the genealogy of a
  message.
\<close>

locale message_lib =
  fixes L :: "'m codec" and gid :: "'m \<Rightarrow> string"
  assumes query_gid: "''genealogy_id'' \<in> fst ` set (Encoding fl) \<Longrightarrow> PopulateQueryParameters L m f fl = Inr m' \<Longrightarrow> gid m' = gid m"
    and field_gid: "PopulateFieldFromPath L m ''id.value'' v = Inr m' \<Longrightarrow> gid m' = gid m"
begin

lemma queryParameters_gid:
  "queryParameters rt L req fl m = Inr m' \<Longrightarrow> ''genealogy_id'' \<in> fst ` set (Encoding fl) \<Longrightarrow> gid m' = gid m"
  by (simp add: queryParameters_def split: sum.splits) (blast intro: query_gid)

lemma pathField_gid: "pathField rt L ps ''id.value'' m = Inr m' \<Longrightarrow> gid m' = gid m"
  by (auto simp: pathField_def split: option.splits sum.splits dest: field_gid)

end

locale gateway_lib =
  fixes rt :: runtime and G :: gateway
  assumes rt_String: "rt_String rt v = Inr v"
    and rt_Match: "set rs \<subseteq> (\<lambda>ro. (ro_method ro, ro_pattern ro)) ` set routes \<Longrightarrow> rt_Match rt rs req = Some (i, ps) \<Longrightarrow>
      i < length rs \<and> match_path (snd (rs ! i)) (path_components req) = Some ps"
    and GetPerson: "message_lib (gw_GetPersonRequest G) GetPersonRequest_GenealogyId"
    and ListPersons: "message_lib (gw_ListPersonsRequest G) ListPersonsRequest_GenealogyId"
    and GetRelationship: "message_lib (gw_GetRelationshipRequest G) GetRelationshipRequest_GenealogyId"
    and ListRelationships: "message_lib (gw_ListRelationshipsRequest G) ListRelationshipsRequest_GenealogyId"
    and GetSource: "message_lib (gw_GetSourceRequest G) GetSourceRequest_GenealogyId"
    and ListSources: "message_lib (gw_ListSourcesRequest G) ListSourcesRequest_GenealogyId"
    and GetProposal: "message_lib (gw_GetProposalRequest G) GetProposalRequest_GenealogyId"
    and ListProposals: "message_lib (gw_ListProposalsRequest G) ListProposalsRequest_GenealogyId"
    and Transition: "message_lib (gw_TransitionRequest G) TransitionRequest_GenealogyId"
    and ListMembers: "message_lib (gw_ListMembersRequest G) ListMembersRequest_GenealogyId"
begin

lemmas message_libs = GetPerson ListPersons GetRelationship ListRelationships GetSource ListSources GetProposal ListProposals
  Transition ListMembers

lemma pathString_Inr: "pathString rt ps name = Inr v \<longleftrightarrow> ps name = Some v"
  by (simp add: pathString_def rt_String split: option.splits)

lemmas keeps_gid = message_libs [THEN message_lib.queryParameters_gid] message_libs [THEN message_lib.pathField_gid]

lemma genealogy_in_url:
  assumes "ro \<in> set routes" and "ro_request ro rt G req ps = Inr r" and "required r = Some (gid, role)"
  shows "ps (genealogy_param ro) = Some gid"
proof -
  let ?P = "\<lambda>ro. ro_request ro rt G req ps = Inr r \<longrightarrow> required r = Some (gid, role) \<longrightarrow> ps (genealogy_param ro) = Some gid"
  have "list_all ?P routes"
    unfolding routes_def register_defs list_all_append list.pred_inject append_Cons append_Nil
    by (intro conjI list.pred_inject(1);
        auto simp: request_defs genealogy_param_def captures_def pattern_defs andThen_Inr pathString_Inr filter_defs dest!: keeps_gid)
  with assms show ?thesis by (simp add: list_all_iff)
qed

lemma rest_serve_Forward:
  assumes "rest_serve rt G routes client req s = Some (Ret (Forward x, s'))"
  shows "\<exists>ro ps ctx r. ro \<in> set routes \<and> match_path (ro_pattern ro) (path_components req) = Some ps \<and> rt_AnnotateContext rt req (ro_name ro) = Inr ctx \<and>
    ro_request ro rt G req ps = Inr r \<and> client r ctx s = Some (Ret (Inr x, s'))"
proof -
  let ?rs = "map (\<lambda>ro. (ro_method ro, ro_pattern ro)) routes"
  from assms obtain i ps where m: "rt_Match rt ?rs req = Some (i, ps)"
    and h: "rest_handler rt G client (routes ! i) req ps s = Some (Ret (Forward x, s'))"
    by (auto simp: rest_serve_def split: option.splits prod.splits)
  have "set ?rs \<subseteq> (\<lambda>ro. (ro_method ro, ro_pattern ro)) ` set routes" by simp
  note found = rt_Match [OF this m]
  then have i: "i < length routes" by simp
  then have "routes ! i \<in> set routes" by simp
  moreover from conjunct2 [OF found] i have "match_path (ro_pattern (routes ! i)) (path_components req) = Some ps" by simp
  moreover from h obtain ctx where ctx: "rt_AnnotateContext rt req (ro_name (routes ! i)) = Inr ctx"
    by (cases "rt_AnnotateContext rt req (ro_name (routes ! i))") (auto simp: rest_handler_def)
  moreover from h ctx obtain r where r: "ro_request (routes ! i) rt G req ps = Inr r"
    by (cases "ro_request (routes ! i) rt G req ps") (auto simp: rest_handler_def)
  moreover from h obtain y where "client r ctx s = Some (Ret y)"
    and "(Forward x, s') = (\<lambda>(x, s'). (case x of Inl e \<Rightarrow> HTTPError e | Inr m \<Rightarrow> Forward m, s')) y"
    unfolding rest_handler_def ctx r sum.case map_handled_Ret by blast
  then have "client r ctx s = Some (Ret (Inr x, s'))" by (cases y; cases "fst y") auto
  ultimately show ?thesis by blast
qed

end

lemma call_of_route:
  assumes "ro \<in> set routes" and "ro_request ro rt G req ps = Inr r"
  shows "FullMethod r = ro_name ro"
proof -
  let ?P = "\<lambda>ro. ro_request ro rt G req ps = Inr r \<longrightarrow> FullMethod r = ro_name ro"
  have "list_all ?P routes"
    unfolding routes_def register_defs list_all_append list.pred_inject append_Cons append_Nil
    by (intro conjI list.pred_inject(1); auto simp: request_defs andThen_Inr Let_def)
  with assms show ?thesis by (simp add: list_all_iff)
qed

lemma reads_captured:
  assumes "ro \<in> set routes" and "\<forall>name \<in> set (captures (ro_pattern ro)). ps name = ps' name"
  shows "ro_request ro rt G req ps = ro_request ro rt G req ps'"
proof -
  let ?P = "\<lambda>ro. (\<forall>name \<in> set (captures (ro_pattern ro)). ps name = ps' name) \<longrightarrow>
    ro_request ro rt G req ps = ro_request ro rt G req ps'"
  have "list_all ?P routes"
    unfolding routes_def register_defs list_all_append list.pred_inject append_Cons append_Nil
    by (intro conjI list.pred_inject(1); clarsimp simp: captures_def pattern_defs request_defs pathString_def pathField_def)
  with assms show ?thesis by (simp add: list_all_iff)
qed

lemma names_distinct: "distinct (map ro_name routes)"
  by (simp add: routes_def register_defs)

lemma routes_distinct: "distinct (map (\<lambda>ro. (ro_method ro, ro_pattern ro)) routes)"
  by (simp add: routes_def register_defs pattern_defs)

lemma route_of: "\<exists>ro \<in> set routes. ro_name ro = FullMethod r"
proof -
  have "FullMethod r \<in> set (map ro_name routes)"
    unfolding routes_def register_defs append_Cons append_Nil list.map route.simps by (cases r) simp_all
  then show ?thesis by (metis (no_types, lifting) imageE list.set_map)
qed

text \<open>The genealogy a route captures is the third component of the path: after \<open>v1\<close> and \<open>g\<close> or \<open>genealogies\<close>.\<close>

lemma butlast_third: "butlast xs = a # b # c # cs \<Longrightarrow> xs ! Suc (Suc 0) = c"
  by (cases xs rule: rev_cases) simp_all

lemma genealogy_third:
  assumes "ro \<in> set routes" and "genealogy_param ro \<in> set (captures (ro_pattern ro))"
    and "match_path (ro_pattern ro) comps = Some ps"
  shows "ps (genealogy_param ro) = Some (comps ! 2)"
proof -
  let ?P = "\<lambda>ro. genealogy_param ro \<in> set (captures (ro_pattern ro)) \<longrightarrow> match_path (ro_pattern ro) comps = Some ps \<longrightarrow>
    ps (genealogy_param ro) = Some (comps ! 2)"
  have "list_all ?P routes"
    unfolding routes_def register_defs list_all_append list.pred_inject append_Cons append_Nil
    by (intro conjI list.pred_inject(1);
        auto simp: genealogy_param_def captures_def pattern_defs match_path_def Let_def eval_nat_numeral
          dest!: butlast_third split: list.splits if_splits)
  with assms show ?thesis by (simp add: list_all_iff)
qed

context gateway_lib
begin

lemma genealogy_component:
  assumes "ro \<in> set routes" and "ro_request ro rt G req ps = Inr r"
    and "match_path (ro_pattern ro) comps = Some ps" and "required r = Some (gid, role)"
  shows "gid = comps ! 2"
proof -
  have g: "ps (genealogy_param ro) = Some gid" by (rule genealogy_in_url [OF assms(1,2,4)])
  have "genealogy_param ro \<in> set (captures (ro_pattern ro))"
  proof (rule ccontr)
    assume c: "genealogy_param ro \<notin> set (captures (ro_pattern ro))"
    then have "\<forall>name \<in> set (captures (ro_pattern ro)). ps name = (ps(genealogy_param ro := None)) name" by auto
    from trans [OF sym [OF reads_captured [OF assms(1) this]] assms(2)]
    have "ro_request ro rt G req (ps(genealogy_param ro := None)) = Inr r" .
    from genealogy_in_url [OF assms(1) this assms(4)] show False by simp
  qed
  from genealogy_third [OF assms(1) this assms(3)] g show ?thesis by simp
qed

end

section \<open>Properties\<close>

text \<open>
  C20: the routes of the gateway. No two routes have the same method and pattern; every procedure has
  exactly one route, and the calls of a route are calls of its procedure; and a request function
  depends on no path parameter that the pattern of its route does not capture, so no matched request
  lacks a parameter.
\<close>

theorem gateway_routes:
  "distinct (map (\<lambda>ro. (ro_method ro, ro_pattern ro)) routes) \<and> distinct (map ro_name routes) \<and>
   (\<forall>r. \<exists>ro \<in> set routes. ro_name ro = FullMethod r) \<and>
   (\<forall>ro \<in> set routes. \<forall>rt G req ps r. ro_request ro rt G req ps = Inr r \<longrightarrow> FullMethod r = ro_name ro) \<and>
   (\<forall>ro \<in> set routes. \<forall>rt G req ps ps'. (\<forall>name \<in> set (captures (ro_pattern ro)). ps name = ps' name) \<longrightarrow>
      ro_request ro rt G req ps = ro_request ro rt G req ps')"
  using routes_distinct names_distinct route_of call_of_route reads_captured by blast

text \<open>A runtime library for concrete requests: messages without fields in body or query.\<close>

fun sim_match :: "nat \<Rightarrow> (string \<times> Pattern) list \<Rightarrow> http_Request \<Rightarrow> (nat \<times> pathParams) option" where
  "sim_match i [] req = None"
| "sim_match i ((m, p) # rs) req =
     (case (if h_Method req = m then match_path p (path_components req) else None) of
        Some ps \<Rightarrow> Some (i, ps)
      | None \<Rightarrow> sim_match (Suc i) rs req)"

lemma sim_match_sound:
  "sim_match i rs req = Some (j, ps) \<Longrightarrow>
     i \<le> j \<and> j - i < length rs \<and> match_path (snd (rs ! (j - i))) (path_components req) = Some ps"
proof (induction i rs req rule: sim_match.induct)
  case (2 i m p rs req)
  show ?case
  proof (cases "if h_Method req = m then match_path p (path_components req) else None")
    case None
    with 2 have *: "Suc i \<le> j \<and> j - Suc i < length rs \<and> match_path (snd (rs ! (j - Suc i))) (path_components req) = Some ps"
      by simp
    then have "j - i = Suc (j - Suc i)" by (simp add: Suc_diff_Suc Suc_le_eq)
    with * show ?thesis by simp
  next
    case (Some ps1)
    with 2 have "j = i" "ps1 = ps" by simp_all
    with Some show ?thesis by (simp split: if_splits)
  qed
qed simp

definition sim_codec :: "'m codec" where
  "sim_codec = \<lparr>Decode = (\<lambda>b m. (None, m)), PopulateFieldFromPath = (\<lambda>m n v. Inl (ErrExt ''unsupported'')),
     PopulateQueryParameters = (\<lambda>m f fl. Inr m)\<rparr>"

definition sim_gateway :: gateway where
  "sim_gateway = 
     \<lparr>gw_GetPersonRequest = sim_codec, gw_ListPersonsRequest = sim_codec,
      gw_GetRelationshipRequest = sim_codec, gw_ListRelationshipsRequest = sim_codec,
      gw_GetSourceRequest = sim_codec, gw_ListSourcesRequest = sim_codec, gw_GetProposalRequest = sim_codec,
      gw_ListProposalsRequest = sim_codec, gw_CreateProposalRequest = sim_codec, gw_TransitionRequest = sim_codec,
      gw_BulkRejectRequest = sim_codec, gw_FindPathsRequest = sim_codec, gw_NKCARequest = sim_codec,
      gw_CreateGenealogyRequest = sim_codec, gw_ListGenealogiesRequest = sim_codec,
      gw_GetGenealogyRequest = sim_codec, gw_UpdateVisibilityRequest = sim_codec,
      gw_DeleteGenealogyRequest = sim_codec, gw_UpsertMembershipRequest = sim_codec,
      gw_RemoveMemberRequest = sim_codec, gw_LeaveGenealogyRequest = sim_codec, gw_BanUserRequest = sim_codec,
      gw_UnbanUserRequest = sim_codec, gw_ListMembersRequest = sim_codec\<rparr>"

definition sim_runtime :: runtime where
  "sim_runtime = \<lparr>rt_String = Inr, rt_ParseForm = (\<lambda>req. Inr []), rt_Error = (\<lambda>e. []),
     rt_AnnotateContext = (\<lambda>req m. Inr \<lparr>ctx_Identity = None,
       ctx_md = (\<lambda>k. case map_of (h_Header req) k of Some vs \<Rightarrow> vs | None \<Rightarrow> []), ctx_peer = Some ''127.0.0.1''\<rparr>),
     rt_AnnotateIncomingContext = (\<lambda>req m. Inr \<lparr>ctx_Identity = None,
       ctx_md = (\<lambda>k. case map_of (h_Header req) k of Some vs \<Rightarrow> vs | None \<Rightarrow> []), ctx_peer = None\<rparr>),
     rt_Match = sim_match 0\<rparr>"

interpretation sim_persons: message_lib "sim_codec :: pb_GetPersonRequest codec" GetPersonRequest_GenealogyId
  by unfold_locales (simp_all add: sim_codec_def)

interpretation sim_gw: gateway_lib sim_runtime sim_gateway
proof unfold_locales
  show "i < length rs \<and> match_path (snd (rs ! i)) (path_components req) = Some ps"
    if "rt_Match sim_runtime rs req = Some (i, ps)" for rs req i ps
    using sim_match_sound [of 0 rs req i ps] that by (simp add: sim_runtime_def)
qed (simp_all add: sim_runtime_def sim_gateway_def sim_codec_def)

definition sim_request :: http_Request where
  "sim_request = \<lparr>h_Method = ''GET'', h_Path = ''/v1/genealogies/g2/members'', h_Header = [(''authorization'', [''Bearer good''])],
     h_Body = []\<rparr>"

definition sim_route :: route where
  "sim_route = \<lparr>ro_method = ''GET'', ro_pattern = pattern_Genealogies_ListMembers_0,
     ro_name = ''/linea.v1.Genealogies/ListMembers'', ro_path = ''/v1/genealogies/{genealogy_id}/members'',
     ro_request = request_Genealogies_ListMembers_0\<rparr>"

lemma sim_route: "sim_route \<in> set routes" "captures (ro_pattern sim_route) = [''genealogy_id'']"
  by (simp_all add: sim_route_def routes_def RegisterGenealogiesHandlerClient_def
      route_Genealogies_ListMembers_0_def captures_def pattern_Genealogies_ListMembers_0_def)

theorem gateway_routes_witness:
  "ro_request sim_route sim_runtime sim_gateway sim_request [''genealogy_id'' \<mapsto> ''g2'', ''id'' \<mapsto> ''g1''] =
   ro_request sim_route sim_runtime sim_gateway sim_request [''genealogy_id'' \<mapsto> ''g2'']"
  by (rule gateway_routes [THEN conjunct2, THEN conjunct2, THEN conjunct2, THEN conjunct2, THEN bspec, OF sim_route(1), rule_format])
    (simp add: sim_route(2))

end
