(* ===== verification/Env_Config.thy ===== *)
theory Env_Config
  imports Prelude
begin

text \<open>
  The configuration (\<open>internal/config/config.go\<close>). The environment is a partial map from names
  to values.
\<close>

type_synonym environ = "string \<rightharpoonup> string"

record server_Config =
  c_GRPCAddr :: string
  c_HTTPAddr :: string
  c_DataDir :: string
  c_AuthMode :: string
  c_OIDCIssuers :: "string list"
  c_OIDCAudiences :: "string list"
  c_RoleClaim :: string
  c_LogLevel :: string

definition os_Getenv :: "environ \<Rightarrow> string \<Rightarrow> string" where
  "os_Getenv env k = (case env k of Some v \<Rightarrow> v | None \<Rightarrow> [])"

definition getEnv :: "environ \<Rightarrow> string \<Rightarrow> string \<Rightarrow> string" where
  "getEnv env k def = (case env k of Some v \<Rightarrow> if v \<noteq> [] then v else def | None \<Rightarrow> def)"

definition splitCSV :: "string \<Rightarrow> string list" where
  "splitCSV s =
     (if s = [] then []
      else filter (\<lambda>p. p \<noteq> []) (map TrimSpace (Split (CHR '','') s)))"

definition FromEnv :: "environ \<Rightarrow> err + server_Config" where
  "FromEnv env =
     (let c = \<lparr>c_GRPCAddr = getEnv env ''LINEA_GRPC_ADDR'' '':9090'',
               c_HTTPAddr = getEnv env ''LINEA_HTTP_ADDR'' '':8080'',
               c_DataDir = getEnv env ''LINEA_DATA_DIR'' ''./.devdata'',
               c_AuthMode = ToLower (getEnv env ''LINEA_AUTH_MODE'' ''oidc''),
               c_OIDCIssuers = splitCSV (os_Getenv env ''LINEA_OIDC_ISSUER''),
               c_OIDCAudiences = splitCSV (os_Getenv env ''LINEA_OIDC_AUDIENCE''),
               c_RoleClaim = getEnv env ''LINEA_OIDC_ROLE_CLAIM'' ''groups'',
               c_LogLevel = getEnv env ''LINEA_LOG_LEVEL'' ''info''\<rparr> in
      if c_AuthMode c \<noteq> ''oidc'' \<and> c_AuthMode c \<noteq> ''disabled''
      then Inl (ErrNew (''LINEA_AUTH_MODE must be oidc|disabled, got '' @ Quote (c_AuthMode c)))
      else if c_AuthMode c = ''oidc'' \<and> (c_OIDCIssuers c = [] \<or> c_OIDCAudiences c = [])
      then Inl (ErrNew ''LINEA_OIDC_ISSUER and LINEA_OIDC_AUDIENCE are required when LINEA_AUTH_MODE=oidc'')
      else if c_AuthMode c = ''oidc'' \<and> length (c_OIDCIssuers c) \<noteq> length (c_OIDCAudiences c)
      then Inl (ErrNew (''LINEA_OIDC_ISSUER has '' @ decimal (length (c_OIDCIssuers c)) @
             '' entries but LINEA_OIDC_AUDIENCE has '' @ decimal (length (c_OIDCAudiences c)) @ '' (must match)''))
      else Inr c)"

definition AuthDisabled :: "server_Config \<Rightarrow> bool" where
  "AuthDisabled c = (c_AuthMode c = ''disabled'')"

text \<open>\<open>strconv.Atoi\<close> in 64 bits: an optional sign and decimal digits, in range.\<close>

fun digits :: "string \<Rightarrow> int \<Rightarrow> int option" where
  "digits [] n = Some n"
| "digits (c # cs) n =
     (if 48 \<le> (of_char c :: nat) \<and> (of_char c :: nat) \<le> 57
      then digits cs (10 * n + int (of_char c - 48)) else None)"

definition Atoi :: "string \<Rightarrow> int option" where
  "Atoi s =
     (let (neg, t) = (case s of
            c # cs \<Rightarrow> if c = CHR ''-'' then (True, cs) else if c = CHR ''+'' then (False, cs) else (False, s)
          | [] \<Rightarrow> (False, s)) in
      if t = [] then None
      else case digits t 0 of
             None \<Rightarrow> None
           | Some n \<Rightarrow> (let i = (if neg then - n else n) in if - (2 ^ 63) \<le> i \<and> i < 2 ^ 63 then Some i else None))"

definition MustGetInt :: "environ \<Rightarrow> string \<Rightarrow> int \<Rightarrow> int" where
  "MustGetInt env k def =
     (let v = os_Getenv env k in
      if v \<noteq> [] then (case Atoi v of Some n \<Rightarrow> n | None \<Rightarrow> def) else def)"

section \<open>Lemmas\<close>

text \<open>Text without white space at its ends is what \<open>TrimSpace\<close> leaves alone.\<close>

lemma strip_front_id: "(\<And>w. w \<in> set ws \<Longrightarrow> w = [] \<or> \<not> prefix w s) \<Longrightarrow> strip_front ws s = s"
proof -
  assume "\<And>w. w \<in> set ws \<Longrightarrow> w = [] \<or> \<not> prefix w s"
  then have "find (\<lambda>w. w \<noteq> [] \<and> prefix w s) ws = None" by (auto simp: find_None_iff)
  then show ?thesis by (subst strip_front.simps) simp
qed

definition trimmed :: "string \<Rightarrow> bool" where
  "trimmed s \<longleftrightarrow> TrimSpace s = s"

lemma strip_front_prefix_free:
  assumes "prefix s t" and "\<And>w. w \<in> set ws \<Longrightarrow> w = [] \<or> \<not> prefix w t"
  shows "strip_front ws s = s"
  using assms by (intro strip_front_id) (meson prefix_order.trans)

lemma TrimSpace_idem: "TrimSpace (TrimSpace s) = TrimSpace s"
proof -
  let ?f = "strip_front space_seqs s"
  let ?t = "strip_front (map rev space_seqs) (rev ?f)"
  have ne: "w \<noteq> []" if "w \<in> set space_seqs" for w using that by (auto simp: space_seqs_def)
  have clean: "\<not> prefix w ?f" if "w \<in> set space_seqs" for w using strip_front_clean [OF that ne [OF that]] .
  have "prefix (rev ?t) ?f" using strip_front_suffix [of "map rev space_seqs" "rev ?f"] by (simp add: suffix_to_prefix)
  then have 1: "strip_front space_seqs (rev ?t) = rev ?t"
    by (rule strip_front_prefix_free) (use clean in blast)
  have "\<not> prefix (rev w) ?t" if "w \<in> set space_seqs" for w
    using strip_front_clean [of "rev w" "map rev space_seqs" "rev ?f"] that ne [OF that] by simp
  then have 2: "strip_front (map rev space_seqs) ?t = ?t" by (intro strip_front_id) auto
  show ?thesis using 1 2 by (simp add: TrimSpace_def)
qed

lemma Split_word: "sep \<notin> set w \<Longrightarrow> Split sep (w @ sep # s) = w # Split sep s"
  by (induction w) auto

lemma Split_last: "sep \<notin> set w \<Longrightarrow> Split sep w = [w]"
  by (induction w) auto

fun join_csv :: "string list \<Rightarrow> string" where
  "join_csv [] = []"
| "join_csv [w] = w"
| "join_csv (w # ws) = w @ CHR '','' # join_csv ws"

lemma Split_join_csv:
  "ws \<noteq> [] \<Longrightarrow> \<forall>w \<in> set ws. CHR '','' \<notin> set w \<Longrightarrow> Split (CHR '','') (join_csv ws) = ws"
  by (induction ws rule: join_csv.induct) (auto simp: Split_word Split_last)

lemma splitCSV_words: "w \<in> set (splitCSV s) \<Longrightarrow> w \<noteq> [] \<and> TrimSpace w = w"
  by (auto simp: splitCSV_def TrimSpace_idem split: if_splits)

section \<open>Properties\<close>

text \<open>
  Lists in the environment. Joining trimmed, non-empty words without commas and splitting gives
  the words back, and whatever the text, the words \<open>splitCSV\<close> returns are trimmed and non-empty.
\<close>

theorem splitCSV_roundtrip:
  "((\<forall>w \<in> set ws. w \<noteq> [] \<and> TrimSpace w = w \<and> CHR '','' \<notin> set w) \<longrightarrow> splitCSV (join_csv ws) = ws) \<and>
   (\<forall>w \<in> set (splitCSV s). w \<noteq> [] \<and> TrimSpace w = w)"
proof (intro conjI impI)
  assume ws: "\<forall>w \<in> set ws. w \<noteq> [] \<and> TrimSpace w = w \<and> CHR '','' \<notin> set w"
  show "splitCSV (join_csv ws) = ws"
  proof (cases "ws = []")
    case False
    have "join_csv ws \<noteq> []" using False ws by (cases ws rule: join_csv.cases) auto
    moreover have "map TrimSpace ws = ws" using ws by (intro map_idI) simp
    moreover have "filter (\<lambda>p. p \<noteq> []) ws = ws" using ws by (simp add: filter_id_conv)
    ultimately show ?thesis using Split_join_csv [OF False] ws by (simp add: splitCSV_def)
  qed (simp add: splitCSV_def)
next
  show "\<forall>w \<in> set (splitCSV s). w \<noteq> [] \<and> TrimSpace w = w" using splitCSV_words by blast
qed

theorem splitCSV_roundtrip_witness: "splitCSV (join_csv [''https://a'', ''https://b'']) = [''https://a'', ''https://b'']"
proof -
  have "TrimSpace ''https://a'' = ''https://a''" "TrimSpace ''https://b'' = ''https://b''" by code_simp+
  then show ?thesis using conjunct1 [OF splitCSV_roundtrip [of "[''https://a'', ''https://b'']" "[]"]] by simp
qed

text \<open>
  A configuration that \<open>FromEnv\<close> accepts is usable: the authentication mode is one of the two, and
  in the mode with tokens there is at least one issuer, each issuer has its audience, and no entry is
  empty or padded.
\<close>

theorem FromEnv_sound:
  assumes "FromEnv env = Inr c"
  shows "AuthDisabled c \<or> c_AuthMode c = ''oidc'' \<and> c_OIDCIssuers c \<noteq> [] \<and>
    length (c_OIDCIssuers c) = length (c_OIDCAudiences c) \<and>
    (\<forall>w \<in> set (c_OIDCIssuers c) \<union> set (c_OIDCAudiences c). w \<noteq> [] \<and> TrimSpace w = w)"
proof (cases "AuthDisabled c")
  case False
  have "c_OIDCIssuers c = splitCSV (os_Getenv env ''LINEA_OIDC_ISSUER'')"
    "c_OIDCAudiences c = splitCSV (os_Getenv env ''LINEA_OIDC_AUDIENCE'')"
    using assms by (auto simp: FromEnv_def Let_def split: if_splits)
  then have "\<forall>w \<in> set (c_OIDCIssuers c) \<union> set (c_OIDCAudiences c). w \<noteq> [] \<and> TrimSpace w = w"
    using splitCSV_words by (simp only: Un_iff) blast
  moreover have "c_AuthMode c = ''oidc''" "c_OIDCIssuers c \<noteq> []" "length (c_OIDCIssuers c) = length (c_OIDCAudiences c)"
    using assms False by (auto simp: FromEnv_def Let_def AuthDisabled_def split: if_splits)
  ultimately show ?thesis by blast
qed simp

definition sim_env :: environ where
  "sim_env = [''LINEA_OIDC_ISSUER'' \<mapsto> ''https://a, https://b'', ''LINEA_OIDC_AUDIENCE'' \<mapsto> ''x,y'']"

definition from_env_ok :: "environ \<Rightarrow> bool" where
  "from_env_ok env = (case FromEnv env of Inr c \<Rightarrow> \<not> AuthDisabled c | Inl e \<Rightarrow> False)"

theorem FromEnv_sound_witness:
  "\<exists>c. FromEnv sim_env = Inr c \<and> c_OIDCIssuers c \<noteq> [] \<and> length (c_OIDCIssuers c) = length (c_OIDCAudiences c)"
proof -
  have "from_env_ok sim_env" by code_simp
  then obtain c where c: "FromEnv sim_env = Inr c" "\<not> AuthDisabled c" by (auto simp: from_env_ok_def split: sum.splits)
  with FromEnv_sound [OF c(1)] show ?thesis by auto
qed

end
