(* ===== verification/Wiring.thy ===== *)
theory Wiring
  imports Gateway Env_Config
begin

text \<open>
  How the parts are put together (\<open>internal/server/server.go\<close>, \<open>cmd/lineasrv/main.go\<close>): the
  coarse role map, a call from the interceptors down to its procedure, and the construction,
  shutdown and main function of the server. The host (opening the database, OIDC discovery,
  dialling the gRPC endpoint, listening, waiting) is a parameter.
\<close>

section \<open>Coarse roles\<close>

definition buildLegacyRoleMap :: "string \<rightharpoonup> auth_Role" where
  "buildLegacyRoleMap = map_of
     [(''/linea.v1.Persons/GetPerson'', auth_RoleViewer),
      (''/linea.v1.Persons/ListPersons'', auth_RoleViewer),
      (''/linea.v1.Relationships/GetRelationship'', auth_RoleViewer),
      (''/linea.v1.Relationships/ListRelationships'', auth_RoleViewer),
      (''/linea.v1.Sources/GetSource'', auth_RoleViewer),
      (''/linea.v1.Sources/ListSources'', auth_RoleViewer),
      (''/linea.v1.Queries/FindPaths'', auth_RoleViewer),
      (''/linea.v1.Queries/NKCA'', auth_RoleViewer),
      (''/linea.v1.Proposals/GetProposal'', auth_RoleViewer),
      (''/linea.v1.Proposals/ListProposals'', auth_RoleViewer),
      (''/linea.v1.Proposals/CreateProposal'', auth_RoleContributor),
      (''/linea.v1.Proposals/Submit'', auth_RoleContributor),
      (''/linea.v1.Proposals/Withdraw'', auth_RoleContributor),
      (''/linea.v1.Proposals/Claim'', auth_RoleContributor),
      (''/linea.v1.Proposals/Accept'', auth_RoleContributor),
      (''/linea.v1.Proposals/Reject'', auth_RoleContributor),
      (''/linea.v1.Genealogies/ListGenealogies'', auth_RoleViewer),
      (''/linea.v1.Genealogies/GetGenealogy'', auth_RoleViewer),
      (''/linea.v1.Genealogies/ListMembers'', auth_RoleViewer),
      (''/linea.v1.Genealogies/CreateGenealogy'', auth_RoleViewer),
      (''/linea.v1.Genealogies/LeaveGenealogy'', auth_RoleViewer),
      (''/linea.v1.Genealogies/UpdateVisibility'', auth_RoleViewer),
      (''/linea.v1.Genealogies/DeleteGenealogy'', auth_RoleViewer),
      (''/linea.v1.Genealogies/UpsertMembership'', auth_RoleViewer),
      (''/linea.v1.Genealogies/RemoveMember'', auth_RoleViewer),
      (''/linea.v1.Genealogies/BanUser'', auth_RoleViewer),
      (''/linea.v1.Genealogies/UnbanUser'', auth_RoleViewer)]"

definition noAuth :: "string \<Rightarrow> bool" where
  "noAuth m = (m = ''/linea.v1.Server/Version'')"

section \<open>A call from end to end\<close>

text \<open>The procedure behind the interceptors: its subject is the identity in the context.\<close>

definition procedure ::
  "('fs, 'h, 'rtx, 'wtx, 'path, 'anc) core \<Rightarrow> ('db, 'tx, 'fs, 'h) platformDeps \<Rightarrow> string \<Rightarrow> callenv \<Rightarrow> rpc \<Rightarrow>
   (response, ('db, 'h, 'fs) server) call" where
  "procedure C D ver q r ctx s =
     map_option (map_outcome (\<lambda>(x, inner). (x, s\<lparr>fe_inner := inner\<rparr>)))
       (serve C D ver (q\<lparr>q_Subject := id_Subject (IdentityOf ctx)\<rparr>) r (fe_inner s))"

definition unary ::
  "('fs, 'h, 'rtx, 'wtx, 'path, 'anc) core \<Rightarrow> ('db, 'tx, 'fs, 'h) platformDeps \<Rightarrow> ('prov, 'tok) oidc \<Rightarrow>
   'prov Verifier option \<Rightarrow> string \<Rightarrow> callenv \<Rightarrow> int \<Rightarrow> rpc \<Rightarrow> (response, ('db, 'h, 'fs) server) call" where
  "unary C D X verifier ver q now r =
     (let m = FullMethod r; Error = Error_String C in
      LoggingInterceptor m
        (AuthInterceptor Error X verifier noAuth m
          (RateLimitInterceptor now SubjectOrPeerKey m
            (RoleInterceptor buildLegacyRoleMap m
              (ErrorInterceptor Error m
                (procedure C D ver q r))))))"

lemma procedure_Ret:
  "procedure C D ver q r ctx s = Some (Ret (x, s')) \<longleftrightarrow>
     (\<exists>inner. serve C D ver (q\<lparr>q_Subject := id_Subject (IdentityOf ctx)\<rparr>) r (fe_inner s) = Some (Ret (x, inner)) \<and>
        s' = s\<lparr>fe_inner := inner\<rparr>)"
  unfolding procedure_def map_handled_Ret by auto

lemma noAuth_iff: "noAuth (FullMethod r) \<longleftrightarrow> r = Server_Version"
  by (cases r) (simp_all add: noAuth_def)

text \<open>What lies between the authentication and the procedure.\<close>

lemma inner_chain_Ret:
  assumes "RateLimitInterceptor now SubjectOrPeerKey m (RoleInterceptor roles m (ErrorInterceptor Error m h)) ctx s = Some (Ret (x, s'))"
  shows "\<exists>s1. fe_inner s1 = fe_inner s \<and>
    (fe_limiter s1 = fe_limiter s \<or> fe_limiter s1 = snd (Allow now (SubjectOrPeerKey ctx) (fe_limiter s))) \<and>
    (s' = s1 \<and> (\<exists>c t. x = Inl (StatusError c t)) \<or>
     (\<forall>mn. roles m = Some mn \<longrightarrow> mn \<le> id_Role (IdentityOf ctx)) \<and>
       ErrorInterceptor Error m h ctx s1 = Some (Ret (x, s')))"
proof -
  from RateLimitInterceptor_Ret [OF assms] obtain s1 where s1: "fe_inner s1 = fe_inner s"
    "fe_limiter s1 = fe_limiter s \<or> fe_limiter s1 = snd (Allow now (SubjectOrPeerKey ctx) (fe_limiter s))"
    and or: "x = Inl (StatusError ResourceExhausted ''rate limit exceeded'') \<and> s' = s1 \<or>
      RoleInterceptor roles m (ErrorInterceptor Error m h) ctx s1 = Some (Ret (x, s'))" by blast
  from or have "s' = s1 \<and> (\<exists>c t. x = Inl (StatusError c t)) \<or>
     (\<forall>mn. roles m = Some mn \<longrightarrow> mn \<le> id_Role (IdentityOf ctx)) \<and> ErrorInterceptor Error m h ctx s1 = Some (Ret (x, s'))"
    using RoleInterceptor_Ret by blast
  with s1 show ?thesis by blast
qed

lemma unary_Ret:
  assumes "unary C D X (Some v) ver q now r ctx s = Some (Ret (x, s'))" and "r \<noteq> Server_Version"
  shows "(\<exists>c t. x = Inl (StatusError c t)) \<and> fe_inner s' = fe_inner s \<or>
    (\<exists>i s1 s2. bearerToken (ctx_md ctx) \<noteq> [] \<and> VerifyToken X v (bearerToken (ctx_md ctx)) = Inr i \<and>
       (\<forall>mn. buildLegacyRoleMap (FullMethod r) = Some mn \<longrightarrow> mn \<le> id_Role i) \<and> fe_inner s1 = fe_inner s \<and>
       ErrorInterceptor (Error_String C) (FullMethod r) (procedure C D ver q r) (WithIdentity ctx i) s1 = Some (Ret (x, s2)) \<and>
       fe_inner s' = fe_inner s2)"
proof -
  let ?m = "FullMethod r" and ?E = "Error_String C"
  have na: "\<not> noAuth ?m" using assms(2) by (simp add: noAuth_iff)
  from assms(1) obtain s2 where s2: "AuthInterceptor ?E X (Some v) noAuth ?m (RateLimitInterceptor now SubjectOrPeerKey ?m
      (RoleInterceptor buildLegacyRoleMap ?m (ErrorInterceptor ?E ?m (procedure C D ver q r)))) ctx s = Some (Ret (x, s2))"
    and s': "fe_inner s' = fe_inner s2"
    by (auto simp: unary_def Let_def LoggingInterceptor_Ret)
  from AuthInterceptor_Some [OF s2 na] show ?thesis
  proof (elim disjE exE conjE)
    fix i
    assume i: "bearerToken (ctx_md ctx) \<noteq> []" "VerifyToken X v (bearerToken (ctx_md ctx)) = Inr i"
      and run: "RateLimitInterceptor now SubjectOrPeerKey ?m (RoleInterceptor buildLegacyRoleMap ?m
        (ErrorInterceptor ?E ?m (procedure C D ver q r))) (WithIdentity ctx i) s = Some (Ret (x, s2))"
    have id: "IdentityOf (WithIdentity ctx i) = i" by (simp add: IdentityOf_def WithIdentity_def)
    from inner_chain_Ret [OF run, unfolded id] obtain s1 where s1: "fe_inner s1 = fe_inner s"
      and or: "s2 = s1 \<and> (\<exists>c t. x = Inl (StatusError c t)) \<or> (\<forall>mn. buildLegacyRoleMap ?m = Some mn \<longrightarrow> mn \<le> id_Role i) \<and>
        ErrorInterceptor ?E ?m (procedure C D ver q r) (WithIdentity ctx i) s1 = Some (Ret (x, s2))" by blast
    from or show ?thesis
    proof (elim disjE conjE)
      assume "s2 = s1" "\<exists>c t. x = Inl (StatusError c t)"
      with s1 s' show ?thesis by simp
    next
      assume "\<forall>mn. buildLegacyRoleMap ?m = Some mn \<longrightarrow> mn \<le> id_Role i"
        "ErrorInterceptor ?E ?m (procedure C D ver q r) (WithIdentity ctx i) s1 = Some (Ret (x, s2))"
      with i s1 s' show ?thesis by (intro disjI2 exI [of _ i] exI [of _ s1] exI [of _ s2]) simp
    qed
  qed (use s' in auto)
qed

text \<open>What a call can do to the state: one call of the limiter, one of the procedure, for some subject.\<close>

definition inner_effect where
  "inner_effect C D ver q r s s' \<longleftrightarrow> fe_inner s' = fe_inner s \<or>
     (\<exists>sub y. serve C D ver (q\<lparr>q_Subject := sub\<rparr>) r (fe_inner s) = Some (Ret (y, fe_inner s')))"

definition has_effect :: "('a, 's) call \<Rightarrow> ('s frontend \<Rightarrow> 's frontend \<Rightarrow> bool) \<Rightarrow> bool" where
  "has_effect h R \<longleftrightarrow> (\<forall>ctx s x s'. h ctx s = Some (Ret (x, s')) \<longrightarrow> R s s')"

lemma unary_effect:
  fixes C :: "('fs, 'h, 'rtx, 'wtx, 'path, 'anc) core" and D :: "('db, 'tx, 'fs, 'h) platformDeps"
    and s :: "('db, 'h, 'fs) server frontend"
  assumes "unary C D X verifier ver q now r ctx s = Some (Ret (x, s'))"
  shows "inner_effect C D ver q r s s' \<and>
    (fe_limiter s' = fe_limiter s \<or> (\<exists>k. fe_limiter s' = snd (Allow now k (fe_limiter s)))) \<and>
    fe_log s' = fe_log s @ [log_line (FullMethod r) ctx x]"
proof -
  let ?m = "FullMethod r" and ?E = "Error_String C"
  let ?R = "\<lambda>s s'. fe_limiter s' = fe_limiter s \<and> fe_log s' = fe_log s \<and> inner_effect C D ver q r s s'"
  let ?R2 = "\<lambda>s s'. inner_effect C D ver q r s s' \<and> fe_log s' = fe_log s \<and>
    (fe_limiter s' = fe_limiter s \<or> (\<exists>k. fe_limiter s' = snd (Allow now k (fe_limiter s))))"
  let ?h1 = "ErrorInterceptor ?E ?m (procedure C D ver q r)"
  let ?h2 = "RoleInterceptor buildLegacyRoleMap ?m ?h1"
  let ?h3 = "RateLimitInterceptor now SubjectOrPeerKey ?m ?h2"
  let ?h4 = "AuthInterceptor ?E X verifier noAuth ?m ?h3"
  have 1: "has_effect ?h1 ?R"
    unfolding has_effect_def inner_effect_def by (auto dest!: ErrorInterceptor_state simp: procedure_Ret)
  have 2: "has_effect ?h2 ?R"
    using 1 unfolding has_effect_def by (auto dest!: RoleInterceptor_Ret simp: inner_effect_def)
  have 3: "has_effect ?h3 ?R2"
    unfolding has_effect_def
  proof (intro allI impI)
    fix ctx s x s' assume "?h3 ctx s = Some (Ret (x, s'))"
    from RateLimitInterceptor_Ret [OF this] obtain s1 where s1: "fe_inner s1 = fe_inner s" "fe_log s1 = fe_log s"
      "fe_limiter s1 = fe_limiter s \<or> fe_limiter s1 = snd (Allow now (SubjectOrPeerKey ctx) (fe_limiter s))"
      and or: "s' = s1 \<or> ?h2 ctx s1 = Some (Ret (x, s'))" by blast
    from or have "?R s1 s'" using 2 unfolding has_effect_def by (auto simp: inner_effect_def)
    with s1 show "?R2 s s'" by (auto simp: inner_effect_def)
  qed
  have 4: "has_effect ?h4 ?R2"
    using 3 unfolding has_effect_def AuthInterceptor_def Let_def
    by (auto split: option.splits sum.splits if_splits simp: inner_effect_def)
  show ?thesis
    using assms 4 unfolding unary_def Let_def LoggingInterceptor_Ret has_effect_def by (fastforce simp: inner_effect_def)
qed

section \<open>The server\<close>

text \<open>
  Besides the fields of the source's \<open>Server\<close>, the record holds what \<open>New\<close> hands to the interceptors
  and the services: the verifier, the decision cache, the limits and the limiter. The gRPC and HTTP
  servers themselves are library objects.
\<close>

datatype resource = RPlatform | RTenants | RSweeper

record ('db, 'prov, 'tok) host =
  open_db :: "string \<Rightarrow> bool \<Rightarrow> err + 'db"
  oidc_lib :: "('prov, 'tok) oidc"
  NewClient :: "string \<Rightarrow> err + unit" \<comment> \<open>dialling the gRPC endpoint\<close>

record ('db, 'h, 'prov) Server =
  srv_cfg :: server_Config
  srv_platform :: "'db option"
  srv_tenants :: "'h Manager"
  srv_verifier :: "'prov Verifier option"
  srv_cache :: cache
  srv_limits :: Limits
  srv_limiter :: Bucket
  srv_mux :: "route list"
  srv_ready :: bool

definition endpoint_of :: "string \<Rightarrow> string" where
  "endpoint_of grpcAddr = (if prefix '':'' grpcAddr then ''127.0.0.1'' @ grpcAddr else grpcAddr)"

fun register_all :: "(string \<Rightarrow> err + route list) list \<Rightarrow> string \<Rightarrow> err + route list" where
  "register_all [] endpoint = Inr []"
| "register_all (r # regs) endpoint =
     (case r endpoint of
        Inl e \<Rightarrow> Inl (Wrap ''gateway: register'' e)
      | Inr rs \<Rightarrow> map_sum id ((@) rs) (register_all regs endpoint))"

definition registerHandlers :: "(string \<Rightarrow> err + unit) \<Rightarrow> string \<Rightarrow> err + route list" where
  "registerHandlers dial grpcAddr =
     register_all
       [RegisterServerHandlerFromEndpoint dial,
        RegisterPersonsHandlerFromEndpoint dial,
        RegisterRelationshipsHandlerFromEndpoint dial,
        RegisterSourcesHandlerFromEndpoint dial,
        RegisterProposalsHandlerFromEndpoint dial,
        RegisterQueriesHandlerFromEndpoint dial,
        RegisterGenealogiesHandlerFromEndpoint dial]
       (endpoint_of grpcAddr)"

definition auth_config_of :: "server_Config \<Rightarrow> auth_Config" where
  "auth_config_of cfg =
     \<lparr>ac_IssuerURLs = c_OIDCIssuers cfg, ac_Audiences = c_OIDCAudiences cfg, ac_RoleClaim = c_RoleClaim cfg,
      ac_RoleMap = None, ac_IssuerURL = [], ac_Audience = []\<rparr>"

text \<open>The second component is the set of resources open when \<open>New\<close> returns.\<close>

definition server_New ::
  "('db, 'prov, 'tok) host \<Rightarrow> server_Config \<Rightarrow> (err + ('db, 'h, 'prov) Server) \<times> resource set" where
  "server_New H cfg =
     (case platform_Open (open_db H) (filepath_Join (c_DataDir cfg) ''platform'') of
        Inl e \<Rightarrow> (Inl (Wrap ''server: open platform'' e), {})
      | Inr pStore \<Rightarrow>
     (let opened = {RPlatform} in
      case New \<lparr>cfg_Root = filepath_Join (c_DataDir cfg) ''genealogies'', cfg_MaxOpen = 64\<rparr> of
        Inl e \<Rightarrow> (Inl e, opened - {RPlatform})
      | Inr tMgr \<Rightarrow>
     (let opened = insert RTenants opened in
      case (if AuthDisabled cfg then Inr None
            else (case NewVerifier (oidc_lib H) (auth_config_of cfg) of Inl e \<Rightarrow> Inl e | Inr v \<Rightarrow> Inr (Some v))) of
        Inl e \<Rightarrow> (Inl e, opened - {RTenants} - {RPlatform})
      | Inr verifier \<Rightarrow>
     (let rl = rl_New \<lparr>rc_Capacity = 60, rc_RefillPerSecond = 60, rc_IdleTimeout = 0\<rparr>;
          opened = insert RSweeper opened in
      case registerHandlers (NewClient H) (c_GRPCAddr cfg) of
        Inl e \<Rightarrow> (Inl e, opened - {RTenants} - {RPlatform})
      | Inr mux \<Rightarrow>
          (Inr \<lparr>srv_cfg = cfg, srv_platform = pStore, srv_tenants = tMgr, srv_verifier = verifier,
                srv_cache = NewResolver (5 * 10 ^ 9), srv_limits = Default, srv_limiter = rl, srv_mux = mux, srv_ready = False\<rparr>,
           opened)))))"

text \<open>What the procedures share once the server is made, and the state of its front end.\<close>

definition deps_of :: "('db, 'tx) badger \<Rightarrow> ('fs, 'h) corefs \<Rightarrow> ('db, 'h, 'prov) Server \<Rightarrow> ('db, 'tx, 'fs, 'h) platformDeps" where
  "deps_of B F srv = \<lparr>dp_badger = B, dp_store = F, dp_limits = srv_limits srv\<rparr>"

definition frontend_of :: "('db, 'h, 'prov) Server \<Rightarrow> 'db \<Rightarrow> 'fs \<Rightarrow> ('db, 'h, 'fs) server frontend" where
  "frontend_of srv db fs =
     \<lparr>fe_limiter = srv_limiter srv, fe_log = [],
      fe_inner = \<lparr>sv_db = db, sv_cache = srv_cache srv, sv_mgr = srv_tenants srv, sv_fs = fs\<rparr>\<rparr>"

text \<open>
  \<open>Close\<close> collects the errors of its steps; \<open>errors.Join\<close> of none is nil. \<open>shutdown\<close> is the outcome of
  stopping the HTTP server.
\<close>

definition err_list :: "err + unit \<Rightarrow> err list" where
  "err_list r = (case r of Inl e \<Rightarrow> [e] | Inr _ \<Rightarrow> [])"

definition server_Close ::
  "err + unit \<Rightarrow> ('db \<Rightarrow> err + unit) \<Rightarrow> ('fs, 'h) corefs \<Rightarrow> ('db, 'h, 'prov) Server \<Rightarrow> 'fs \<Rightarrow>
   err list \<times> ('db, 'h, 'prov) Server \<times> 'fs" where
  "server_Close shutdown close_db F srv fs =
     (case Close F (srv_tenants srv) fs of
        (r2, tenants', fs') \<Rightarrow>
          (case platform_Close close_db (srv_platform srv) of
             (r3, platform') \<Rightarrow>
               (err_list shutdown @ err_list r2 @ err_list r3,
                srv\<lparr>srv_tenants := tenants', srv_platform := platform'\<rparr>, fs')))"

text \<open>
  What \<open>Run\<close> waits for: the context, or the end of one of the two servers. By the time \<open>Run\<close> returns
  the goroutine of the HTTP server has set \<open>ready\<close>; nothing resets it.
\<close>

datatype run_event = CtxDone | GrpcServe "err + unit" | HttpServe "err + unit"

definition http_ErrServerClosed :: err where
  "http_ErrServerClosed = ErrExt ''http: Server closed''"

definition serve_errors :: "run_event \<Rightarrow> err list" where
  "serve_errors ev =
     (case ev of
        CtxDone \<Rightarrow> []
      | GrpcServe r \<Rightarrow> err_list r
      | HttpServe r \<Rightarrow>
          (case r of Inl e \<Rightarrow> if errors_Is e http_ErrServerClosed then [] else [e] | Inr _ \<Rightarrow> []))"

definition server_Run ::
  "err + unit \<Rightarrow> run_event \<Rightarrow> err + unit \<Rightarrow> ('db \<Rightarrow> err + unit) \<Rightarrow> ('fs, 'h) corefs \<Rightarrow> ('db, 'h, 'prov) Server \<Rightarrow> 'fs \<Rightarrow>
   err list \<times> ('db, 'h, 'prov) Server \<times> 'fs" where
  "server_Run listen ev shutdown close_db F srv fs =
     (case listen of
        Inl e \<Rightarrow> ([Wrap ''server: listen grpc'' e], srv, fs)
      | Inr _ \<Rightarrow>
          (case server_Close shutdown close_db F (srv\<lparr>srv_ready := True\<rparr>) fs of
             (errs, srv', fs') \<Rightarrow> (if ev = CtxDone then errs else serve_errors ev, srv', fs')))"

text \<open>The handler of the HTTP server, on a cleaned path.\<close>

datatype http_reply = Status nat string | ToGateway

definition withHealth :: "('db, 'h, 'prov) Server \<Rightarrow> string \<Rightarrow> http_reply" where
  "withHealth srv path =
     (if path = ''/healthz'' then Status 200 ''ok''
      else if path = ''/readyz'' then (if srv_ready srv then Status 200 ''ready'' else Status 503 [])
      else ToGateway)"

text \<open>The HTTP server: the health endpoints, else the gateway, whose calls go through the gRPC server.\<close>

definition http_serve ::
  "runtime \<Rightarrow> gateway \<Rightarrow> (rpc \<Rightarrow> (response, 's) call) \<Rightarrow> ('db, 'h, 'prov) Server \<Rightarrow> http_Request \<Rightarrow> 's frontend \<Rightarrow>
   ((http_reply + http_answer) \<times> 's frontend) outcome option" where
  "http_serve rt G client srv req s =
     (case withHealth srv (h_Path req) of
        ToGateway \<Rightarrow> map_option (map_outcome (map_prod Inr id)) (rest_serve rt G (srv_mux srv) client req s)
      | reply \<Rightarrow> Some (Ret (Inl reply, s)))"

section \<open>The program\<close>

text \<open>\<open>strings.EqualFold\<close> with a word of ASCII letters other than k and s.\<close>

definition EqualFold :: "string \<Rightarrow> string \<Rightarrow> bool" where
  "EqualFold s t = (map lower_ascii s = map lower_ascii t)"

definition start ::
  "('db, 'prov, 'tok) host \<Rightarrow> environ \<Rightarrow> (err + ('db, 'h, 'prov) Server) \<times> resource set" where
  "start H env =
     (case FromEnv env of
        Inl e \<Rightarrow> (Inl e, {})
      | Inr cfg \<Rightarrow>
          if AuthDisabled cfg \<and> EqualFold (os_Getenv env ''LINEA_ENV'') ''production''
          then (Inl (ErrNew ''LINEA_AUTH_MODE=disabled is forbidden when LINEA_ENV=production''), {})
          else server_New H cfg)"

text \<open>\<open>run\<close> with the deferred \<open>Close\<close>; a server that was never made is not closed.\<close>

definition run ::
  "('db, 'prov, 'tok) host \<Rightarrow> environ \<Rightarrow> err + unit \<Rightarrow> run_event \<Rightarrow> err + unit \<Rightarrow> ('db \<Rightarrow> err + unit) \<Rightarrow> ('fs, 'h) corefs \<Rightarrow> 'fs \<Rightarrow>
   err list \<times> ('db, 'h, 'prov) Server option \<times> 'fs" where
  "run H env listen ev shutdown close_db F fs =
     (case fst (start H env) of
        Inl e \<Rightarrow> ([e], None, fs)
      | Inr srv \<Rightarrow>
          (case server_Run listen ev shutdown close_db F srv fs of
             (errs, srv1, fs1) \<Rightarrow>
               (case server_Close shutdown close_db F srv1 fs1 of (_, srv2, fs2) \<Rightarrow> (errs, Some srv2, fs2))))"

datatype slog_Level = LevelDebug | LevelInfo | LevelWarn | LevelError

definition newLogger :: "string \<Rightarrow> slog_Level" where
  "newLogger lvl =
     (let l = ToLower lvl in
      if l = ''debug'' then LevelDebug
      else if l = ''warn'' then LevelWarn
      else if l = ''error'' then LevelError
      else LevelInfo)"

section \<open>Lemmas\<close>

lemma Close_tenants: "mg_closed (fst (snd (Close F m fs)))"
  by (auto simp: Close_def split: prod.splits)

lemma Close_again: "mg_closed m \<Longrightarrow> Close F m fs = (nil_err, m, fs)"
  by (simp add: Close_def)

lemma server_Close_closes:
  "server_Close shutdown close_db F srv fs = (errs, srv', fs') \<Longrightarrow>
     mg_closed (srv_tenants srv') \<and> srv_platform srv' = None"
  using Close_tenants [of F "srv_tenants srv" fs]
  by (auto simp: server_Close_def platform_Close_def split: prod.splits option.splits)

lemma registerHandlers_eq:
  "registerHandlers dial addr =
     (case dial (endpoint_of addr) of Inl e \<Rightarrow> Inl (Wrap ''gateway: register'' e) | Inr _ \<Rightarrow> Inr routes)"
  by (simp add: registerHandlers_def routes_def from_endpoint_defs andThen_def split: sum.splits)

lemma server_New_Inr:
  assumes "server_New H cfg = (Inr srv, res)"
  shows "res = {RPlatform, RTenants, RSweeper} \<and> srv_cfg srv = cfg \<and> srv_limiter srv = server_bucket \<and>
    (\<exists>db. open_db H (filepath_Join (c_DataDir cfg) ''platform'') (filepath_Join (c_DataDir cfg) ''platform'' = []) = Inr db \<and>
       srv_platform srv = Some db) \<and>
    (if AuthDisabled cfg then srv_verifier srv = None
     else \<exists>v. NewVerifier (oidc_lib H) (auth_config_of cfg) = Inr v \<and> srv_verifier srv = Some v)"
  using assms
  by (auto simp: server_New_def platform_Open_def Let_def server_bucket_def split: sum.splits if_splits)

lemma server_New_Inl:
  assumes "server_New H cfg = (Inl e, res)"
  shows "res \<subseteq> {RSweeper}"
  using assms by (auto simp: server_New_def Let_def split: sum.splits if_splits)

lemma tenants_New_ok: "New \<lparr>cfg_Root = filepath_Join d ''genealogies'', cfg_MaxOpen = 64\<rparr> = Inr m \<Longrightarrow> \<not> mg_closed m"
  by (auto simp: New_def split: if_splits)

lemma server_Close_limiter:
  "server_Close shutdown close_db F srv fs = (errs, srv', fs') \<Longrightarrow> srv_limiter srv' = srv_limiter srv"
  by (auto simp: server_Close_def split: prod.splits)

lemma start_Inr: "start H env = (Inr srv, res) \<Longrightarrow> \<exists>cfg. FromEnv env = Inr cfg \<and> server_New H cfg = (Inr srv, res) \<and>
    \<not> (AuthDisabled cfg \<and> EqualFold (os_Getenv env ''LINEA_ENV'') ''production'')"
  by (auto simp: start_def split: sum.splits if_splits)

lemma server_New_state:
  "server_New H cfg = (Inr srv, res) \<Longrightarrow>
     srv_limits srv = Default \<and> srv_limiter srv = server_bucket \<and> srv_cache srv = NewResolver (5 * 10 ^ 9) \<and> srv_mux srv = routes"
  by (auto simp: server_New_def Let_def server_bucket_def registerHandlers_eq split: sum.splits if_splits)

lemma start_state:
  "start H env = (Inr srv, res) \<Longrightarrow>
     srv_limits srv = Default \<and> srv_limiter srv = server_bucket \<and> srv_cache srv = NewResolver (5 * 10 ^ 9) \<and> srv_mux srv = routes"
  by (auto dest!: start_Inr server_New_state)

lemma run_limiter:
  assumes "fst (start H env) = Inr srv" and "server_Run listen ev shutdown close_db F srv fs = (errs, srv1, fs1)"
    and "server_Close shutdown close_db F srv1 fs1 = (errs', srv2, fs2)"
  shows "\<not> stopped (srv_limiter srv2)"
proof -
  obtain res where "start H env = (Inr srv, res)" using assms(1) by (metis prod.collapse)
  from start_Inr [OF this] server_New_Inr have "srv_limiter srv = server_bucket" by blast
  moreover have "srv_limiter srv1 = srv_limiter srv"
    using assms(2) by (auto simp: server_Run_def split: sum.splits prod.splits dest: server_Close_limiter)
  ultimately show ?thesis using server_Close_limiter [OF assms(3)] by (simp add: server_bucket_def rl_New_def)
qed

section \<open>Starting and stopping\<close>

text \<open>
  C23: starting the server releases what it opened. When \<open>New\<close> fails, the platform store and the tenant
  manager are closed again; when it succeeds, both are open, the limiter runs with the limits of the
  source, and a verifier is present exactly when authentication is not disabled. After \<open>run\<close> returns,
  however it ended, the manager and the store are closed; the sweeper of the limiter is never stopped.
\<close>

theorem start_stop_resources:
  "(\<forall>e res. server_New H cfg = (Inl e :: err + ('db, 'h, 'prov) Server, res) \<longrightarrow> RPlatform \<notin> res \<and> RTenants \<notin> res) \<and>
   (\<forall>(srv :: ('db, 'h, 'prov) Server) res. server_New H cfg = (Inr srv, res) \<longrightarrow> {RPlatform, RTenants} \<subseteq> res \<and>
      srv_platform srv \<noteq> None \<and> srv_limiter srv = server_bucket \<and> (srv_verifier srv = None \<longleftrightarrow> AuthDisabled cfg)) \<and>
   (\<forall>errs (srv :: ('db, 'h, 'prov) Server) fs'. run H env listen ev shutdown close_db F fs = (errs, Some srv, fs') \<longrightarrow>
      mg_closed (srv_tenants srv) \<and> srv_platform srv = None \<and> \<not> stopped (srv_limiter srv))"
proof (intro conjI allI impI)
  show "RPlatform \<notin> res" "RTenants \<notin> res" if "server_New H cfg = (Inl e :: err + ('db, 'h, 'prov) Server, res)" for e res
    using server_New_Inl [OF that] by auto
  show "{RPlatform, RTenants} \<subseteq> res" "srv_platform srv \<noteq> None" "srv_limiter srv = server_bucket"
    "srv_verifier srv = None \<longleftrightarrow> AuthDisabled cfg"
    if "server_New H cfg = (Inr srv, res)" for srv :: "('db, 'h, 'prov) Server" and res
    using server_New_Inr [OF that] by (auto split: if_splits)
  show "mg_closed (srv_tenants srv)" "srv_platform srv = None" "\<not> stopped (srv_limiter srv)"
    if "run H env listen ev shutdown close_db F fs = (errs, Some srv, fs')" for errs fs' and srv :: "('db, 'h, 'prov) Server"
    using that by (auto simp: run_def split: sum.splits prod.splits dest: server_Close_closes run_limiter)
qed

definition sim_host :: "(memdb, string, string) host" where
  "sim_host = \<lparr>open_db = (\<lambda>path inmem. Inr []), oidc_lib = sim_oidc, NewClient = (\<lambda>ep. nil_err)\<rparr>"

definition sim_broken_host :: "(memdb, string, string) host" where
  "sim_broken_host = sim_host\<lparr>NewClient := (\<lambda>ep. Inl (ErrExt ''dial''))\<rparr>"

definition sim_settings :: server_Config where
  "sim_settings = \<lparr>c_GRPCAddr = '':9090'', c_HTTPAddr = '':8080'', c_DataDir = ''data'', c_AuthMode = ''disabled'',
     c_OIDCIssuers = [], c_OIDCAudiences = [], c_RoleClaim = ''groups'', c_LogLevel = ''info''\<rparr>"

lemma sim_broken_start:
  "server_New sim_broken_host sim_settings = (Inl (Wrap ''gateway: register'' (ErrExt ''dial'')), {RSweeper})"
proof -
  have d: "filepath_Join ''data'' ''genealogies'' \<noteq> []" by (simp add: filepath_Join_def Clean_def)
  have "registerHandlers (NewClient sim_broken_host) ep = Inl (Wrap ''gateway: register'' (ErrExt ''dial''))" for ep
    by (simp add: registerHandlers_eq sim_broken_host_def)
  then show ?thesis
    using d by (simp add: server_New_def platform_Open_def sim_settings_def sim_broken_host_def sim_host_def AuthDisabled_def
        New_def Let_def) blast
qed

theorem start_stop_resources_witness:
  "\<exists>e res. server_New sim_broken_host sim_settings = (Inl e :: err + (memdb, string, string) Server, res) \<and>
     RPlatform \<notin> res \<and> RTenants \<notin> res"
  using start_stop_resources [where H = sim_broken_host and cfg = sim_settings and 'h = string] sim_broken_start by blast

text \<open>A concrete server for evaluations: one public genealogy, made by the owner of the good token.\<close>

definition sim_owner :: string where
  "sim_owner = ''https://b|42''"

definition sim_owned :: "(memdb, string, Proposal list) server" where
  "sim_owned =
     (case serve sim_core sim_deps ''v1'' (sim_call sim_owner) (Genealogies_CreateGenealogy sim_create) sim_boot of
        Some (Ret (x, s)) \<Rightarrow> s
      | _ \<Rightarrow> sim_boot)"

definition sim_list :: rpc where
  "sim_list = Genealogies_ListMembers
     \<lparr>ListMembersRequest_GenealogyId = ''g2'', ListMembersRequest_PageSize = 0, ListMembersRequest_PageToken = []\<rparr>"

definition front_responds :: "((err + 'a) \<times> 's frontend) outcome option \<Rightarrow> bool" where
  "front_responds h = (case h of Some (Ret (Inr _, _)) \<Rightarrow> True | _ \<Rightarrow> False)"

lemma front_respondsE: "front_responds h \<Longrightarrow> (\<And>x s. h = Some (Ret (Inr x, s)) \<Longrightarrow> P) \<Longrightarrow> P"
  by (auto simp: front_responds_def split: option.splits outcome.splits sum.splits prod.splits)

lemma sim_owned_reachable: "reachable sim_core sim_deps map_of ''v1'' sim_owned"
proof -
  let ?h = "serve sim_core sim_deps ''v1'' (sim_call sim_owner) (Genealogies_CreateGenealogy sim_create) sim_boot"
  have "responds ?h" by code_simp
  then obtain x s' where run: "?h = Some (Ret (Inr x, s'))" by (rule respondsE)
  have "reachable sim_core sim_deps map_of ''v1'' sim_boot" unfolding sim_boot_def by (rule boot) simp
  moreover have "call_ok map_of (sim_call sim_owner) (Genealogies_CreateGenealogy sim_create) sim_boot"
    by (simp add: sim_call_def slash_free_def sim_boot_def)
  ultimately show ?thesis using run call by (fastforce simp: sim_owned_def)
qed

lemma sim_owned_ok:
  "platform_wf (map_of (sv_db (fe_inner (sim_frontend sim_owned))))"
  "coherent (map_of (sv_db (fe_inner (sim_frontend sim_owned)))) (sv_cache (fe_inner (sim_frontend sim_owned)))"
proof -
  have "system_ok (dp_limits sim_deps) map_of sim_owned"
    by (rule reachable_ok [OF sim_total _ _ sim_owned_reachable]) (simp_all add: sim_deps_def Default_def)
  then show "platform_wf (map_of (sv_db (fe_inner (sim_frontend sim_owned))))"
    "coherent (map_of (sv_db (fe_inner (sim_frontend sim_owned)))) (sv_cache (fe_inner (sim_frontend sim_owned)))"
    by (simp_all add: sim_frontend_def system_ok_def server_okD)
qed

end
