(* ===== verification/Gateway_Local.thy ===== *)
theory Gateway_Local
  imports Wiring
begin

text \<open>
  The in-process variant of the gateway (\<open>local_request_...\<close> and \<open>Register...HandlerServer\<close> of
  \<open>gen/go/linea/v1/*.pb.gw.go\<close>): its handlers call the service directly, without the gRPC server and
  its interceptors. The program registers the variant of \<open>Gateway\<close>, which has the same
  routes and requests.
\<close>

section \<open>Requests\<close>

definition local_request_Server_Version_0 ::
  "runtime \<Rightarrow> gateway \<Rightarrow> http_Request \<Rightarrow> pathParams \<Rightarrow> err + rpc" where
  "local_request_Server_Version_0 rt G req pathParams = Inr Server_Version"

definition local_request_Persons_GetPerson_0 ::
  "runtime \<Rightarrow> gateway \<Rightarrow> http_Request \<Rightarrow> pathParams \<Rightarrow> err + rpc" where
  "local_request_Persons_GetPerson_0 rt G req pathParams =
     (andThen (pathString rt pathParams ''genealogy_id'') (\<lambda>val.
      let m = GetPersonRequest_zero\<lparr>GetPersonRequest_GenealogyId := val\<rparr> in
      andThen (pathField rt (gw_GetPersonRequest G) pathParams ''id.value'' m) (\<lambda>m.
      andThen (queryParameters rt (gw_GetPersonRequest G) req filter_Persons_GetPerson_0 m) (\<lambda>m.
      Inr (Persons_GetPerson m)))))"

definition local_request_Persons_ListPersons_0 ::
  "runtime \<Rightarrow> gateway \<Rightarrow> http_Request \<Rightarrow> pathParams \<Rightarrow> err + rpc" where
  "local_request_Persons_ListPersons_0 rt G req pathParams =
     (andThen (pathString rt pathParams ''genealogy_id'') (\<lambda>val.
      let m = ListPersonsRequest_zero\<lparr>ListPersonsRequest_GenealogyId := val\<rparr> in
      andThen (queryParameters rt (gw_ListPersonsRequest G) req filter_Persons_ListPersons_0 m) (\<lambda>m.
      Inr (Persons_ListPersons m))))"

definition local_request_Relationships_GetRelationship_0 ::
  "runtime \<Rightarrow> gateway \<Rightarrow> http_Request \<Rightarrow> pathParams \<Rightarrow> err + rpc" where
  "local_request_Relationships_GetRelationship_0 rt G req pathParams =
     (andThen (pathString rt pathParams ''genealogy_id'') (\<lambda>val.
      let m = GetRelationshipRequest_zero\<lparr>GetRelationshipRequest_GenealogyId := val\<rparr> in
      andThen (pathField rt (gw_GetRelationshipRequest G) pathParams ''id.value'' m) (\<lambda>m.
      andThen (queryParameters rt (gw_GetRelationshipRequest G) req filter_Relationships_GetRelationship_0 m) (\<lambda>m.
      Inr (Relationships_GetRelationship m)))))"

definition local_request_Relationships_ListRelationships_0 ::
  "runtime \<Rightarrow> gateway \<Rightarrow> http_Request \<Rightarrow> pathParams \<Rightarrow> err + rpc" where
  "local_request_Relationships_ListRelationships_0 rt G req pathParams =
     (andThen (pathString rt pathParams ''genealogy_id'') (\<lambda>val.
      let m = ListRelationshipsRequest_zero\<lparr>ListRelationshipsRequest_GenealogyId := val\<rparr> in
      andThen (queryParameters rt (gw_ListRelationshipsRequest G) req filter_Relationships_ListRelationships_0 m) (\<lambda>m.
      Inr (Relationships_ListRelationships m))))"

definition local_request_Sources_GetSource_0 ::
  "runtime \<Rightarrow> gateway \<Rightarrow> http_Request \<Rightarrow> pathParams \<Rightarrow> err + rpc" where
  "local_request_Sources_GetSource_0 rt G req pathParams =
     (andThen (pathString rt pathParams ''genealogy_id'') (\<lambda>val.
      let m = GetSourceRequest_zero\<lparr>GetSourceRequest_GenealogyId := val\<rparr> in
      andThen (pathField rt (gw_GetSourceRequest G) pathParams ''id.value'' m) (\<lambda>m.
      andThen (queryParameters rt (gw_GetSourceRequest G) req filter_Sources_GetSource_0 m) (\<lambda>m.
      Inr (Sources_GetSource m)))))"

definition local_request_Sources_ListSources_0 ::
  "runtime \<Rightarrow> gateway \<Rightarrow> http_Request \<Rightarrow> pathParams \<Rightarrow> err + rpc" where
  "local_request_Sources_ListSources_0 rt G req pathParams =
     (andThen (pathString rt pathParams ''genealogy_id'') (\<lambda>val.
      let m = ListSourcesRequest_zero\<lparr>ListSourcesRequest_GenealogyId := val\<rparr> in
      andThen (queryParameters rt (gw_ListSourcesRequest G) req filter_Sources_ListSources_0 m) (\<lambda>m.
      Inr (Sources_ListSources m))))"

definition local_request_Proposals_GetProposal_0 ::
  "runtime \<Rightarrow> gateway \<Rightarrow> http_Request \<Rightarrow> pathParams \<Rightarrow> err + rpc" where
  "local_request_Proposals_GetProposal_0 rt G req pathParams =
     (andThen (pathString rt pathParams ''genealogy_id'') (\<lambda>val.
      let m = GetProposalRequest_zero\<lparr>GetProposalRequest_GenealogyId := val\<rparr> in
      andThen (pathField rt (gw_GetProposalRequest G) pathParams ''id.value'' m) (\<lambda>m.
      andThen (queryParameters rt (gw_GetProposalRequest G) req filter_Proposals_GetProposal_0 m) (\<lambda>m.
      Inr (Proposals_GetProposal m)))))"

definition local_request_Proposals_ListProposals_0 ::
  "runtime \<Rightarrow> gateway \<Rightarrow> http_Request \<Rightarrow> pathParams \<Rightarrow> err + rpc" where
  "local_request_Proposals_ListProposals_0 rt G req pathParams =
     (andThen (pathString rt pathParams ''genealogy_id'') (\<lambda>val.
      let m = ListProposalsRequest_zero\<lparr>ListProposalsRequest_GenealogyId := val\<rparr> in
      andThen (queryParameters rt (gw_ListProposalsRequest G) req filter_Proposals_ListProposals_0 m) (\<lambda>m.
      Inr (Proposals_ListProposals m))))"

definition local_request_Proposals_CreateProposal_0 ::
  "runtime \<Rightarrow> gateway \<Rightarrow> http_Request \<Rightarrow> pathParams \<Rightarrow> err + rpc" where
  "local_request_Proposals_CreateProposal_0 rt G req pathParams =
     (andThen (decodeBody rt (gw_CreateProposalRequest G) req CreateProposalRequest_zero) (\<lambda>m.
      andThen (pathString rt pathParams ''genealogy_id'') (\<lambda>val.
      let m = m\<lparr>CreateProposalRequest_GenealogyId := val\<rparr> in
      Inr (Proposals_CreateProposal m))))"

definition local_request_Proposals_Submit_0 ::
  "runtime \<Rightarrow> gateway \<Rightarrow> http_Request \<Rightarrow> pathParams \<Rightarrow> err + rpc" where
  "local_request_Proposals_Submit_0 rt G req pathParams =
     (andThen (decodeBody rt (gw_TransitionRequest G) req TransitionRequest_zero) (\<lambda>m.
      andThen (pathString rt pathParams ''genealogy_id'') (\<lambda>val.
      let m = m\<lparr>TransitionRequest_GenealogyId := val\<rparr> in
      andThen (pathField rt (gw_TransitionRequest G) pathParams ''id.value'' m) (\<lambda>m.
      Inr (Proposals_Submit m)))))"

definition local_request_Proposals_Claim_0 ::
  "runtime \<Rightarrow> gateway \<Rightarrow> http_Request \<Rightarrow> pathParams \<Rightarrow> err + rpc" where
  "local_request_Proposals_Claim_0 rt G req pathParams =
     (andThen (decodeBody rt (gw_TransitionRequest G) req TransitionRequest_zero) (\<lambda>m.
      andThen (pathString rt pathParams ''genealogy_id'') (\<lambda>val.
      let m = m\<lparr>TransitionRequest_GenealogyId := val\<rparr> in
      andThen (pathField rt (gw_TransitionRequest G) pathParams ''id.value'' m) (\<lambda>m.
      Inr (Proposals_Claim m)))))"

definition local_request_Proposals_Accept_0 ::
  "runtime \<Rightarrow> gateway \<Rightarrow> http_Request \<Rightarrow> pathParams \<Rightarrow> err + rpc" where
  "local_request_Proposals_Accept_0 rt G req pathParams =
     (andThen (decodeBody rt (gw_TransitionRequest G) req TransitionRequest_zero) (\<lambda>m.
      andThen (pathString rt pathParams ''genealogy_id'') (\<lambda>val.
      let m = m\<lparr>TransitionRequest_GenealogyId := val\<rparr> in
      andThen (pathField rt (gw_TransitionRequest G) pathParams ''id.value'' m) (\<lambda>m.
      Inr (Proposals_Accept m)))))"

definition local_request_Proposals_Reject_0 ::
  "runtime \<Rightarrow> gateway \<Rightarrow> http_Request \<Rightarrow> pathParams \<Rightarrow> err + rpc" where
  "local_request_Proposals_Reject_0 rt G req pathParams =
     (andThen (decodeBody rt (gw_TransitionRequest G) req TransitionRequest_zero) (\<lambda>m.
      andThen (pathString rt pathParams ''genealogy_id'') (\<lambda>val.
      let m = m\<lparr>TransitionRequest_GenealogyId := val\<rparr> in
      andThen (pathField rt (gw_TransitionRequest G) pathParams ''id.value'' m) (\<lambda>m.
      Inr (Proposals_Reject m)))))"

definition local_request_Proposals_Withdraw_0 ::
  "runtime \<Rightarrow> gateway \<Rightarrow> http_Request \<Rightarrow> pathParams \<Rightarrow> err + rpc" where
  "local_request_Proposals_Withdraw_0 rt G req pathParams =
     (andThen (decodeBody rt (gw_TransitionRequest G) req TransitionRequest_zero) (\<lambda>m.
      andThen (pathString rt pathParams ''genealogy_id'') (\<lambda>val.
      let m = m\<lparr>TransitionRequest_GenealogyId := val\<rparr> in
      andThen (pathField rt (gw_TransitionRequest G) pathParams ''id.value'' m) (\<lambda>m.
      Inr (Proposals_Withdraw m)))))"

definition local_request_Proposals_BulkReject_0 ::
  "runtime \<Rightarrow> gateway \<Rightarrow> http_Request \<Rightarrow> pathParams \<Rightarrow> err + rpc" where
  "local_request_Proposals_BulkReject_0 rt G req pathParams =
     (andThen (decodeBody rt (gw_BulkRejectRequest G) req BulkRejectRequest_zero) (\<lambda>m.
      andThen (pathString rt pathParams ''genealogy_id'') (\<lambda>val.
      let m = m\<lparr>BulkRejectRequest_GenealogyId := val\<rparr> in
      Inr (Proposals_BulkReject m))))"

definition local_request_Queries_FindPaths_0 ::
  "runtime \<Rightarrow> gateway \<Rightarrow> http_Request \<Rightarrow> pathParams \<Rightarrow> err + rpc" where
  "local_request_Queries_FindPaths_0 rt G req pathParams =
     (andThen (decodeBody rt (gw_FindPathsRequest G) req FindPathsRequest_zero) (\<lambda>m.
      andThen (pathString rt pathParams ''genealogy_id'') (\<lambda>val.
      let m = m\<lparr>FindPathsRequest_GenealogyId := val\<rparr> in
      Inr (Queries_FindPaths m))))"

definition local_request_Queries_NKCA_0 ::
  "runtime \<Rightarrow> gateway \<Rightarrow> http_Request \<Rightarrow> pathParams \<Rightarrow> err + rpc" where
  "local_request_Queries_NKCA_0 rt G req pathParams =
     (andThen (decodeBody rt (gw_NKCARequest G) req NKCARequest_zero) (\<lambda>m.
      andThen (pathString rt pathParams ''genealogy_id'') (\<lambda>val.
      let m = m\<lparr>NKCARequest_GenealogyId := val\<rparr> in
      Inr (Queries_NKCA m))))"

definition local_request_Genealogies_CreateGenealogy_0 ::
  "runtime \<Rightarrow> gateway \<Rightarrow> http_Request \<Rightarrow> pathParams \<Rightarrow> err + rpc" where
  "local_request_Genealogies_CreateGenealogy_0 rt G req pathParams =
     (andThen (decodeBody rt (gw_CreateGenealogyRequest G) req CreateGenealogyRequest_zero) (\<lambda>m.
      Inr (Genealogies_CreateGenealogy m)))"

definition local_request_Genealogies_ListGenealogies_0 ::
  "runtime \<Rightarrow> gateway \<Rightarrow> http_Request \<Rightarrow> pathParams \<Rightarrow> err + rpc" where
  "local_request_Genealogies_ListGenealogies_0 rt G req pathParams =
     (andThen (queryParameters rt (gw_ListGenealogiesRequest G) req filter_Genealogies_ListGenealogies_0 ListGenealogiesRequest_zero) (\<lambda>m.
      Inr (Genealogies_ListGenealogies m)))"

definition local_request_Genealogies_GetGenealogy_0 ::
  "runtime \<Rightarrow> gateway \<Rightarrow> http_Request \<Rightarrow> pathParams \<Rightarrow> err + rpc" where
  "local_request_Genealogies_GetGenealogy_0 rt G req pathParams =
     (andThen (pathString rt pathParams ''id'') (\<lambda>val.
      let m = GetGenealogyRequest_zero\<lparr>GetGenealogyRequest_Id := val\<rparr> in
      Inr (Genealogies_GetGenealogy m)))"

definition local_request_Genealogies_UpdateVisibility_0 ::
  "runtime \<Rightarrow> gateway \<Rightarrow> http_Request \<Rightarrow> pathParams \<Rightarrow> err + rpc" where
  "local_request_Genealogies_UpdateVisibility_0 rt G req pathParams =
     (andThen (decodeBody rt (gw_UpdateVisibilityRequest G) req UpdateVisibilityRequest_zero) (\<lambda>m.
      andThen (pathString rt pathParams ''id'') (\<lambda>val.
      let m = m\<lparr>UpdateVisibilityRequest_Id := val\<rparr> in
      Inr (Genealogies_UpdateVisibility m))))"

definition local_request_Genealogies_DeleteGenealogy_0 ::
  "runtime \<Rightarrow> gateway \<Rightarrow> http_Request \<Rightarrow> pathParams \<Rightarrow> err + rpc" where
  "local_request_Genealogies_DeleteGenealogy_0 rt G req pathParams =
     (andThen (pathString rt pathParams ''id'') (\<lambda>val.
      let m = DeleteGenealogyRequest_zero\<lparr>DeleteGenealogyRequest_Id := val\<rparr> in
      Inr (Genealogies_DeleteGenealogy m)))"

definition local_request_Genealogies_UpsertMembership_0 ::
  "runtime \<Rightarrow> gateway \<Rightarrow> http_Request \<Rightarrow> pathParams \<Rightarrow> err + rpc" where
  "local_request_Genealogies_UpsertMembership_0 rt G req pathParams =
     (andThen (decodeBody rt (gw_UpsertMembershipRequest G) req UpsertMembershipRequest_zero) (\<lambda>m.
      andThen (pathString rt pathParams ''genealogy_id'') (\<lambda>val.
      let m = m\<lparr>UpsertMembershipRequest_GenealogyId := val\<rparr> in
      andThen (pathString rt pathParams ''subject'') (\<lambda>val.
      let m = m\<lparr>UpsertMembershipRequest_Subject := val\<rparr> in
      Inr (Genealogies_UpsertMembership m)))))"

definition local_request_Genealogies_RemoveMember_0 ::
  "runtime \<Rightarrow> gateway \<Rightarrow> http_Request \<Rightarrow> pathParams \<Rightarrow> err + rpc" where
  "local_request_Genealogies_RemoveMember_0 rt G req pathParams =
     (andThen (pathString rt pathParams ''genealogy_id'') (\<lambda>val.
      let m = RemoveMemberRequest_zero\<lparr>RemoveMemberRequest_GenealogyId := val\<rparr> in
      andThen (pathString rt pathParams ''subject'') (\<lambda>val.
      let m = m\<lparr>RemoveMemberRequest_Subject := val\<rparr> in
      Inr (Genealogies_RemoveMember m))))"

definition local_request_Genealogies_LeaveGenealogy_0 ::
  "runtime \<Rightarrow> gateway \<Rightarrow> http_Request \<Rightarrow> pathParams \<Rightarrow> err + rpc" where
  "local_request_Genealogies_LeaveGenealogy_0 rt G req pathParams =
     (andThen (decodeBody rt (gw_LeaveGenealogyRequest G) req LeaveGenealogyRequest_zero) (\<lambda>m.
      andThen (pathString rt pathParams ''id'') (\<lambda>val.
      let m = m\<lparr>LeaveGenealogyRequest_Id := val\<rparr> in
      Inr (Genealogies_LeaveGenealogy m))))"

definition local_request_Genealogies_BanUser_0 ::
  "runtime \<Rightarrow> gateway \<Rightarrow> http_Request \<Rightarrow> pathParams \<Rightarrow> err + rpc" where
  "local_request_Genealogies_BanUser_0 rt G req pathParams =
     (andThen (decodeBody rt (gw_BanUserRequest G) req BanUserRequest_zero) (\<lambda>m.
      andThen (pathString rt pathParams ''genealogy_id'') (\<lambda>val.
      let m = m\<lparr>BanUserRequest_GenealogyId := val\<rparr> in
      andThen (pathString rt pathParams ''subject'') (\<lambda>val.
      let m = m\<lparr>BanUserRequest_Subject := val\<rparr> in
      Inr (Genealogies_BanUser m)))))"

definition local_request_Genealogies_UnbanUser_0 ::
  "runtime \<Rightarrow> gateway \<Rightarrow> http_Request \<Rightarrow> pathParams \<Rightarrow> err + rpc" where
  "local_request_Genealogies_UnbanUser_0 rt G req pathParams =
     (andThen (pathString rt pathParams ''genealogy_id'') (\<lambda>val.
      let m = UnbanUserRequest_zero\<lparr>UnbanUserRequest_GenealogyId := val\<rparr> in
      andThen (pathString rt pathParams ''subject'') (\<lambda>val.
      let m = m\<lparr>UnbanUserRequest_Subject := val\<rparr> in
      Inr (Genealogies_UnbanUser m))))"

definition local_request_Genealogies_ListMembers_0 ::
  "runtime \<Rightarrow> gateway \<Rightarrow> http_Request \<Rightarrow> pathParams \<Rightarrow> err + rpc" where
  "local_request_Genealogies_ListMembers_0 rt G req pathParams =
     (andThen (pathString rt pathParams ''genealogy_id'') (\<lambda>val.
      let m = ListMembersRequest_zero\<lparr>ListMembersRequest_GenealogyId := val\<rparr> in
      andThen (queryParameters rt (gw_ListMembersRequest G) req filter_Genealogies_ListMembers_0 m) (\<lambda>m.
      Inr (Genealogies_ListMembers m))))"

section \<open>Registration\<close>

text \<open>One registered route per \<open>mux.Handle\<close>; what its closure does with a request is \<open>local_handler\<close>.\<close>

definition local_route_Server_Version_0 :: route where
  "local_route_Server_Version_0 =
     \<lparr>ro_method = ''GET'', ro_pattern = pattern_Server_Version_0, ro_name = ''/linea.v1.Server/Version'',
      ro_path = ''/v1/version'', ro_request = local_request_Server_Version_0\<rparr>"

definition local_route_Persons_GetPerson_0 :: route where
  "local_route_Persons_GetPerson_0 =
     \<lparr>ro_method = ''GET'', ro_pattern = pattern_Persons_GetPerson_0, ro_name = ''/linea.v1.Persons/GetPerson'',
      ro_path = ''/v1/g/{genealogy_id}/persons/{id.value}'', ro_request = local_request_Persons_GetPerson_0\<rparr>"

definition local_route_Persons_ListPersons_0 :: route where
  "local_route_Persons_ListPersons_0 =
     \<lparr>ro_method = ''GET'', ro_pattern = pattern_Persons_ListPersons_0, ro_name = ''/linea.v1.Persons/ListPersons'',
      ro_path = ''/v1/g/{genealogy_id}/persons'', ro_request = local_request_Persons_ListPersons_0\<rparr>"

definition local_route_Relationships_GetRelationship_0 :: route where
  "local_route_Relationships_GetRelationship_0 =
     \<lparr>ro_method = ''GET'', ro_pattern = pattern_Relationships_GetRelationship_0, ro_name = ''/linea.v1.Relationships/GetRelationship'',
      ro_path = ''/v1/g/{genealogy_id}/relationships/{id.value}'', ro_request = local_request_Relationships_GetRelationship_0\<rparr>"

definition local_route_Relationships_ListRelationships_0 :: route where
  "local_route_Relationships_ListRelationships_0 =
     \<lparr>ro_method = ''GET'', ro_pattern = pattern_Relationships_ListRelationships_0, ro_name = ''/linea.v1.Relationships/ListRelationships'',
      ro_path = ''/v1/g/{genealogy_id}/relationships'', ro_request = local_request_Relationships_ListRelationships_0\<rparr>"

definition local_route_Sources_GetSource_0 :: route where
  "local_route_Sources_GetSource_0 =
     \<lparr>ro_method = ''GET'', ro_pattern = pattern_Sources_GetSource_0, ro_name = ''/linea.v1.Sources/GetSource'',
      ro_path = ''/v1/g/{genealogy_id}/sources/{id.value}'', ro_request = local_request_Sources_GetSource_0\<rparr>"

definition local_route_Sources_ListSources_0 :: route where
  "local_route_Sources_ListSources_0 =
     \<lparr>ro_method = ''GET'', ro_pattern = pattern_Sources_ListSources_0, ro_name = ''/linea.v1.Sources/ListSources'',
      ro_path = ''/v1/g/{genealogy_id}/sources'', ro_request = local_request_Sources_ListSources_0\<rparr>"

definition local_route_Proposals_GetProposal_0 :: route where
  "local_route_Proposals_GetProposal_0 =
     \<lparr>ro_method = ''GET'', ro_pattern = pattern_Proposals_GetProposal_0, ro_name = ''/linea.v1.Proposals/GetProposal'',
      ro_path = ''/v1/g/{genealogy_id}/proposals/{id.value}'', ro_request = local_request_Proposals_GetProposal_0\<rparr>"

definition local_route_Proposals_ListProposals_0 :: route where
  "local_route_Proposals_ListProposals_0 =
     \<lparr>ro_method = ''GET'', ro_pattern = pattern_Proposals_ListProposals_0, ro_name = ''/linea.v1.Proposals/ListProposals'',
      ro_path = ''/v1/g/{genealogy_id}/proposals'', ro_request = local_request_Proposals_ListProposals_0\<rparr>"

definition local_route_Proposals_CreateProposal_0 :: route where
  "local_route_Proposals_CreateProposal_0 =
     \<lparr>ro_method = ''POST'', ro_pattern = pattern_Proposals_CreateProposal_0, ro_name = ''/linea.v1.Proposals/CreateProposal'',
      ro_path = ''/v1/g/{genealogy_id}/proposals'', ro_request = local_request_Proposals_CreateProposal_0\<rparr>"

definition local_route_Proposals_Submit_0 :: route where
  "local_route_Proposals_Submit_0 =
     \<lparr>ro_method = ''POST'', ro_pattern = pattern_Proposals_Submit_0, ro_name = ''/linea.v1.Proposals/Submit'',
      ro_path = ''/v1/g/{genealogy_id}/proposals/{id.value}:submit'', ro_request = local_request_Proposals_Submit_0\<rparr>"

definition local_route_Proposals_Claim_0 :: route where
  "local_route_Proposals_Claim_0 =
     \<lparr>ro_method = ''POST'', ro_pattern = pattern_Proposals_Claim_0, ro_name = ''/linea.v1.Proposals/Claim'',
      ro_path = ''/v1/g/{genealogy_id}/proposals/{id.value}:claim'', ro_request = local_request_Proposals_Claim_0\<rparr>"

definition local_route_Proposals_Accept_0 :: route where
  "local_route_Proposals_Accept_0 =
     \<lparr>ro_method = ''POST'', ro_pattern = pattern_Proposals_Accept_0, ro_name = ''/linea.v1.Proposals/Accept'',
      ro_path = ''/v1/g/{genealogy_id}/proposals/{id.value}:accept'', ro_request = local_request_Proposals_Accept_0\<rparr>"

definition local_route_Proposals_Reject_0 :: route where
  "local_route_Proposals_Reject_0 =
     \<lparr>ro_method = ''POST'', ro_pattern = pattern_Proposals_Reject_0, ro_name = ''/linea.v1.Proposals/Reject'',
      ro_path = ''/v1/g/{genealogy_id}/proposals/{id.value}:reject'', ro_request = local_request_Proposals_Reject_0\<rparr>"

definition local_route_Proposals_Withdraw_0 :: route where
  "local_route_Proposals_Withdraw_0 =
     \<lparr>ro_method = ''POST'', ro_pattern = pattern_Proposals_Withdraw_0, ro_name = ''/linea.v1.Proposals/Withdraw'',
      ro_path = ''/v1/g/{genealogy_id}/proposals/{id.value}:withdraw'', ro_request = local_request_Proposals_Withdraw_0\<rparr>"

definition local_route_Proposals_BulkReject_0 :: route where
  "local_route_Proposals_BulkReject_0 =
     \<lparr>ro_method = ''POST'', ro_pattern = pattern_Proposals_BulkReject_0, ro_name = ''/linea.v1.Proposals/BulkReject'',
      ro_path = ''/v1/g/{genealogy_id}/proposals:bulkReject'', ro_request = local_request_Proposals_BulkReject_0\<rparr>"

definition local_route_Queries_FindPaths_0 :: route where
  "local_route_Queries_FindPaths_0 =
     \<lparr>ro_method = ''POST'', ro_pattern = pattern_Queries_FindPaths_0, ro_name = ''/linea.v1.Queries/FindPaths'',
      ro_path = ''/v1/g/{genealogy_id}/queries:findPaths'', ro_request = local_request_Queries_FindPaths_0\<rparr>"

definition local_route_Queries_NKCA_0 :: route where
  "local_route_Queries_NKCA_0 =
     \<lparr>ro_method = ''POST'', ro_pattern = pattern_Queries_NKCA_0, ro_name = ''/linea.v1.Queries/NKCA'',
      ro_path = ''/v1/g/{genealogy_id}/queries:nkca'', ro_request = local_request_Queries_NKCA_0\<rparr>"

definition local_route_Genealogies_CreateGenealogy_0 :: route where
  "local_route_Genealogies_CreateGenealogy_0 =
     \<lparr>ro_method = ''POST'', ro_pattern = pattern_Genealogies_CreateGenealogy_0, ro_name = ''/linea.v1.Genealogies/CreateGenealogy'',
      ro_path = ''/v1/genealogies'', ro_request = local_request_Genealogies_CreateGenealogy_0\<rparr>"

definition local_route_Genealogies_ListGenealogies_0 :: route where
  "local_route_Genealogies_ListGenealogies_0 =
     \<lparr>ro_method = ''GET'', ro_pattern = pattern_Genealogies_ListGenealogies_0, ro_name = ''/linea.v1.Genealogies/ListGenealogies'',
      ro_path = ''/v1/genealogies'', ro_request = local_request_Genealogies_ListGenealogies_0\<rparr>"

definition local_route_Genealogies_GetGenealogy_0 :: route where
  "local_route_Genealogies_GetGenealogy_0 =
     \<lparr>ro_method = ''GET'', ro_pattern = pattern_Genealogies_GetGenealogy_0, ro_name = ''/linea.v1.Genealogies/GetGenealogy'',
      ro_path = ''/v1/genealogies/{id}'', ro_request = local_request_Genealogies_GetGenealogy_0\<rparr>"

definition local_route_Genealogies_UpdateVisibility_0 :: route where
  "local_route_Genealogies_UpdateVisibility_0 =
     \<lparr>ro_method = ''PATCH'', ro_pattern = pattern_Genealogies_UpdateVisibility_0, ro_name = ''/linea.v1.Genealogies/UpdateVisibility'',
      ro_path = ''/v1/genealogies/{id}/visibility'', ro_request = local_request_Genealogies_UpdateVisibility_0\<rparr>"

definition local_route_Genealogies_DeleteGenealogy_0 :: route where
  "local_route_Genealogies_DeleteGenealogy_0 =
     \<lparr>ro_method = ''DELETE'', ro_pattern = pattern_Genealogies_DeleteGenealogy_0, ro_name = ''/linea.v1.Genealogies/DeleteGenealogy'',
      ro_path = ''/v1/genealogies/{id}'', ro_request = local_request_Genealogies_DeleteGenealogy_0\<rparr>"

definition local_route_Genealogies_UpsertMembership_0 :: route where
  "local_route_Genealogies_UpsertMembership_0 =
     \<lparr>ro_method = ''PUT'', ro_pattern = pattern_Genealogies_UpsertMembership_0, ro_name = ''/linea.v1.Genealogies/UpsertMembership'',
      ro_path = ''/v1/genealogies/{genealogy_id}/members/{subject}'', ro_request = local_request_Genealogies_UpsertMembership_0\<rparr>"

definition local_route_Genealogies_RemoveMember_0 :: route where
  "local_route_Genealogies_RemoveMember_0 =
     \<lparr>ro_method = ''DELETE'', ro_pattern = pattern_Genealogies_RemoveMember_0, ro_name = ''/linea.v1.Genealogies/RemoveMember'',
      ro_path = ''/v1/genealogies/{genealogy_id}/members/{subject}'', ro_request = local_request_Genealogies_RemoveMember_0\<rparr>"

definition local_route_Genealogies_LeaveGenealogy_0 :: route where
  "local_route_Genealogies_LeaveGenealogy_0 =
     \<lparr>ro_method = ''POST'', ro_pattern = pattern_Genealogies_LeaveGenealogy_0, ro_name = ''/linea.v1.Genealogies/LeaveGenealogy'',
      ro_path = ''/v1/genealogies/{id}/leave'', ro_request = local_request_Genealogies_LeaveGenealogy_0\<rparr>"

definition local_route_Genealogies_BanUser_0 :: route where
  "local_route_Genealogies_BanUser_0 =
     \<lparr>ro_method = ''PUT'', ro_pattern = pattern_Genealogies_BanUser_0, ro_name = ''/linea.v1.Genealogies/BanUser'',
      ro_path = ''/v1/genealogies/{genealogy_id}/bans/{subject}'', ro_request = local_request_Genealogies_BanUser_0\<rparr>"

definition local_route_Genealogies_UnbanUser_0 :: route where
  "local_route_Genealogies_UnbanUser_0 =
     \<lparr>ro_method = ''DELETE'', ro_pattern = pattern_Genealogies_UnbanUser_0, ro_name = ''/linea.v1.Genealogies/UnbanUser'',
      ro_path = ''/v1/genealogies/{genealogy_id}/bans/{subject}'', ro_request = local_request_Genealogies_UnbanUser_0\<rparr>"

definition local_route_Genealogies_ListMembers_0 :: route where
  "local_route_Genealogies_ListMembers_0 =
     \<lparr>ro_method = ''GET'', ro_pattern = pattern_Genealogies_ListMembers_0, ro_name = ''/linea.v1.Genealogies/ListMembers'',
      ro_path = ''/v1/genealogies/{genealogy_id}/members'', ro_request = local_request_Genealogies_ListMembers_0\<rparr>"

definition RegisterServerHandlerServer :: "route list" where
  "RegisterServerHandlerServer =
     [local_route_Server_Version_0]"

definition RegisterPersonsHandlerServer :: "route list" where
  "RegisterPersonsHandlerServer =
     [local_route_Persons_GetPerson_0, local_route_Persons_ListPersons_0]"

definition RegisterRelationshipsHandlerServer :: "route list" where
  "RegisterRelationshipsHandlerServer =
     [local_route_Relationships_GetRelationship_0, local_route_Relationships_ListRelationships_0]"

definition RegisterSourcesHandlerServer :: "route list" where
  "RegisterSourcesHandlerServer =
     [local_route_Sources_GetSource_0, local_route_Sources_ListSources_0]"

definition RegisterProposalsHandlerServer :: "route list" where
  "RegisterProposalsHandlerServer =
     [local_route_Proposals_GetProposal_0, local_route_Proposals_ListProposals_0,
      local_route_Proposals_CreateProposal_0, local_route_Proposals_Submit_0, local_route_Proposals_Claim_0,
      local_route_Proposals_Accept_0, local_route_Proposals_Reject_0, local_route_Proposals_Withdraw_0,
      local_route_Proposals_BulkReject_0]"

definition RegisterQueriesHandlerServer :: "route list" where
  "RegisterQueriesHandlerServer =
     [local_route_Queries_FindPaths_0, local_route_Queries_NKCA_0]"

definition RegisterGenealogiesHandlerServer :: "route list" where
  "RegisterGenealogiesHandlerServer =
     [local_route_Genealogies_CreateGenealogy_0, local_route_Genealogies_ListGenealogies_0,
      local_route_Genealogies_GetGenealogy_0, local_route_Genealogies_UpdateVisibility_0,
      local_route_Genealogies_DeleteGenealogy_0, local_route_Genealogies_UpsertMembership_0,
      local_route_Genealogies_RemoveMember_0, local_route_Genealogies_LeaveGenealogy_0,
      local_route_Genealogies_BanUser_0, local_route_Genealogies_UnbanUser_0,
      local_route_Genealogies_ListMembers_0]"

lemmas local_request_defs = local_request_Server_Version_0_def local_request_Persons_GetPerson_0_def
    local_request_Persons_ListPersons_0_def local_request_Relationships_GetRelationship_0_def
    local_request_Relationships_ListRelationships_0_def local_request_Sources_GetSource_0_def
    local_request_Sources_ListSources_0_def local_request_Proposals_GetProposal_0_def
    local_request_Proposals_ListProposals_0_def local_request_Proposals_CreateProposal_0_def
    local_request_Proposals_Submit_0_def local_request_Proposals_Claim_0_def local_request_Proposals_Accept_0_def
    local_request_Proposals_Reject_0_def local_request_Proposals_Withdraw_0_def
    local_request_Proposals_BulkReject_0_def local_request_Queries_FindPaths_0_def local_request_Queries_NKCA_0_def
    local_request_Genealogies_CreateGenealogy_0_def local_request_Genealogies_ListGenealogies_0_def
    local_request_Genealogies_GetGenealogy_0_def local_request_Genealogies_UpdateVisibility_0_def
    local_request_Genealogies_DeleteGenealogy_0_def local_request_Genealogies_UpsertMembership_0_def
    local_request_Genealogies_RemoveMember_0_def local_request_Genealogies_LeaveGenealogy_0_def
    local_request_Genealogies_BanUser_0_def local_request_Genealogies_UnbanUser_0_def
    local_request_Genealogies_ListMembers_0_def

lemmas local_route_defs = local_route_Server_Version_0_def local_route_Persons_GetPerson_0_def
    local_route_Persons_ListPersons_0_def local_route_Relationships_GetRelationship_0_def
    local_route_Relationships_ListRelationships_0_def local_route_Sources_GetSource_0_def
    local_route_Sources_ListSources_0_def local_route_Proposals_GetProposal_0_def
    local_route_Proposals_ListProposals_0_def local_route_Proposals_CreateProposal_0_def
    local_route_Proposals_Submit_0_def local_route_Proposals_Claim_0_def local_route_Proposals_Accept_0_def
    local_route_Proposals_Reject_0_def local_route_Proposals_Withdraw_0_def local_route_Proposals_BulkReject_0_def
    local_route_Queries_FindPaths_0_def local_route_Queries_NKCA_0_def local_route_Genealogies_CreateGenealogy_0_def
    local_route_Genealogies_ListGenealogies_0_def local_route_Genealogies_GetGenealogy_0_def
    local_route_Genealogies_UpdateVisibility_0_def local_route_Genealogies_DeleteGenealogy_0_def
    local_route_Genealogies_UpsertMembership_0_def local_route_Genealogies_RemoveMember_0_def
    local_route_Genealogies_LeaveGenealogy_0_def local_route_Genealogies_BanUser_0_def
    local_route_Genealogies_UnbanUser_0_def local_route_Genealogies_ListMembers_0_def

lemmas register_server_defs = RegisterServerHandlerServer_def RegisterPersonsHandlerServer_def
    RegisterRelationshipsHandlerServer_def RegisterSourcesHandlerServer_def RegisterProposalsHandlerServer_def
    RegisterQueriesHandlerServer_def RegisterGenealogiesHandlerServer_def local_route_defs

definition local_routes :: "route list" where
  "local_routes = RegisterServerHandlerServer @ RegisterPersonsHandlerServer @ RegisterRelationshipsHandlerServer @
     RegisterSourcesHandlerServer @ RegisterProposalsHandlerServer @ RegisterQueriesHandlerServer @
     RegisterGenealogiesHandlerServer"

section \<open>Handlers\<close>

text \<open>
  \<open>server\<close> is the service itself. The response metadata, which is joined with what the service wrote to the transport
  stream, is not represented, as in \<open>rest_handler\<close>; no procedure of the server writes any.
\<close>

definition local_handler ::
  "runtime \<Rightarrow> gateway \<Rightarrow> (rpc \<Rightarrow> (response, 's) call) \<Rightarrow> route \<Rightarrow> http_Request \<Rightarrow>
   pathParams \<Rightarrow> 's frontend \<Rightarrow> (http_answer \<times> 's frontend) outcome option" where
  "local_handler rt G server ro req pathParams s =
     (case rt_AnnotateIncomingContext rt req (ro_name ro) of
        Inl e \<Rightarrow> Some (Ret (HTTPError e, s))
      | Inr ctx \<Rightarrow>
          (case ro_request ro rt G req pathParams of
             Inl e \<Rightarrow> Some (Ret (HTTPError e, s))
           | Inr r \<Rightarrow>
               map_option (map_outcome (\<lambda>(x, s'). (case x of Inl e \<Rightarrow> HTTPError e | Inr m \<Rightarrow> Forward m, s')))
                 (server r ctx s)))"

definition local_serve ::
  "runtime \<Rightarrow> gateway \<Rightarrow> (rpc \<Rightarrow> (response, 's) call) \<Rightarrow> http_Request \<Rightarrow>
   's frontend \<Rightarrow> (http_answer \<times> 's frontend) outcome option" where
  "local_serve rt G server req s =
     (case rt_Match rt (map (\<lambda>ro. (ro_method ro, ro_pattern ro)) local_routes) req of
        None \<Rightarrow> Some (Ret (NoRoute, s))
      | Some (i, pathParams) \<Rightarrow> local_handler rt G server (local_routes ! i) req pathParams s)"

lemma local_requests: "local_routes = routes"
  unfolding local_routes_def routes_def register_server_defs register_defs
  by (simp add: fun_eq_iff request_defs local_request_defs)

lemma local_serve_Forward:
  assumes "gateway_lib rt G" and "local_serve rt G server req s = Some (Ret (Forward x, s'))"
  shows "\<exists>ro ps ctx r. ro \<in> set routes \<and> match_path (ro_pattern ro) (path_components req) = Some ps \<and>
    rt_AnnotateIncomingContext rt req (ro_name ro) = Inr ctx \<and>
    ro_request ro rt G req ps = Inr r \<and> server r ctx s = Some (Ret (Inr x, s'))"
proof -
  let ?rs = "map (\<lambda>ro. (ro_method ro, ro_pattern ro)) routes"
  from assms(2) obtain i ps where m: "rt_Match rt ?rs req = Some (i, ps)"
    and h: "local_handler rt G server (routes ! i) req ps s = Some (Ret (Forward x, s'))"
    by (auto simp: local_serve_def local_requests split: option.splits prod.splits)
  have "set ?rs \<subseteq> (\<lambda>ro. (ro_method ro, ro_pattern ro)) ` set routes" by simp
  note found = gateway_lib.rt_Match [OF assms(1) this m]
  then have i: "i < length routes" by simp
  then have "routes ! i \<in> set routes" by simp
  moreover from conjunct2 [OF found] i have "match_path (ro_pattern (routes ! i)) (path_components req) = Some ps" by simp
  moreover from h obtain ctx where ctx: "rt_AnnotateIncomingContext rt req (ro_name (routes ! i)) = Inr ctx"
    by (cases "rt_AnnotateIncomingContext rt req (ro_name (routes ! i))") (auto simp: local_handler_def)
  moreover from h ctx obtain r where r: "ro_request (routes ! i) rt G req ps = Inr r"
    by (cases "ro_request (routes ! i) rt G req ps") (auto simp: local_handler_def)
  moreover from h obtain y where "server r ctx s = Some (Ret y)"
    and "(Forward x, s') = (\<lambda>(x, s'). (case x of Inl e \<Rightarrow> HTTPError e | Inr m \<Rightarrow> Forward m, s')) y"
    unfolding local_handler_def ctx r sum.case map_handled_Ret by blast
  then have "server r ctx s = Some (Ret (Inr x, s'))" by (cases y; cases "fst y") auto
  ultimately show ?thesis by blast
qed

section \<open>Properties\<close>

text \<open>
  The in-process variant never grants more than anonymous reading. Its calls pass no interceptor,
  so they carry no identity: whatever token a request has, an answer with a message to a procedure
  that needs a role means that Viewer is enough for it and that the genealogy in the path, its third
  component, is public.
\<close>

theorem in_process_calls_anonymous:
  assumes "gateway_lib rt G" and "badger_db (dp_badger D) kv tkv" and "platform_wf (kv (sv_db (fe_inner s)))"
    and "coherent (kv (sv_db (fe_inner s))) (sv_cache (fe_inner s))"
    and "\<forall>req name ctx. rt_AnnotateIncomingContext rt req name = Inr ctx \<longrightarrow> ctx_Identity ctx = None"
    and "local_serve rt G (procedure C D ver q) req s = Some (Ret (Forward x, s'))"
  shows "\<exists>ro ps r. ro \<in> set local_routes \<and> match_path (ro_pattern ro) (path_components req) = Some ps \<and>
    ro_request ro rt G req ps = Inr r \<and>
    (\<forall>gid role. required r = Some (gid, role) \<longrightarrow> gid = path_components req ! 2 \<and> role \<le> RoleViewer \<and>
       (\<exists>g. gen_at (kv (sv_db (fe_inner s))) gid = Inr g \<and> g_Visibility g = VisibilityPublic))"
proof -
  from local_serve_Forward [OF assms(1,6)] obtain ro ps ctx r where ro: "ro \<in> set routes"
    "match_path (ro_pattern ro) (path_components req) = Some ps"
    "rt_AnnotateIncomingContext rt req (ro_name ro) = Inr ctx" "ro_request ro rt G req ps = Inr r"
    and run: "procedure C D ver q r ctx s = Some (Ret (Inr x, s'))" by blast
  have "IdentityOf ctx = Identity_zero" using assms(5) ro(3) by (simp add: IdentityOf_def)
  with run obtain inner where sv: "serve C D ver (q\<lparr>q_Subject := []\<rparr>) r (fe_inner s) = Some (Ret (Inr x, inner))"
    unfolding procedure_Ret by (auto simp: Identity_zero_def)
  have "gid = path_components req ! 2 \<and> role \<le> RoleViewer \<and>
      (\<exists>g. gen_at (kv (sv_db (fe_inner s))) gid = Inr g \<and> g_Visibility g = VisibilityPublic)"
    if "required r = Some (gid, role)" for gid role
    using gateway_lib.genealogy_component [OF assms(1) ro(1,4,2) that] serve_authorized_rule [OF assms(2-4) sv that]
    by (auto simp: authorized_def granted_def visibility_rule_def split: sum.splits if_splits)
  with ro show ?thesis unfolding local_requests by blast
qed

end
