(* ===== verification/Gateway_Routes.thy ===== *)
theory Gateway_Routes
  imports Gateway
begin

text \<open>
  Which paths the routes of the gateway (\<open>gen/go/linea/v1/*.pb.gw.go\<close>) stand for. A pattern is a program
  for the matcher of the runtime library; here it is read as a URL template, a list of segments, and
  printed as text. Both readings are specifications of the generated patterns: no path of a method has two
  routes, and every program prints as the template that its registration names.
\<close>

section \<open>Patterns as templates\<close>

datatype segment = Word string | Any | Verb string

fun seg_match :: "segment \<Rightarrow> string \<Rightarrow> bool" where
  "seg_match (Word w) c = (c = w)"
| "seg_match Any c = True"
| "seg_match (Verb v) c = (length v + 1 < length c \<and> drop (length c - (length v + 1)) c = CHR '':'' # v)"

fun add_verb :: "string \<Rightarrow> segment \<Rightarrow> segment" where
  "add_verb v (Word w) = Word (w @ CHR '':'' # v)"
| "add_verb v _ = Verb v"

fun segments_of :: "nat list \<Rightarrow> string list \<Rightarrow> segment list" where
  "segments_of (n # i # ops) pool =
     (if n = 2 then [Word (pool ! i)] else if n = 1 then [Any] else []) @ segments_of ops pool"
| "segments_of _ pool = []"

text \<open>The segments of the paths a pattern matches: its verb, if any, ends the last one.\<close>

definition template :: "Pattern \<Rightarrow> segment list" where
  "template p = (let ts = segments_of (p_ops p) (p_pool p) in
     if p_verb p = [] then ts else butlast ts @ [add_verb (p_verb p) (last ts)])"

definition path_matches :: "segment list \<Rightarrow> string list \<Rightarrow> bool" where
  "path_matches ts cs = list_all2 seg_match ts cs"

text \<open>The text of a pattern: literals and wildcards are pushed, joined and captured.\<close>

fun show_ops :: "nat list \<Rightarrow> string list \<Rightarrow> string list \<Rightarrow> string list" where
  "show_ops (n # i # ops) pool st = show_ops ops pool
     (if n = 2 then pool ! i # st
      else if n = 1 then ''*'' # st
      else if n = 4 then tl (concat (map ((#) (CHR ''/'')) (rev (take i st)))) # drop i st
      else if n = 5 then (if hd st = ''*'' then ''{'' @ pool ! i @ ''}'' else ''{'' @ pool ! i @ ''='' @ hd st @ ''}'') # tl st
      else st)"
| "show_ops _ pool st = st"

definition show_pattern :: "Pattern \<Rightarrow> string" where
  "show_pattern p = concat (map ((#) (CHR ''/'')) (rev (show_ops (p_ops p) (p_pool p) []))) @
     (if p_verb p = [] then [] else CHR '':'' # p_verb p)"

section \<open>Disjoint templates\<close>

fun seg_disjoint :: "segment \<Rightarrow> segment \<Rightarrow> bool" where
  "seg_disjoint (Word a) (Word b) = (a \<noteq> b)"
| "seg_disjoint (Word a) (Verb v) = (\<not> seg_match (Verb v) a)"
| "seg_disjoint (Verb v) (Word a) = (\<not> seg_match (Verb v) a)"
| "seg_disjoint (Verb v) (Verb w) = (v \<noteq> w \<and> CHR '':'' \<notin> set v \<and> CHR '':'' \<notin> set w)"
| "seg_disjoint _ _ = False"

definition apart :: "segment list \<Rightarrow> segment list \<Rightarrow> bool" where
  "apart ts us = (length ts \<noteq> length us \<or> list_ex (\<lambda>(a, b). seg_disjoint a b) (zip ts us))"

lemma seg_match_Verb: "seg_match (Verb v) c \<Longrightarrow> \<exists>b. c = b @ CHR '':'' # v"
  by (metis append_take_drop_id seg_match.simps(3))

text \<open>A word is cut at its last colon in one way only.\<close>

lemma last_colon:
  "b @ x # v = b' @ x # w \<Longrightarrow> x \<notin> set v \<Longrightarrow> x \<notin> set w \<Longrightarrow> v = w"
  by (auto simp: append_eq_append_conv2 Cons_eq_append_conv append_eq_Cons_conv)

lemma verbs_disjoint:
  "seg_match (Verb v) c \<Longrightarrow> seg_match (Verb w) c \<Longrightarrow> CHR '':'' \<notin> set v \<Longrightarrow> CHR '':'' \<notin> set w \<Longrightarrow> v = w"
  by (blast dest: seg_match_Verb last_colon)

lemma seg_disjoint: "seg_disjoint a b \<Longrightarrow> seg_match a c \<Longrightarrow> \<not> seg_match b c"
  by (induction a b rule: seg_disjoint.induct) (auto dest: verbs_disjoint simp del: seg_match.simps(3))

lemma apart:
  assumes "apart ts us" "path_matches ts cs"
  shows "\<not> path_matches us cs"
proof
  assume us: "path_matches us cs"
  with assms have "length us = length cs" "length ts = length cs" by (simp_all add: path_matches_def list_all2_lengthD)
  with assms(1) obtain i where "i < length cs" "seg_disjoint (ts ! i) (us ! i)"
    by (auto simp: apart_def list_ex_length)
  with us assms(2) show False
    using seg_disjoint by (fastforce simp: path_matches_def list_all2_conv_all_nth)
qed

text \<open>Elements of a list that are pairwise related, whatever their order.\<close>

lemma pairwise_related: "sorted_wrt P xs \<Longrightarrow> x \<in> set xs \<Longrightarrow> y \<in> set xs \<Longrightarrow> x = y \<or> P x y \<or> P y x"
  by (induction xs) auto

text \<open>The template covers every path that matches in the sense of \<open>gateway_lib\<close>.\<close>

lemma match_ops_segments:
  "match_ops ops pool comps seg ps = Some ps' \<Longrightarrow> path_matches (segments_of ops pool) comps"
  by (induction ops pool comps seg ps rule: match_ops.induct)
    (auto simp: path_matches_def split: if_splits list.splits)

lemma add_verb_matches:
  assumes "seg_match t (take n c)" and "drop n c = CHR '':'' # v" and "0 < n" and "n < length c"
  shows "seg_match (add_verb v t) c"
proof -
  have c: "c = take n c @ CHR '':'' # v" using append_take_drop_id [of n c] assms(2) by simp
  then have "length c = n + (length v + 1)" using assms(4) by (metis length_append length_take length_Cons min.absorb2 less_imp_le Suc_eq_plus1)
  with assms c show ?thesis by (cases t) simp_all
qed

lemma path_matches_append: "path_matches (ts @ [t]) (cs @ [c]) \<longleftrightarrow> path_matches ts cs \<and> seg_match t c"
  unfolding path_matches_def using list_all2_lengthD [of seg_match "ts @ [t]" "cs @ [c]"] list_all2_lengthD [of seg_match ts cs]
  by (metis butlast_snoc length_butlast list_all2_Cons list_all2_Nil list_all2_append)

lemma match_path_template:
  assumes "match_path p comps = Some ps"
  shows "path_matches (template p) comps"
proof (cases "p_verb p = []")
  case True
  with assms match_ops_segments show ?thesis by (auto simp: match_path_def template_def Let_def)
next
  case False
  let ?c = "last comps" and ?ts = "segments_of (p_ops p) (p_pool p)"
  let ?n = "length ?c - (length (p_verb p) + 1)"
  from assms False have c: "comps \<noteq> []" "0 < ?n" "drop ?n ?c = CHR '':'' # p_verb p"
    and m: "match_ops (p_ops p) (p_pool p) (butlast comps @ [take ?n ?c]) [] Map.empty = Some ps"
    by (auto simp: match_path_def Let_def split: if_splits)
  from match_ops_segments [OF m] have ts: "path_matches ?ts (butlast comps @ [take ?n ?c])" .
  then have "?ts \<noteq> []" by (auto simp: path_matches_def)
  with ts have "path_matches (butlast ?ts) (butlast comps)" "seg_match (last ?ts) (take ?n ?c)"
    using path_matches_append [of "butlast ?ts" "last ?ts"] by simp_all
  moreover have "?n < length ?c" using c(3) by (metis drop_all list.distinct(1) not_le)
  ultimately have "path_matches (butlast ?ts @ [add_verb (p_verb p) (last ?ts)]) (butlast comps @ [?c])"
    unfolding path_matches_append using add_verb_matches c by blast
  with c(1) False show ?thesis by (simp add: template_def Let_def)
qed

section \<open>The routes\<close>

definition route_key :: "route \<Rightarrow> string \<times> segment list" where
  "route_key ro = (ro_method ro, template (ro_pattern ro))"

definition keys_apart :: "string \<times> segment list \<Rightarrow> string \<times> segment list \<Rightarrow> bool" where
  "keys_apart k l = (fst k \<noteq> fst l \<or> apart (snd k) (snd l))"

definition route_keys :: "(string \<times> segment list) list" where
  "route_keys = [(''GET'', [Word ''v1'', Word ''version'']),
     (''GET'', [Word ''v1'', Word ''g'', Any, Word ''persons'', Any]),
     (''GET'', [Word ''v1'', Word ''g'', Any, Word ''persons'']),
     (''GET'', [Word ''v1'', Word ''g'', Any, Word ''relationships'', Any]),
     (''GET'', [Word ''v1'', Word ''g'', Any, Word ''relationships'']),
     (''GET'', [Word ''v1'', Word ''g'', Any, Word ''sources'', Any]),
     (''GET'', [Word ''v1'', Word ''g'', Any, Word ''sources'']),
     (''GET'', [Word ''v1'', Word ''g'', Any, Word ''proposals'', Any]),
     (''GET'', [Word ''v1'', Word ''g'', Any, Word ''proposals'']),
     (''POST'', [Word ''v1'', Word ''g'', Any, Word ''proposals'']),
     (''POST'', [Word ''v1'', Word ''g'', Any, Word ''proposals'', Verb ''submit'']),
     (''POST'', [Word ''v1'', Word ''g'', Any, Word ''proposals'', Verb ''claim'']),
     (''POST'', [Word ''v1'', Word ''g'', Any, Word ''proposals'', Verb ''accept'']),
     (''POST'', [Word ''v1'', Word ''g'', Any, Word ''proposals'', Verb ''reject'']),
     (''POST'', [Word ''v1'', Word ''g'', Any, Word ''proposals'', Verb ''withdraw'']),
     (''POST'', [Word ''v1'', Word ''g'', Any, Word ''proposals:bulkReject'']),
     (''POST'', [Word ''v1'', Word ''g'', Any, Word ''queries:findPaths'']),
     (''POST'', [Word ''v1'', Word ''g'', Any, Word ''queries:nkca'']),
     (''POST'', [Word ''v1'', Word ''genealogies'']),
     (''GET'', [Word ''v1'', Word ''genealogies'']),
     (''GET'', [Word ''v1'', Word ''genealogies'', Any]),
     (''PATCH'', [Word ''v1'', Word ''genealogies'', Any, Word ''visibility'']),
     (''DELETE'', [Word ''v1'', Word ''genealogies'', Any]),
     (''PUT'', [Word ''v1'', Word ''genealogies'', Any, Word ''members'', Any]),
     (''DELETE'', [Word ''v1'', Word ''genealogies'', Any, Word ''members'', Any]),
     (''POST'', [Word ''v1'', Word ''genealogies'', Any, Word ''leave'']),
     (''PUT'', [Word ''v1'', Word ''genealogies'', Any, Word ''bans'', Any]),
     (''DELETE'', [Word ''v1'', Word ''genealogies'', Any, Word ''bans'', Any]),
     (''GET'', [Word ''v1'', Word ''genealogies'', Any, Word ''members''])]"

lemma route_keys: "map route_key routes = route_keys"
  unfolding routes_def register_defs append_Cons append_Nil list.map
  by (simp add: route_key_def route_keys_def template_def pattern_defs)

lemma keys_pairwise: "sorted_wrt keys_apart route_keys"
  by code_simp

lemma routes_apart:
  assumes "ro \<in> set routes" "ro' \<in> set routes" "ro \<noteq> ro'" "ro_method ro = ro_method ro'"
  shows "apart (template (ro_pattern ro)) (template (ro_pattern ro')) \<or> apart (template (ro_pattern ro')) (template (ro_pattern ro))"
proof -
  from keys_pairwise have "sorted_wrt (\<lambda>x y. keys_apart (route_key x) (route_key y)) routes"
    by (simp only: sorted_wrt_map [symmetric] route_keys)
  from pairwise_related [OF this assms(1,2)] assms(3,4) show ?thesis by (auto simp: keys_apart_def route_key_def)
qed

lemma paths_shown: "map (\<lambda>ro. show_pattern (ro_pattern ro)) routes = map ro_path routes"
  unfolding routes_def register_defs append_Cons append_Nil list.map
  by (simp add: show_pattern_def pattern_defs)

section \<open>Properties\<close>

text \<open>
  C21: the routes of the gateway cover disjoint sets of requests, and stand for the URLs they are documented with. Whatever
  the components of a path, at most one route of each method matches them, so the answer to a request does not
  depend on the order in which routes are registered or tried, for every path that a pattern of the library matches is
  one of its template; and the matcher program of every
  route is the compiled form of the URL template its registration names.
\<close>

theorem routes_unambiguous:
  "(\<forall>ro ro' cs. ro \<in> set routes \<longrightarrow> ro' \<in> set routes \<longrightarrow> ro_method ro = ro_method ro' \<longrightarrow>
      path_matches (template (ro_pattern ro)) cs \<longrightarrow> path_matches (template (ro_pattern ro')) cs \<longrightarrow> ro = ro') \<and>
   (\<forall>ro cs ps. match_path (ro_pattern ro) cs = Some ps \<longrightarrow> path_matches (template (ro_pattern ro)) cs) \<and>
   map (\<lambda>ro. show_pattern (ro_pattern ro)) routes = map ro_path routes"
  using routes_apart apart match_path_template paths_shown by blast

theorem routes_unambiguous_witness:
  "path_matches (template (ro_pattern sim_route)) [''v1'', ''genealogies'', ''g2'', ''members''] \<and>
   \<not> path_matches (template pattern_Genealogies_GetGenealogy_0) [''v1'', ''genealogies'', ''g2'', ''members'']"
proof -
  have m: "path_matches (template (ro_pattern sim_route)) [''v1'', ''genealogies'', ''g2'', ''members'']"
    by (simp add: sim_route_def template_def path_matches_def pattern_Genealogies_ListMembers_0_def)
  have g: "route_Genealogies_GetGenealogy_0 \<in> set routes" "ro_method route_Genealogies_GetGenealogy_0 = ''GET''"
    by (simp_all add: routes_def RegisterGenealogiesHandlerClient_def route_Genealogies_GetGenealogy_0_def)
  have "\<not> path_matches (template (ro_pattern route_Genealogies_GetGenealogy_0)) [''v1'', ''genealogies'', ''g2'', ''members'']"
  proof
    assume "path_matches (template (ro_pattern route_Genealogies_GetGenealogy_0)) [''v1'', ''genealogies'', ''g2'', ''members'']"
    with routes_unambiguous [THEN conjunct1, rule_format, OF g(1) sim_route(1)] m g(2)
    have "route_Genealogies_GetGenealogy_0 = sim_route" by (simp add: sim_route_def)
    then show False by (simp add: route_Genealogies_GetGenealogy_0_def sim_route_def)
  qed
  with m show ?thesis by (simp add: route_Genealogies_GetGenealogy_0_def)
qed

end
