(* ===== verification/Grpc_Stubs.thy ===== *)
theory Grpc_Stubs
  imports Wiring
begin

text \<open>
  The generated code between the gRPC library and the services (\<open>gen/go/linea/v1/*_grpc.pb.go\<close>): method
  names, clients, handlers, service descriptions and their registration (\<open>registerServices\<close> of
  \<open>internal/server/server.go\<close>). The library that carries a message from a client to the handler registered
  under a method name is a parameter, with what it promises as the locale \<open>grpc_conn\<close>. The procedures
  that a service does not implement (\<open>Unimplemented...Server\<close>) are left out: every one is implemented.
\<close>

section \<open>Messages and handlers\<close>

text \<open>A request as the library passes it around, a value of any of the request types.\<close>

datatype message =
    MVersionRequest unit
  | MGetPersonRequest pb_GetPersonRequest
  | MListPersonsRequest pb_ListPersonsRequest
  | MGetRelationshipRequest pb_GetRelationshipRequest
  | MListRelationshipsRequest pb_ListRelationshipsRequest
  | MGetSourceRequest pb_GetSourceRequest
  | MListSourcesRequest pb_ListSourcesRequest
  | MGetProposalRequest pb_GetProposalRequest
  | MListProposalsRequest pb_ListProposalsRequest
  | MCreateProposalRequest pb_CreateProposalRequest
  | MTransitionRequest pb_TransitionRequest
  | MBulkRejectRequest pb_BulkRejectRequest
  | MFindPathsRequest pb_FindPathsRequest
  | MNKCARequest pb_NKCARequest
  | MCreateGenealogyRequest pb_CreateGenealogyRequest
  | MListGenealogiesRequest pb_ListGenealogiesRequest
  | MGetGenealogyRequest pb_GetGenealogyRequest
  | MUpdateVisibilityRequest pb_UpdateVisibilityRequest
  | MDeleteGenealogyRequest pb_DeleteGenealogyRequest
  | MUpsertMembershipRequest pb_UpsertMembershipRequest
  | MRemoveMemberRequest pb_RemoveMemberRequest
  | MLeaveGenealogyRequest pb_LeaveGenealogyRequest
  | MBanUserRequest pb_BanUserRequest
  | MUnbanUserRequest pb_UnbanUserRequest
  | MListMembersRequest pb_ListMembersRequest

fun message_type :: "message \<Rightarrow> string" where
  "message_type (MVersionRequest x) = ''VersionRequest''"
| "message_type (MGetPersonRequest x) = ''GetPersonRequest''"
| "message_type (MListPersonsRequest x) = ''ListPersonsRequest''"
| "message_type (MGetRelationshipRequest x) = ''GetRelationshipRequest''"
| "message_type (MListRelationshipsRequest x) = ''ListRelationshipsRequest''"
| "message_type (MGetSourceRequest x) = ''GetSourceRequest''"
| "message_type (MListSourcesRequest x) = ''ListSourcesRequest''"
| "message_type (MGetProposalRequest x) = ''GetProposalRequest''"
| "message_type (MListProposalsRequest x) = ''ListProposalsRequest''"
| "message_type (MCreateProposalRequest x) = ''CreateProposalRequest''"
| "message_type (MTransitionRequest x) = ''TransitionRequest''"
| "message_type (MBulkRejectRequest x) = ''BulkRejectRequest''"
| "message_type (MFindPathsRequest x) = ''FindPathsRequest''"
| "message_type (MNKCARequest x) = ''NKCARequest''"
| "message_type (MCreateGenealogyRequest x) = ''CreateGenealogyRequest''"
| "message_type (MListGenealogiesRequest x) = ''ListGenealogiesRequest''"
| "message_type (MGetGenealogyRequest x) = ''GetGenealogyRequest''"
| "message_type (MUpdateVisibilityRequest x) = ''UpdateVisibilityRequest''"
| "message_type (MDeleteGenealogyRequest x) = ''DeleteGenealogyRequest''"
| "message_type (MUpsertMembershipRequest x) = ''UpsertMembershipRequest''"
| "message_type (MRemoveMemberRequest x) = ''RemoveMemberRequest''"
| "message_type (MLeaveGenealogyRequest x) = ''LeaveGenealogyRequest''"
| "message_type (MBanUserRequest x) = ''BanUserRequest''"
| "message_type (MUnbanUserRequest x) = ''UnbanUserRequest''"
| "message_type (MListMembersRequest x) = ''ListMembersRequest''"

text \<open>
  An interceptor gets the name of the method and the call it guards. A handler gets the service, the
  context, the decoder of the request and the interceptor, if there is one; a connection sends a message
  to a method and returns the response.
\<close>

type_synonym 's procedures = "rpc \<Rightarrow> (response, 's) call"
type_synonym 's interceptor = "string \<Rightarrow> (response, 's) call \<Rightarrow> (response, 's) call"
type_synonym 's handler = "'s procedures \<Rightarrow> Ctx \<Rightarrow> (message \<Rightarrow> err + message) \<Rightarrow> 's interceptor option \<Rightarrow> 's frontend \<Rightarrow>
  ((err + response) \<times> 's frontend) outcome option"
type_synonym 's conn = "string \<Rightarrow> message \<Rightarrow> (response, 's) call"

text \<open>
  What every generated handler does: decode into a new message, then call the procedure directly or
  through the interceptor. The type assertion on the request panics when it fails.
\<close>

definition handle :: "message \<Rightarrow> (message \<Rightarrow> rpc option) \<Rightarrow> string \<Rightarrow> 's handler" where
  "handle new_in as_request FullMethodName srv ctx dec interceptor s =
     (case dec new_in of
        Inl e \<Rightarrow> Some (Ret (Inl e, s))
      | Inr m \<Rightarrow>
          (case as_request m of
             None \<Rightarrow> Some Panic
           | Some r \<Rightarrow>
               (case interceptor of
                  None \<Rightarrow> srv r ctx s
                | Some ic \<Rightarrow> ic FullMethodName (srv r) ctx s)))"

section \<open>Method names\<close>

definition Server_Version_FullMethodName :: string where
  "Server_Version_FullMethodName = ''/linea.v1.Server/Version''"

definition Persons_GetPerson_FullMethodName :: string where
  "Persons_GetPerson_FullMethodName = ''/linea.v1.Persons/GetPerson''"

definition Persons_ListPersons_FullMethodName :: string where
  "Persons_ListPersons_FullMethodName = ''/linea.v1.Persons/ListPersons''"

definition Relationships_GetRelationship_FullMethodName :: string where
  "Relationships_GetRelationship_FullMethodName = ''/linea.v1.Relationships/GetRelationship''"

definition Relationships_ListRelationships_FullMethodName :: string where
  "Relationships_ListRelationships_FullMethodName = ''/linea.v1.Relationships/ListRelationships''"

definition Sources_GetSource_FullMethodName :: string where
  "Sources_GetSource_FullMethodName = ''/linea.v1.Sources/GetSource''"

definition Sources_ListSources_FullMethodName :: string where
  "Sources_ListSources_FullMethodName = ''/linea.v1.Sources/ListSources''"

definition Proposals_GetProposal_FullMethodName :: string where
  "Proposals_GetProposal_FullMethodName = ''/linea.v1.Proposals/GetProposal''"

definition Proposals_ListProposals_FullMethodName :: string where
  "Proposals_ListProposals_FullMethodName = ''/linea.v1.Proposals/ListProposals''"

definition Proposals_CreateProposal_FullMethodName :: string where
  "Proposals_CreateProposal_FullMethodName = ''/linea.v1.Proposals/CreateProposal''"

definition Proposals_Submit_FullMethodName :: string where
  "Proposals_Submit_FullMethodName = ''/linea.v1.Proposals/Submit''"

definition Proposals_Claim_FullMethodName :: string where
  "Proposals_Claim_FullMethodName = ''/linea.v1.Proposals/Claim''"

definition Proposals_Accept_FullMethodName :: string where
  "Proposals_Accept_FullMethodName = ''/linea.v1.Proposals/Accept''"

definition Proposals_Reject_FullMethodName :: string where
  "Proposals_Reject_FullMethodName = ''/linea.v1.Proposals/Reject''"

definition Proposals_Withdraw_FullMethodName :: string where
  "Proposals_Withdraw_FullMethodName = ''/linea.v1.Proposals/Withdraw''"

definition Proposals_BulkReject_FullMethodName :: string where
  "Proposals_BulkReject_FullMethodName = ''/linea.v1.Proposals/BulkReject''"

definition Queries_FindPaths_FullMethodName :: string where
  "Queries_FindPaths_FullMethodName = ''/linea.v1.Queries/FindPaths''"

definition Queries_NKCA_FullMethodName :: string where
  "Queries_NKCA_FullMethodName = ''/linea.v1.Queries/NKCA''"

definition Genealogies_CreateGenealogy_FullMethodName :: string where
  "Genealogies_CreateGenealogy_FullMethodName = ''/linea.v1.Genealogies/CreateGenealogy''"

definition Genealogies_ListGenealogies_FullMethodName :: string where
  "Genealogies_ListGenealogies_FullMethodName = ''/linea.v1.Genealogies/ListGenealogies''"

definition Genealogies_GetGenealogy_FullMethodName :: string where
  "Genealogies_GetGenealogy_FullMethodName = ''/linea.v1.Genealogies/GetGenealogy''"

definition Genealogies_UpdateVisibility_FullMethodName :: string where
  "Genealogies_UpdateVisibility_FullMethodName = ''/linea.v1.Genealogies/UpdateVisibility''"

definition Genealogies_DeleteGenealogy_FullMethodName :: string where
  "Genealogies_DeleteGenealogy_FullMethodName = ''/linea.v1.Genealogies/DeleteGenealogy''"

definition Genealogies_UpsertMembership_FullMethodName :: string where
  "Genealogies_UpsertMembership_FullMethodName = ''/linea.v1.Genealogies/UpsertMembership''"

definition Genealogies_RemoveMember_FullMethodName :: string where
  "Genealogies_RemoveMember_FullMethodName = ''/linea.v1.Genealogies/RemoveMember''"

definition Genealogies_LeaveGenealogy_FullMethodName :: string where
  "Genealogies_LeaveGenealogy_FullMethodName = ''/linea.v1.Genealogies/LeaveGenealogy''"

definition Genealogies_BanUser_FullMethodName :: string where
  "Genealogies_BanUser_FullMethodName = ''/linea.v1.Genealogies/BanUser''"

definition Genealogies_UnbanUser_FullMethodName :: string where
  "Genealogies_UnbanUser_FullMethodName = ''/linea.v1.Genealogies/UnbanUser''"

definition Genealogies_ListMembers_FullMethodName :: string where
  "Genealogies_ListMembers_FullMethodName = ''/linea.v1.Genealogies/ListMembers''"

section \<open>Clients\<close>

definition Server_Version_Client :: "'s conn \<Rightarrow> unit \<Rightarrow> (response, 's) call" where
  "Server_Version_Client cc inp = cc Server_Version_FullMethodName (MVersionRequest inp)"

definition Persons_GetPerson_Client :: "'s conn \<Rightarrow> pb_GetPersonRequest \<Rightarrow> (response, 's) call" where
  "Persons_GetPerson_Client cc inp = cc Persons_GetPerson_FullMethodName (MGetPersonRequest inp)"

definition Persons_ListPersons_Client :: "'s conn \<Rightarrow> pb_ListPersonsRequest \<Rightarrow> (response, 's) call" where
  "Persons_ListPersons_Client cc inp = cc Persons_ListPersons_FullMethodName (MListPersonsRequest inp)"

definition Relationships_GetRelationship_Client :: "'s conn \<Rightarrow> pb_GetRelationshipRequest \<Rightarrow> (response, 's) call" where
  "Relationships_GetRelationship_Client cc inp = cc Relationships_GetRelationship_FullMethodName (MGetRelationshipRequest inp)"

definition Relationships_ListRelationships_Client :: "'s conn \<Rightarrow> pb_ListRelationshipsRequest \<Rightarrow> (response, 's) call" where
  "Relationships_ListRelationships_Client cc inp = cc Relationships_ListRelationships_FullMethodName (MListRelationshipsRequest inp)"

definition Sources_GetSource_Client :: "'s conn \<Rightarrow> pb_GetSourceRequest \<Rightarrow> (response, 's) call" where
  "Sources_GetSource_Client cc inp = cc Sources_GetSource_FullMethodName (MGetSourceRequest inp)"

definition Sources_ListSources_Client :: "'s conn \<Rightarrow> pb_ListSourcesRequest \<Rightarrow> (response, 's) call" where
  "Sources_ListSources_Client cc inp = cc Sources_ListSources_FullMethodName (MListSourcesRequest inp)"

definition Proposals_GetProposal_Client :: "'s conn \<Rightarrow> pb_GetProposalRequest \<Rightarrow> (response, 's) call" where
  "Proposals_GetProposal_Client cc inp = cc Proposals_GetProposal_FullMethodName (MGetProposalRequest inp)"

definition Proposals_ListProposals_Client :: "'s conn \<Rightarrow> pb_ListProposalsRequest \<Rightarrow> (response, 's) call" where
  "Proposals_ListProposals_Client cc inp = cc Proposals_ListProposals_FullMethodName (MListProposalsRequest inp)"

definition Proposals_CreateProposal_Client :: "'s conn \<Rightarrow> pb_CreateProposalRequest \<Rightarrow> (response, 's) call" where
  "Proposals_CreateProposal_Client cc inp = cc Proposals_CreateProposal_FullMethodName (MCreateProposalRequest inp)"

definition Proposals_Submit_Client :: "'s conn \<Rightarrow> pb_TransitionRequest \<Rightarrow> (response, 's) call" where
  "Proposals_Submit_Client cc inp = cc Proposals_Submit_FullMethodName (MTransitionRequest inp)"

definition Proposals_Claim_Client :: "'s conn \<Rightarrow> pb_TransitionRequest \<Rightarrow> (response, 's) call" where
  "Proposals_Claim_Client cc inp = cc Proposals_Claim_FullMethodName (MTransitionRequest inp)"

definition Proposals_Accept_Client :: "'s conn \<Rightarrow> pb_TransitionRequest \<Rightarrow> (response, 's) call" where
  "Proposals_Accept_Client cc inp = cc Proposals_Accept_FullMethodName (MTransitionRequest inp)"

definition Proposals_Reject_Client :: "'s conn \<Rightarrow> pb_TransitionRequest \<Rightarrow> (response, 's) call" where
  "Proposals_Reject_Client cc inp = cc Proposals_Reject_FullMethodName (MTransitionRequest inp)"

definition Proposals_Withdraw_Client :: "'s conn \<Rightarrow> pb_TransitionRequest \<Rightarrow> (response, 's) call" where
  "Proposals_Withdraw_Client cc inp = cc Proposals_Withdraw_FullMethodName (MTransitionRequest inp)"

definition Proposals_BulkReject_Client :: "'s conn \<Rightarrow> pb_BulkRejectRequest \<Rightarrow> (response, 's) call" where
  "Proposals_BulkReject_Client cc inp = cc Proposals_BulkReject_FullMethodName (MBulkRejectRequest inp)"

definition Queries_FindPaths_Client :: "'s conn \<Rightarrow> pb_FindPathsRequest \<Rightarrow> (response, 's) call" where
  "Queries_FindPaths_Client cc inp = cc Queries_FindPaths_FullMethodName (MFindPathsRequest inp)"

definition Queries_NKCA_Client :: "'s conn \<Rightarrow> pb_NKCARequest \<Rightarrow> (response, 's) call" where
  "Queries_NKCA_Client cc inp = cc Queries_NKCA_FullMethodName (MNKCARequest inp)"

definition Genealogies_CreateGenealogy_Client :: "'s conn \<Rightarrow> pb_CreateGenealogyRequest \<Rightarrow> (response, 's) call" where
  "Genealogies_CreateGenealogy_Client cc inp = cc Genealogies_CreateGenealogy_FullMethodName (MCreateGenealogyRequest inp)"

definition Genealogies_ListGenealogies_Client :: "'s conn \<Rightarrow> pb_ListGenealogiesRequest \<Rightarrow> (response, 's) call" where
  "Genealogies_ListGenealogies_Client cc inp = cc Genealogies_ListGenealogies_FullMethodName (MListGenealogiesRequest inp)"

definition Genealogies_GetGenealogy_Client :: "'s conn \<Rightarrow> pb_GetGenealogyRequest \<Rightarrow> (response, 's) call" where
  "Genealogies_GetGenealogy_Client cc inp = cc Genealogies_GetGenealogy_FullMethodName (MGetGenealogyRequest inp)"

definition Genealogies_UpdateVisibility_Client :: "'s conn \<Rightarrow> pb_UpdateVisibilityRequest \<Rightarrow> (response, 's) call" where
  "Genealogies_UpdateVisibility_Client cc inp = cc Genealogies_UpdateVisibility_FullMethodName (MUpdateVisibilityRequest inp)"

definition Genealogies_DeleteGenealogy_Client :: "'s conn \<Rightarrow> pb_DeleteGenealogyRequest \<Rightarrow> (response, 's) call" where
  "Genealogies_DeleteGenealogy_Client cc inp = cc Genealogies_DeleteGenealogy_FullMethodName (MDeleteGenealogyRequest inp)"

definition Genealogies_UpsertMembership_Client :: "'s conn \<Rightarrow> pb_UpsertMembershipRequest \<Rightarrow> (response, 's) call" where
  "Genealogies_UpsertMembership_Client cc inp = cc Genealogies_UpsertMembership_FullMethodName (MUpsertMembershipRequest inp)"

definition Genealogies_RemoveMember_Client :: "'s conn \<Rightarrow> pb_RemoveMemberRequest \<Rightarrow> (response, 's) call" where
  "Genealogies_RemoveMember_Client cc inp = cc Genealogies_RemoveMember_FullMethodName (MRemoveMemberRequest inp)"

definition Genealogies_LeaveGenealogy_Client :: "'s conn \<Rightarrow> pb_LeaveGenealogyRequest \<Rightarrow> (response, 's) call" where
  "Genealogies_LeaveGenealogy_Client cc inp = cc Genealogies_LeaveGenealogy_FullMethodName (MLeaveGenealogyRequest inp)"

definition Genealogies_BanUser_Client :: "'s conn \<Rightarrow> pb_BanUserRequest \<Rightarrow> (response, 's) call" where
  "Genealogies_BanUser_Client cc inp = cc Genealogies_BanUser_FullMethodName (MBanUserRequest inp)"

definition Genealogies_UnbanUser_Client :: "'s conn \<Rightarrow> pb_UnbanUserRequest \<Rightarrow> (response, 's) call" where
  "Genealogies_UnbanUser_Client cc inp = cc Genealogies_UnbanUser_FullMethodName (MUnbanUserRequest inp)"

definition Genealogies_ListMembers_Client :: "'s conn \<Rightarrow> pb_ListMembersRequest \<Rightarrow> (response, 's) call" where
  "Genealogies_ListMembers_Client cc inp = cc Genealogies_ListMembers_FullMethodName (MListMembersRequest inp)"

text \<open>The seven clients of a connection together, as the gateway uses them.\<close>

fun client :: "'s conn \<Rightarrow> 's procedures" where
  "client cc Server_Version = Server_Version_Client cc ()"
| "client cc (Persons_GetPerson r) = Persons_GetPerson_Client cc r"
| "client cc (Persons_ListPersons r) = Persons_ListPersons_Client cc r"
| "client cc (Relationships_GetRelationship r) = Relationships_GetRelationship_Client cc r"
| "client cc (Relationships_ListRelationships r) = Relationships_ListRelationships_Client cc r"
| "client cc (Sources_GetSource r) = Sources_GetSource_Client cc r"
| "client cc (Sources_ListSources r) = Sources_ListSources_Client cc r"
| "client cc (Proposals_GetProposal r) = Proposals_GetProposal_Client cc r"
| "client cc (Proposals_ListProposals r) = Proposals_ListProposals_Client cc r"
| "client cc (Proposals_CreateProposal r) = Proposals_CreateProposal_Client cc r"
| "client cc (Proposals_Submit r) = Proposals_Submit_Client cc r"
| "client cc (Proposals_Claim r) = Proposals_Claim_Client cc r"
| "client cc (Proposals_Accept r) = Proposals_Accept_Client cc r"
| "client cc (Proposals_Reject r) = Proposals_Reject_Client cc r"
| "client cc (Proposals_Withdraw r) = Proposals_Withdraw_Client cc r"
| "client cc (Proposals_BulkReject r) = Proposals_BulkReject_Client cc r"
| "client cc (Queries_FindPaths r) = Queries_FindPaths_Client cc r"
| "client cc (Queries_NKCA r) = Queries_NKCA_Client cc r"
| "client cc (Genealogies_CreateGenealogy r) = Genealogies_CreateGenealogy_Client cc r"
| "client cc (Genealogies_ListGenealogies r) = Genealogies_ListGenealogies_Client cc r"
| "client cc (Genealogies_GetGenealogy r) = Genealogies_GetGenealogy_Client cc r"
| "client cc (Genealogies_UpdateVisibility r) = Genealogies_UpdateVisibility_Client cc r"
| "client cc (Genealogies_DeleteGenealogy r) = Genealogies_DeleteGenealogy_Client cc r"
| "client cc (Genealogies_UpsertMembership r) = Genealogies_UpsertMembership_Client cc r"
| "client cc (Genealogies_RemoveMember r) = Genealogies_RemoveMember_Client cc r"
| "client cc (Genealogies_LeaveGenealogy r) = Genealogies_LeaveGenealogy_Client cc r"
| "client cc (Genealogies_BanUser r) = Genealogies_BanUser_Client cc r"
| "client cc (Genealogies_UnbanUser r) = Genealogies_UnbanUser_Client cc r"
| "client cc (Genealogies_ListMembers r) = Genealogies_ListMembers_Client cc r"

section \<open>Handlers\<close>

definition Server_Version_Handler :: "'s handler" where
  "Server_Version_Handler =
     handle (MVersionRequest ()) (\<lambda>m. case m of MVersionRequest x \<Rightarrow> Some Server_Version | _ \<Rightarrow> None) Server_Version_FullMethodName"

definition Persons_GetPerson_Handler :: "'s handler" where
  "Persons_GetPerson_Handler =
     handle (MGetPersonRequest GetPersonRequest_zero) (\<lambda>m. case m of MGetPersonRequest x \<Rightarrow> Some (Persons_GetPerson x) | _ \<Rightarrow> None) Persons_GetPerson_FullMethodName"

definition Persons_ListPersons_Handler :: "'s handler" where
  "Persons_ListPersons_Handler =
     handle (MListPersonsRequest ListPersonsRequest_zero) (\<lambda>m. case m of MListPersonsRequest x \<Rightarrow> Some (Persons_ListPersons x) | _ \<Rightarrow> None) Persons_ListPersons_FullMethodName"

definition Relationships_GetRelationship_Handler :: "'s handler" where
  "Relationships_GetRelationship_Handler =
     handle (MGetRelationshipRequest GetRelationshipRequest_zero) (\<lambda>m. case m of MGetRelationshipRequest x \<Rightarrow> Some (Relationships_GetRelationship x) | _ \<Rightarrow> None) Relationships_GetRelationship_FullMethodName"

definition Relationships_ListRelationships_Handler :: "'s handler" where
  "Relationships_ListRelationships_Handler =
     handle (MListRelationshipsRequest ListRelationshipsRequest_zero) (\<lambda>m. case m of MListRelationshipsRequest x \<Rightarrow> Some (Relationships_ListRelationships x) | _ \<Rightarrow> None) Relationships_ListRelationships_FullMethodName"

definition Sources_GetSource_Handler :: "'s handler" where
  "Sources_GetSource_Handler =
     handle (MGetSourceRequest GetSourceRequest_zero) (\<lambda>m. case m of MGetSourceRequest x \<Rightarrow> Some (Sources_GetSource x) | _ \<Rightarrow> None) Sources_GetSource_FullMethodName"

definition Sources_ListSources_Handler :: "'s handler" where
  "Sources_ListSources_Handler =
     handle (MListSourcesRequest ListSourcesRequest_zero) (\<lambda>m. case m of MListSourcesRequest x \<Rightarrow> Some (Sources_ListSources x) | _ \<Rightarrow> None) Sources_ListSources_FullMethodName"

definition Proposals_GetProposal_Handler :: "'s handler" where
  "Proposals_GetProposal_Handler =
     handle (MGetProposalRequest GetProposalRequest_zero) (\<lambda>m. case m of MGetProposalRequest x \<Rightarrow> Some (Proposals_GetProposal x) | _ \<Rightarrow> None) Proposals_GetProposal_FullMethodName"

definition Proposals_ListProposals_Handler :: "'s handler" where
  "Proposals_ListProposals_Handler =
     handle (MListProposalsRequest ListProposalsRequest_zero) (\<lambda>m. case m of MListProposalsRequest x \<Rightarrow> Some (Proposals_ListProposals x) | _ \<Rightarrow> None) Proposals_ListProposals_FullMethodName"

definition Proposals_CreateProposal_Handler :: "'s handler" where
  "Proposals_CreateProposal_Handler =
     handle (MCreateProposalRequest CreateProposalRequest_zero) (\<lambda>m. case m of MCreateProposalRequest x \<Rightarrow> Some (Proposals_CreateProposal x) | _ \<Rightarrow> None) Proposals_CreateProposal_FullMethodName"

definition Proposals_Submit_Handler :: "'s handler" where
  "Proposals_Submit_Handler =
     handle (MTransitionRequest TransitionRequest_zero) (\<lambda>m. case m of MTransitionRequest x \<Rightarrow> Some (Proposals_Submit x) | _ \<Rightarrow> None) Proposals_Submit_FullMethodName"

definition Proposals_Claim_Handler :: "'s handler" where
  "Proposals_Claim_Handler =
     handle (MTransitionRequest TransitionRequest_zero) (\<lambda>m. case m of MTransitionRequest x \<Rightarrow> Some (Proposals_Claim x) | _ \<Rightarrow> None) Proposals_Claim_FullMethodName"

definition Proposals_Accept_Handler :: "'s handler" where
  "Proposals_Accept_Handler =
     handle (MTransitionRequest TransitionRequest_zero) (\<lambda>m. case m of MTransitionRequest x \<Rightarrow> Some (Proposals_Accept x) | _ \<Rightarrow> None) Proposals_Accept_FullMethodName"

definition Proposals_Reject_Handler :: "'s handler" where
  "Proposals_Reject_Handler =
     handle (MTransitionRequest TransitionRequest_zero) (\<lambda>m. case m of MTransitionRequest x \<Rightarrow> Some (Proposals_Reject x) | _ \<Rightarrow> None) Proposals_Reject_FullMethodName"

definition Proposals_Withdraw_Handler :: "'s handler" where
  "Proposals_Withdraw_Handler =
     handle (MTransitionRequest TransitionRequest_zero) (\<lambda>m. case m of MTransitionRequest x \<Rightarrow> Some (Proposals_Withdraw x) | _ \<Rightarrow> None) Proposals_Withdraw_FullMethodName"

definition Proposals_BulkReject_Handler :: "'s handler" where
  "Proposals_BulkReject_Handler =
     handle (MBulkRejectRequest BulkRejectRequest_zero) (\<lambda>m. case m of MBulkRejectRequest x \<Rightarrow> Some (Proposals_BulkReject x) | _ \<Rightarrow> None) Proposals_BulkReject_FullMethodName"

definition Queries_FindPaths_Handler :: "'s handler" where
  "Queries_FindPaths_Handler =
     handle (MFindPathsRequest FindPathsRequest_zero) (\<lambda>m. case m of MFindPathsRequest x \<Rightarrow> Some (Queries_FindPaths x) | _ \<Rightarrow> None) Queries_FindPaths_FullMethodName"

definition Queries_NKCA_Handler :: "'s handler" where
  "Queries_NKCA_Handler =
     handle (MNKCARequest NKCARequest_zero) (\<lambda>m. case m of MNKCARequest x \<Rightarrow> Some (Queries_NKCA x) | _ \<Rightarrow> None) Queries_NKCA_FullMethodName"

definition Genealogies_CreateGenealogy_Handler :: "'s handler" where
  "Genealogies_CreateGenealogy_Handler =
     handle (MCreateGenealogyRequest CreateGenealogyRequest_zero) (\<lambda>m. case m of MCreateGenealogyRequest x \<Rightarrow> Some (Genealogies_CreateGenealogy x) | _ \<Rightarrow> None) Genealogies_CreateGenealogy_FullMethodName"

definition Genealogies_ListGenealogies_Handler :: "'s handler" where
  "Genealogies_ListGenealogies_Handler =
     handle (MListGenealogiesRequest ListGenealogiesRequest_zero) (\<lambda>m. case m of MListGenealogiesRequest x \<Rightarrow> Some (Genealogies_ListGenealogies x) | _ \<Rightarrow> None) Genealogies_ListGenealogies_FullMethodName"

definition Genealogies_GetGenealogy_Handler :: "'s handler" where
  "Genealogies_GetGenealogy_Handler =
     handle (MGetGenealogyRequest GetGenealogyRequest_zero) (\<lambda>m. case m of MGetGenealogyRequest x \<Rightarrow> Some (Genealogies_GetGenealogy x) | _ \<Rightarrow> None) Genealogies_GetGenealogy_FullMethodName"

definition Genealogies_UpdateVisibility_Handler :: "'s handler" where
  "Genealogies_UpdateVisibility_Handler =
     handle (MUpdateVisibilityRequest UpdateVisibilityRequest_zero) (\<lambda>m. case m of MUpdateVisibilityRequest x \<Rightarrow> Some (Genealogies_UpdateVisibility x) | _ \<Rightarrow> None) Genealogies_UpdateVisibility_FullMethodName"

definition Genealogies_DeleteGenealogy_Handler :: "'s handler" where
  "Genealogies_DeleteGenealogy_Handler =
     handle (MDeleteGenealogyRequest DeleteGenealogyRequest_zero) (\<lambda>m. case m of MDeleteGenealogyRequest x \<Rightarrow> Some (Genealogies_DeleteGenealogy x) | _ \<Rightarrow> None) Genealogies_DeleteGenealogy_FullMethodName"

definition Genealogies_UpsertMembership_Handler :: "'s handler" where
  "Genealogies_UpsertMembership_Handler =
     handle (MUpsertMembershipRequest UpsertMembershipRequest_zero) (\<lambda>m. case m of MUpsertMembershipRequest x \<Rightarrow> Some (Genealogies_UpsertMembership x) | _ \<Rightarrow> None) Genealogies_UpsertMembership_FullMethodName"

definition Genealogies_RemoveMember_Handler :: "'s handler" where
  "Genealogies_RemoveMember_Handler =
     handle (MRemoveMemberRequest RemoveMemberRequest_zero) (\<lambda>m. case m of MRemoveMemberRequest x \<Rightarrow> Some (Genealogies_RemoveMember x) | _ \<Rightarrow> None) Genealogies_RemoveMember_FullMethodName"

definition Genealogies_LeaveGenealogy_Handler :: "'s handler" where
  "Genealogies_LeaveGenealogy_Handler =
     handle (MLeaveGenealogyRequest LeaveGenealogyRequest_zero) (\<lambda>m. case m of MLeaveGenealogyRequest x \<Rightarrow> Some (Genealogies_LeaveGenealogy x) | _ \<Rightarrow> None) Genealogies_LeaveGenealogy_FullMethodName"

definition Genealogies_BanUser_Handler :: "'s handler" where
  "Genealogies_BanUser_Handler =
     handle (MBanUserRequest BanUserRequest_zero) (\<lambda>m. case m of MBanUserRequest x \<Rightarrow> Some (Genealogies_BanUser x) | _ \<Rightarrow> None) Genealogies_BanUser_FullMethodName"

definition Genealogies_UnbanUser_Handler :: "'s handler" where
  "Genealogies_UnbanUser_Handler =
     handle (MUnbanUserRequest UnbanUserRequest_zero) (\<lambda>m. case m of MUnbanUserRequest x \<Rightarrow> Some (Genealogies_UnbanUser x) | _ \<Rightarrow> None) Genealogies_UnbanUser_FullMethodName"

definition Genealogies_ListMembers_Handler :: "'s handler" where
  "Genealogies_ListMembers_Handler =
     handle (MListMembersRequest ListMembersRequest_zero) (\<lambda>m. case m of MListMembersRequest x \<Rightarrow> Some (Genealogies_ListMembers x) | _ \<Rightarrow> None) Genealogies_ListMembers_FullMethodName"

section \<open>Service descriptions and their registration\<close>

record 's ServiceDesc =
  ServiceName :: string
  Methods :: "(string \<times> 's handler) list"

definition Server_ServiceDesc :: "'s ServiceDesc" where
  "Server_ServiceDesc =
     \<lparr>ServiceName = ''linea.v1.Server'',
      Methods = [(''Version'', Server_Version_Handler)]\<rparr>"

definition Persons_ServiceDesc :: "'s ServiceDesc" where
  "Persons_ServiceDesc =
     \<lparr>ServiceName = ''linea.v1.Persons'',
      Methods = [(''GetPerson'', Persons_GetPerson_Handler),
                 (''ListPersons'', Persons_ListPersons_Handler)]\<rparr>"

definition Relationships_ServiceDesc :: "'s ServiceDesc" where
  "Relationships_ServiceDesc =
     \<lparr>ServiceName = ''linea.v1.Relationships'',
      Methods = [(''GetRelationship'', Relationships_GetRelationship_Handler),
                 (''ListRelationships'', Relationships_ListRelationships_Handler)]\<rparr>"

definition Sources_ServiceDesc :: "'s ServiceDesc" where
  "Sources_ServiceDesc =
     \<lparr>ServiceName = ''linea.v1.Sources'',
      Methods = [(''GetSource'', Sources_GetSource_Handler),
                 (''ListSources'', Sources_ListSources_Handler)]\<rparr>"

definition Proposals_ServiceDesc :: "'s ServiceDesc" where
  "Proposals_ServiceDesc =
     \<lparr>ServiceName = ''linea.v1.Proposals'',
      Methods = [(''GetProposal'', Proposals_GetProposal_Handler),
                 (''ListProposals'', Proposals_ListProposals_Handler),
                 (''CreateProposal'', Proposals_CreateProposal_Handler),
                 (''Submit'', Proposals_Submit_Handler),
                 (''Claim'', Proposals_Claim_Handler),
                 (''Accept'', Proposals_Accept_Handler),
                 (''Reject'', Proposals_Reject_Handler),
                 (''Withdraw'', Proposals_Withdraw_Handler),
                 (''BulkReject'', Proposals_BulkReject_Handler)]\<rparr>"

definition Queries_ServiceDesc :: "'s ServiceDesc" where
  "Queries_ServiceDesc =
     \<lparr>ServiceName = ''linea.v1.Queries'',
      Methods = [(''FindPaths'', Queries_FindPaths_Handler),
                 (''NKCA'', Queries_NKCA_Handler)]\<rparr>"

definition Genealogies_ServiceDesc :: "'s ServiceDesc" where
  "Genealogies_ServiceDesc =
     \<lparr>ServiceName = ''linea.v1.Genealogies'',
      Methods = [(''CreateGenealogy'', Genealogies_CreateGenealogy_Handler),
                 (''ListGenealogies'', Genealogies_ListGenealogies_Handler),
                 (''GetGenealogy'', Genealogies_GetGenealogy_Handler),
                 (''UpdateVisibility'', Genealogies_UpdateVisibility_Handler),
                 (''DeleteGenealogy'', Genealogies_DeleteGenealogy_Handler),
                 (''UpsertMembership'', Genealogies_UpsertMembership_Handler),
                 (''RemoveMember'', Genealogies_RemoveMember_Handler),
                 (''LeaveGenealogy'', Genealogies_LeaveGenealogy_Handler),
                 (''BanUser'', Genealogies_BanUser_Handler),
                 (''UnbanUser'', Genealogies_UnbanUser_Handler),
                 (''ListMembers'', Genealogies_ListMembers_Handler)]\<rparr>"

text \<open>The services registered with a server so far are the argument and the result.\<close>

definition RegisterServerServer :: "'s ServiceDesc list \<Rightarrow> 's ServiceDesc list" where
  "RegisterServerServer g = g @ [Server_ServiceDesc]"

definition RegisterPersonsServer :: "'s ServiceDesc list \<Rightarrow> 's ServiceDesc list" where
  "RegisterPersonsServer g = g @ [Persons_ServiceDesc]"

definition RegisterRelationshipsServer :: "'s ServiceDesc list \<Rightarrow> 's ServiceDesc list" where
  "RegisterRelationshipsServer g = g @ [Relationships_ServiceDesc]"

definition RegisterSourcesServer :: "'s ServiceDesc list \<Rightarrow> 's ServiceDesc list" where
  "RegisterSourcesServer g = g @ [Sources_ServiceDesc]"

definition RegisterProposalsServer :: "'s ServiceDesc list \<Rightarrow> 's ServiceDesc list" where
  "RegisterProposalsServer g = g @ [Proposals_ServiceDesc]"

definition RegisterQueriesServer :: "'s ServiceDesc list \<Rightarrow> 's ServiceDesc list" where
  "RegisterQueriesServer g = g @ [Queries_ServiceDesc]"

definition RegisterGenealogiesServer :: "'s ServiceDesc list \<Rightarrow> 's ServiceDesc list" where
  "RegisterGenealogiesServer g = g @ [Genealogies_ServiceDesc]"

definition registerServices :: "'s ServiceDesc list \<Rightarrow> 's ServiceDesc list" where
  "registerServices g =
     RegisterGenealogiesServer (RegisterQueriesServer (RegisterProposalsServer 
       (RegisterSourcesServer (RegisterRelationshipsServer (RegisterPersonsServer (RegisterServerServer g))))))"

lemmas full_method_defs = Server_Version_FullMethodName_def Persons_GetPerson_FullMethodName_def
    Persons_ListPersons_FullMethodName_def Relationships_GetRelationship_FullMethodName_def
    Relationships_ListRelationships_FullMethodName_def Sources_GetSource_FullMethodName_def
    Sources_ListSources_FullMethodName_def Proposals_GetProposal_FullMethodName_def
    Proposals_ListProposals_FullMethodName_def Proposals_CreateProposal_FullMethodName_def
    Proposals_Submit_FullMethodName_def Proposals_Claim_FullMethodName_def Proposals_Accept_FullMethodName_def
    Proposals_Reject_FullMethodName_def Proposals_Withdraw_FullMethodName_def Proposals_BulkReject_FullMethodName_def
    Queries_FindPaths_FullMethodName_def Queries_NKCA_FullMethodName_def
    Genealogies_CreateGenealogy_FullMethodName_def Genealogies_ListGenealogies_FullMethodName_def
    Genealogies_GetGenealogy_FullMethodName_def Genealogies_UpdateVisibility_FullMethodName_def
    Genealogies_DeleteGenealogy_FullMethodName_def Genealogies_UpsertMembership_FullMethodName_def
    Genealogies_RemoveMember_FullMethodName_def Genealogies_LeaveGenealogy_FullMethodName_def
    Genealogies_BanUser_FullMethodName_def Genealogies_UnbanUser_FullMethodName_def
    Genealogies_ListMembers_FullMethodName_def

lemmas client_defs = Server_Version_Client_def Persons_GetPerson_Client_def Persons_ListPersons_Client_def
    Relationships_GetRelationship_Client_def Relationships_ListRelationships_Client_def Sources_GetSource_Client_def
    Sources_ListSources_Client_def Proposals_GetProposal_Client_def Proposals_ListProposals_Client_def
    Proposals_CreateProposal_Client_def Proposals_Submit_Client_def Proposals_Claim_Client_def
    Proposals_Accept_Client_def Proposals_Reject_Client_def Proposals_Withdraw_Client_def
    Proposals_BulkReject_Client_def Queries_FindPaths_Client_def Queries_NKCA_Client_def
    Genealogies_CreateGenealogy_Client_def Genealogies_ListGenealogies_Client_def Genealogies_GetGenealogy_Client_def
    Genealogies_UpdateVisibility_Client_def Genealogies_DeleteGenealogy_Client_def
    Genealogies_UpsertMembership_Client_def Genealogies_RemoveMember_Client_def Genealogies_LeaveGenealogy_Client_def
    Genealogies_BanUser_Client_def Genealogies_UnbanUser_Client_def Genealogies_ListMembers_Client_def

lemmas grpc_handler_defs = Server_Version_Handler_def Persons_GetPerson_Handler_def Persons_ListPersons_Handler_def
    Relationships_GetRelationship_Handler_def Relationships_ListRelationships_Handler_def
    Sources_GetSource_Handler_def Sources_ListSources_Handler_def Proposals_GetProposal_Handler_def
    Proposals_ListProposals_Handler_def Proposals_CreateProposal_Handler_def Proposals_Submit_Handler_def
    Proposals_Claim_Handler_def Proposals_Accept_Handler_def Proposals_Reject_Handler_def
    Proposals_Withdraw_Handler_def Proposals_BulkReject_Handler_def Queries_FindPaths_Handler_def
    Queries_NKCA_Handler_def Genealogies_CreateGenealogy_Handler_def Genealogies_ListGenealogies_Handler_def
    Genealogies_GetGenealogy_Handler_def Genealogies_UpdateVisibility_Handler_def
    Genealogies_DeleteGenealogy_Handler_def Genealogies_UpsertMembership_Handler_def
    Genealogies_RemoveMember_Handler_def Genealogies_LeaveGenealogy_Handler_def Genealogies_BanUser_Handler_def
    Genealogies_UnbanUser_Handler_def Genealogies_ListMembers_Handler_def

lemmas service_defs = Server_ServiceDesc_def Persons_ServiceDesc_def Relationships_ServiceDesc_def
    Sources_ServiceDesc_def Proposals_ServiceDesc_def Queries_ServiceDesc_def Genealogies_ServiceDesc_def
    RegisterServerServer_def RegisterPersonsServer_def RegisterRelationshipsServer_def RegisterSourcesServer_def
    RegisterProposalsServer_def RegisterQueriesServer_def RegisterGenealogiesServer_def registerServices_def

section \<open>The library between client and server\<close>

text \<open>
  The decoder a handler gets for a message that was sent: it fills a message of the same type. Of the
  errors of a call only the status reaches the client, which is \<open>st\<close>.
\<close>

definition decoded :: "message \<Rightarrow> message \<Rightarrow> err + message" where
  "decoded msg new_in = (if message_type new_in = message_type msg then Inr msg else Inl (ErrExt ''cannot unmarshal''))"

definition carried :: "(err \<Rightarrow> err) \<Rightarrow> ((err + 'a) \<times> 's frontend) outcome option \<Rightarrow> ((err + 'a) \<times> 's frontend) outcome option" where
  "carried st = map_option (map_outcome (map_prod (map_sum st id) id))"

locale grpc_conn =
  fixes cc :: "'s conn" and st :: "err \<Rightarrow> err" and srv :: "'s procedures" and ic :: "'s interceptor" and ds :: "'s ServiceDesc list"
  assumes deliver: "d \<in> set ds \<Longrightarrow> (m, h) \<in> set (Methods d) \<Longrightarrow>
    cc (''/'' @ ServiceName d @ ''/'' @ m) msg ctx s = carried st (h srv ctx (decoded msg) (Some ic) s)"

lemma carried_Inr: "carried st h = Some (Ret (Inr x, s')) \<longleftrightarrow> h = Some (Ret (Inr x, s'))"
proof -
  have "map_sum st id r = Inr x \<longleftrightarrow> r = Inr x" for r :: "err + 'a" by (cases r) simp_all
  then show ?thesis unfolding carried_def map_handled_Ret by (auto simp: eq_commute [of "Inr x"])
qed

lemma handle_decoded:
  assumes "message_type new_in = message_type msg" and "as_request msg = Some r"
  shows "handle new_in as_request m srv ctx (decoded msg) (Some ic) s = ic m (srv r) ctx s"
  using assms by (simp add: handle_def decoded_def)

text \<open>The methods a server offers, by their full name.\<close>

definition method_table :: "'s ServiceDesc list \<Rightarrow> (string \<times> 's handler) list" where
  "method_table ds = concat (map (\<lambda>d. map (\<lambda>(m, h). (''/'' @ ServiceName d @ ''/'' @ m, h)) (Methods d)) ds)"

lemma method_names_distinct: "distinct (map fst (method_table (registerServices [])))"
  by (simp add: method_table_def service_defs)

text \<open>A library that looks a method up in the table and hands the message over, for evaluations.\<close>

definition loopback :: "(err \<Rightarrow> err) \<Rightarrow> 's procedures \<Rightarrow> 's interceptor \<Rightarrow> 's conn" where
  "loopback st srv ic m msg ctx s =
     (case map_of (method_table (registerServices [])) m of
        None \<Rightarrow> Some (Ret (Inl (StatusError (GCodeOther 12) ''unknown method''), s))
      | Some h \<Rightarrow> carried st (h srv ctx (decoded msg) (Some ic) s))"

interpretation loop: grpc_conn "loopback st srv ic" st srv ic "registerServices []" for st srv ic
proof (unfold_locales, goal_cases)
  case (1 d m h msg ctx s)
  then have "(''/'' @ ServiceName d @ ''/'' @ m, h) \<in> set (method_table (registerServices []))"
    by (force simp: method_table_def)
  then have "map_of (method_table (registerServices [])) (''/'' @ ServiceName d @ ''/'' @ m) = Some h"
    by (rule map_of_is_SomeI [OF method_names_distinct])
  then show ?case by (simp add: loopback_def)
qed

lemma table_delivers:
  assumes "grpc_conn cc st srv ic ds"
  shows "list_all (\<lambda>(m, h). \<forall>msg ctx s. cc m msg ctx s = carried st (h srv ctx (decoded msg) (Some ic) s)) (method_table ds)"
  using grpc_conn.deliver [OF assms] by (auto simp: list_all_iff method_table_def)

lemma client_connected:
  assumes "grpc_conn cc st srv ic (registerServices [])"
  shows "client cc r ctx s = carried st (ic (FullMethod r) (srv r) ctx s)"
proof -
  note table = table_delivers [OF assms, unfolded method_table_def service_defs, simplified]
  show ?thesis
    by (cases r) (simp_all add: client_defs full_method_defs table grpc_handler_defs handle_decoded)
qed

section \<open>The interceptors of the server\<close>

definition chain ::
  "('fs, 'h, 'rtx, 'wtx, 'path, 'anc) core \<Rightarrow> ('prov, 'tok) oidc \<Rightarrow> 'prov Verifier option \<Rightarrow> int \<Rightarrow> 's interceptor" where
  "chain C X verifier now m h =
     LoggingInterceptor m
       (AuthInterceptor (Error_String C) X verifier noAuth m
         (RateLimitInterceptor now SubjectOrPeerKey m
           (RoleInterceptor buildLegacyRoleMap m
             (ErrorInterceptor (Error_String C) m h))))"

lemma chain_unary: "chain C X verifier now (FullMethod r) (procedure C D ver q r) = unary C D X verifier ver q now r"
  by (simp add: chain_def unary_def Let_def)

text \<open>The server of the program as its clients see it.\<close>

abbreviation connected where
  "connected cc st C D X verifier ver q now \<equiv>
     grpc_conn cc st (procedure C D ver q) (chain C X verifier now) (registerServices [])"

lemma connected_Inr:
  assumes "connected cc st C D X verifier ver q now" and "client cc r ctx s = Some (Ret (Inr x, s'))"
  shows "unary C D X verifier ver q now r ctx s = Some (Ret (Inr x, s'))"
  using assms(2) unfolding client_connected [OF assms(1)] chain_unary carried_Inr .

section \<open>Properties\<close>

text \<open>
  C22: the generated stubs connect every client method with its procedure. The method names of all services
  are distinct; and over a library that delivers a message to the handler registered under the name it was sent
  to, calling any procedure through the client is calling that procedure, with the same request,
  through the server's interceptors under its own method name, errors reduced to their status.
\<close>

theorem stubs_connect:
  assumes "connected cc st C D X verifier ver q now"
  shows "distinct (map fst (method_table (registerServices [] :: ('db, 'h, 'fs) server ServiceDesc list))) \<and>
    client cc r ctx s = carried st (unary C D X verifier ver q now r ctx (s :: ('db, 'h, 'fs) server frontend))"
  using method_names_distinct client_connected [OF assms] by (simp add: chain_unary)

theorem stubs_connect_witness:
  "client (loopback id (procedure sim_core sim_deps ''v1'' (sim_call [])) (chain sim_core sim_oidc None 0)) sim_list sim_ctx (sim_frontend sim_owned) =
   carried id (unary sim_core sim_deps sim_oidc None ''v1'' (sim_call []) 0 sim_list sim_ctx (sim_frontend sim_owned))"
  using stubs_connect [OF loop.grpc_conn_axioms] by blast

end
