(* ===== verification/Concurrency.thy ===== *)
theory Concurrency
  imports Wiring
begin

text \<open>
  Calls that run at the same time. The server takes every call in a goroutine of its own and holds no lock over a
  whole handler, so the parts of two handlers can alternate. Three places where that matters: a quota is
  checked before the work and counted after it (\<open>quota_run\<close>, a step relation over any number of callers),
  \<open>LeaveGenealogy\<close> counts the Owners before it deletes a membership, and \<open>Resolve\<close> reads the store
  before it writes its cache. The two latter are split into their parts here, each with the lemma that the parts
  one after the other are the handler; the properties say exactly what an interleaving can do.
\<close>

section \<open>Quotas under concurrent callers\<close>

text \<open>
  A caller of a quota first checks and later counts, without a lock over both: \<open>pending\<close> maps the
  callers that have passed the check, and not yet counted, to the key they asked for. At most \<open>n\<close>
  callers are at work at a time.
\<close>

inductive quota_run ::
  "('k \<Rightarrow> 'db \<Rightarrow> err + unit) \<Rightarrow> ('k \<Rightarrow> 'db \<Rightarrow> (err + unit) \<times> 'db) \<Rightarrow> nat \<Rightarrow> 'db \<Rightarrow> 'db \<Rightarrow> (nat \<rightharpoonup> 'k) \<Rightarrow> bool"
  for check use n db0 where
  init: "quota_run check use n db0 db0 Map.empty"
| pass: "quota_run check use n db0 db pending \<Longrightarrow> w < n \<Longrightarrow> pending w = None \<Longrightarrow> check k db = nil_err \<Longrightarrow>
    quota_run check use n db0 db (pending(w \<mapsto> k))"
| counted: "quota_run check use n db0 db pending \<Longrightarrow> pending w = Some k \<Longrightarrow>
    quota_run check use n db0 (snd (use k db)) (pending(w := None))"

abbreviation asking :: "(nat \<rightharpoonup> 'k) \<Rightarrow> 'k \<Rightarrow> nat set" where
  "asking pending k \<equiv> {w. pending w = Some k}"

lemma asking_upd:
  "pending w = None \<Longrightarrow> asking (pending(w \<mapsto> k)) k' = (if k' = k then insert w (asking pending k) else asking pending k')"
  "pending w = Some k \<Longrightarrow> asking (pending(w := None)) k' = (if k' = k then asking pending k - {w} else asking pending k')"
  by (auto split: if_splits)

lemma quota_run_callers: "quota_run check use n db0 db pending \<Longrightarrow> asking pending k \<subseteq> {..<n}"
  by (induction rule: quota_run.induct) (auto split: if_splits)

text \<open>What \<open>n\<close> callers can make of a limit: at most \<open>n - 1\<close> too many, and that many.\<close>

definition overshoot_exact ::
  "('k \<Rightarrow> 'db \<Rightarrow> err + unit) \<Rightarrow> ('k \<Rightarrow> 'db \<Rightarrow> (err + unit) \<times> 'db) \<Rightarrow> ('db \<Rightarrow> 'k \<Rightarrow> uint64) \<Rightarrow> uint64 \<Rightarrow> nat \<Rightarrow> 'db \<Rightarrow> bool" where
  "overshoot_exact check use cnt limit n db0 \<longleftrightarrow>
     (\<forall>db pending k. quota_run check use n db0 db pending \<longrightarrow> unat (cnt db k) \<le> unat limit + (n - 1)) \<and>
     (\<forall>k. cnt db0 k = limit - 1 \<longrightarrow>
        (\<exists>db. quota_run check use n db0 db Map.empty \<and> unat (cnt db k) = unat limit - 1 + n))"

context quota_guard
begin

lemma quota_run_bound:
  assumes "quota_run check use n db0 db pending" and "ok db0" and "limit \<noteq> 0" and "\<forall>k. cval db0 k \<le> limit"
    and "unat limit + n \<le> 2 ^ 64"
  shows "ok db \<and> (\<forall>k. unat (cval db k) + card (asking pending k) \<le> unat limit + (n - 1))"
  using assms(1)
proof (induction rule: quota_run.induct)
  case init
  then show ?case using assms(2,4) by (auto simp: word_le_nat_alt intro: trans_le_add1)
next
  case (pass db pending w k)
  have sub: "asking (pending(w \<mapsto> k)) k \<subseteq> {..<n}"
    using quota_run_callers [OF quota_run.pass [OF pass.hyps]] .
  have "cval db k < limit" using pass.hyps(4) pass.IH assms(3) by (auto simp: check_eq split: if_splits)
  then have "unat (cval db k) < unat limit" by (simp add: word_less_nat_alt)
  moreover have "card (asking (pending(w \<mapsto> k)) k) \<le> n" using card_mono [OF _ sub] by simp
  ultimately have "unat (cval db k) + card (asking (pending(w \<mapsto> k)) k) \<le> unat limit + (n - 1)"
    using pass.hyps(2) by simp
  then show ?case using pass.IH by (auto simp: asking_upd(1) [of pending w, OF pass.hyps(3)] simp del: fun_upd_apply)
next
  case (counted db pending w k)
  have fin: "finite (asking pending k)" using quota_run_callers [OF counted.hyps(1)] finite_subset by blast
  have w: "w \<in> asking pending k" using counted.hyps(2) by simp
  have c: "card (asking pending k) = Suc (card (asking pending k - {w}))" by (rule card.remove [OF fin w])
  have "n \<noteq> 0" using quota_run_callers [OF counted.hyps(1), of k] w by auto
  then have room: "unat (cval db k) < 2 ^ 64 - 1"
    using counted.IH c assms(5) by (auto dest!: spec [of _ k])
  have "unat (cval (snd (use k db)) k') = (if k' = k then unat (cval db k) + 1 else unat (cval db k'))" for k'
    using counted.IH counter_add_one [of "cval db k"] room by (simp add: use_eq inc_value)
  then show ?case
    using counted.IH c
    by (auto simp: asking_upd(2) [of pending w, OF counted.hyps(2)] use_eq inc_ok simp del: fun_upd_apply dest: spec [of _ k])
qed

lemma all_pass:
  assumes "check k db0 = nil_err" and "m \<le> n"
  shows "quota_run check use n db0 db0 (\<lambda>w. if w < m then Some k else None)"
  using assms(2)
proof (induction m)
  case 0
  then show ?case using quota_run.init by (simp add: fun_eq_iff)
next
  case (Suc m)
  have "(\<lambda>w. if w < Suc m then Some k else None) = (\<lambda>w. if w < m then Some k else None)(m \<mapsto> k)" by (auto simp: fun_eq_iff)
  then show ?case using quota_run.pass [OF Suc.IH, of m k] Suc.prems assms(1) by simp
qed

lemma all_count:
  assumes "check k db0 = nil_err" and "ok db0" and "unat (cval db0 k) + n < 2 ^ 64" and "j \<le> n"
  shows "\<exists>db. quota_run check use n db0 db (\<lambda>w. if j \<le> w \<and> w < n then Some k else None) \<and> ok db \<and>
    unat (cval db k) = unat (cval db0 k) + j"
  using assms(4)
proof (induction j)
  case 0
  then show ?case using all_pass [OF assms(1), of n n] assms(2) by auto
next
  case (Suc j)
  then obtain db where db: "quota_run check use n db0 db (\<lambda>w. if j \<le> w \<and> w < n then Some k else None)" "ok db"
    "unat (cval db k) = unat (cval db0 k) + j" by auto
  have "(\<lambda>w. if Suc j \<le> w \<and> w < n then Some k else None) = (\<lambda>w. if j \<le> w \<and> w < n then Some k else None)(j := None)"
    by (auto simp: fun_eq_iff)
  then have "quota_run check use n db0 (snd (use k db)) (\<lambda>w. if Suc j \<le> w \<and> w < n then Some k else None)"
    using quota_run.counted [OF db(1), of j k] Suc.prems by simp
  moreover have "unat (cval (snd (use k db)) k) = unat (cval db0 k) + Suc j"
    using db(2,3) Suc.prems assms(3) counter_add_one [of "cval db k"] by (simp add: use_eq inc_value)
  moreover have "ok (snd (use k db))" using db(2) by (simp add: use_eq inc_ok)
  ultimately show ?case by blast
qed

lemma quota_run_attained:
  assumes "ok db0" and "cval db0 k < limit" and "unat (cval db0 k) + n < 2 ^ 64"
  shows "\<exists>db. quota_run check use n db0 db Map.empty \<and> unat (cval db k) = unat (cval db0 k) + n"
proof -
  have "check k db0 = nil_err" using assms(1,2) by (simp add: check_eq)
  moreover have "(\<lambda>w. if n \<le> w \<and> w < n then Some k else None) = Map.empty" by (simp add: fun_eq_iff)
  ultimately show ?thesis using all_count [OF _ assms(1,3) order_refl] by auto
qed

lemma quota_overshoot:
  assumes "ok db0" and "limit \<noteq> 0" and "\<forall>k. cval db0 k \<le> limit" and "unat limit + n \<le> 2 ^ 64"
  shows "overshoot_exact check use cval limit n db0"
proof -
  have lim: "unat (limit - 1) = unat limit - 1" "0 < unat limit" using assms(2) by (simp_all add: unat_minus_one unat_gt_0)
  have "unat (cval db k) \<le> unat limit + (n - 1)" if "quota_run check use n db0 db pending" for db pending k
    using quota_run_bound [OF that assms] by (auto dest!: spec [of _ k])
  moreover have "\<exists>db. quota_run check use n db0 db Map.empty \<and> unat (cval db k) = unat limit - 1 + n"
    if k: "cval db0 k = limit - 1" for k
  proof -
    have "cval db0 k < limit" "unat (cval db0 k) + n < 2 ^ 64" using k lim assms(4) by (simp_all add: word_less_nat_alt)
    from quota_run_attained [OF assms(1) this] k lim show ?thesis by simp
  qed
  ultimately show ?thesis by (simp add: overshoot_exact_def)
qed

end

context badger_total
begin

lemmas quota_overshoots = person_quota.quota_overshoot private_quota.quota_overshoot

end

section \<open>Leaving while others leave\<close>

text \<open>
  The two parts of \<open>LeaveGenealogy\<close>: what it reads and decides, with its answer when it ends there, and
  what it writes. Another call can run in between.
\<close>

definition Leave_check ::
  "('db, 'tx, 'fs, 'h) platformDeps \<Rightarrow> callenv \<Rightarrow> pb_LeaveGenealogyRequest \<Rightarrow> 'db \<Rightarrow> (err + unit) option" where
  "Leave_check D q req db =
     (let B = dp_badger D; gid = LeaveGenealogyRequest_Id req; sub = q_Subject q in
      if sub = [] then Some (Inl (invalid ''authentication required''))
      else
        (case GetMembership B gid sub db of
           Inl e \<Rightarrow> if errors_Is e ErrNotFound then Some nil_err else Some (Inl e)
         | Inr existing \<Rightarrow>
             if m_Role existing = RoleOwner then
               (case countOwners B gid db of
                  Inl e \<Rightarrow> Some (Inl e)
                | Inr n \<Rightarrow>
                    if n \<le> 1
                    then Some (Inl (invalid ''the last Owner cannot leave; transfer ownership or delete the genealogy''))
                    else None)
             else None))"

definition Leave_delete ::
  "('db, 'tx, 'fs, 'h) platformDeps \<Rightarrow> callenv \<Rightarrow> pb_LeaveGenealogyRequest \<Rightarrow> ('db, 'h, 'fs) server \<Rightarrow>
   (err + unit) \<times> ('db, 'h, 'fs) server" where
  "Leave_delete D q req s =
     (case on_db (DeleteMembership (dp_badger D) (LeaveGenealogyRequest_Id req) (q_Subject q)) s of
        (Inl e, s2) \<Rightarrow> (Inl e, s2)
      | (Inr _, s2) \<Rightarrow> (nil_err, on_cache (Invalidate (q_Subject q) (LeaveGenealogyRequest_Id req)) s2))"

lemma LeaveGenealogy_phases:
  "LeaveGenealogy D q req s =
     (case Leave_check D q req (sv_db s) of Some r \<Rightarrow> (r, s) | None \<Rightarrow> Leave_delete D q req s)"
  by (auto simp: LeaveGenealogy_def Leave_check_def Leave_delete_def Let_def split: sum.splits)

context service
begin

lemma Leave_check_owner:
  assumes "server_ok kv s" and "slash_free (LeaveGenealogyRequest_Id req)"
    and "q_Subject q \<in> owners (kv (sv_db s)) (LeaveGenealogyRequest_Id req)"
    and "1 < card (owners (kv (sv_db s)) (LeaveGenealogyRequest_Id req))"
  shows "Leave_check D q req (sv_db s) = None"
proof -
  note wf = server_okD(1) [OF assms(1)]
  from assms(3) obtain r where r: "mem_at (kv (sv_db s)) (LeaveGenealogyRequest_Id req) (q_Subject q) = Inr r" "m_Role r = RoleOwner"
    by (auto simp: owners_def)
  from wf_mem_cases [OF wf assms(2), of "q_Subject q"] r(1) have "m_Subject r = q_Subject q \<and> wf_membership r"
    by (elim disjE exE conjE) simp_all
  then have "q_Subject q \<noteq> []" by (auto simp: wf_membership_def)
  then show ?thesis
    using r assms(4) countOwners_eq [OF wf assms(2)] by (simp add: Leave_check_def Let_def Get_eqs)
qed

lemma Leave_delete_run:
  assumes "server_ok kv s" and "slash_free (LeaveGenealogyRequest_Id req)"
  shows "\<exists>s'. Leave_delete D q req s = (nil_err, s') \<and> server_ok kv s' \<and>
    owners (kv (sv_db s')) (LeaveGenealogyRequest_Id req) = owners (kv (sv_db s)) (LeaveGenealogyRequest_Id req) - {q_Subject q}"
  using DeleteMembership_run [OF assms, of "q_Subject q"] owners_delete [OF assms(2)] unfolding Leave_delete_def by auto

end

section \<open>Revoking while a role is looked up\<close>

text \<open>
  The two parts of \<open>Resolve\<close>: the lookup, with whether its result is to be cached, and the write to the
  cache.
\<close>

definition Resolve_read ::
  "('db, 'tx) badger \<Rightarrow> int \<Rightarrow> string \<Rightarrow> string \<Rightarrow> cache \<Rightarrow> 'db \<Rightarrow> (err + Decision) \<times> bool" where
  "Resolve_read B t_get subject gid c db =
     (if gid = [] then (Inl ErrNotAllowed, False)
      else
        case cache_get t_get c subject gid of
          Some d \<Rightarrow> (Inr d, False)
        | None \<Rightarrow>
            (case GetGenealogy B gid db of
               Inl e \<Rightarrow> if errors_Is e ErrNotFound then (Inl ErrNotAllowed, False) else (Inl e, False)
             | Inr g \<Rightarrow>
                 (case resolveLocked B subject g db of
                    Inl e \<Rightarrow> (Inl e, False)
                  | Inr d \<Rightarrow> (Inr d, True))))"

lemma Resolve_phases:
  "Resolve B t_get t_put sub gid c db =
     (case Resolve_read B t_get sub gid c db of
        (Inr d, True) \<Rightarrow> (Inr d, cache_put t_put sub gid d c)
      | (r, _) \<Rightarrow> (r, c))"
  by (auto simp: Resolve_def Resolve_read_def split: option.splits sum.splits)

lemma cache_get_put: "cache_get t (cache_put t_put sub gid d c) sub gid = (if t_put + c_ttl c < t then None else Some d)"
  by (simp add: cache_get_def cache_put_def)

context badger_total
begin

lemma Resolve_after_put:
  assumes "platform_wf (kv db)" and "gid \<noteq> []" and "granted (kv db) sub gid = None"
  shows "fst (Resolve B t t' sub gid (cache_put t_put sub gid d c) db) =
    (if t \<le> t_put + c_ttl c then Inr d else Inl ErrNotAllowed)"
proof (cases "t \<le> t_put + c_ttl c")
  case False
  let ?c = "cache_put t_put sub gid d c"
  have miss: "cache_get t ?c sub gid = None" "cache_get t (NewResolver 0) sub gid = None"
    using False by (simp_all only: cache_get_put) (simp_all add: cache_get_def NewResolver_def newCache_def)
  then have "fst (Resolve B t t' sub gid ?c db) = fst (Resolve B t t' sub gid (NewResolver 0) db)"
    by (auto simp: Resolve_def split: sum.splits)
  then show ?thesis using Resolve_eq [OF assms(1) coherent_new(2) assms(2)] assms(3) False by simp
qed (simp add: Resolve_def cache_get_put assms(2))

end

section \<open>Properties\<close>

text \<open>
  C15: the quotas under concurrency. With at most \<open>n\<close> callers between the check and the count at any time,
  in every interleaving, the number of persons of a genealogy stays below its limit plus \<open>n\<close>, and so
  does the number of private genealogies of a user; no better bound holds, for \<open>n\<close> callers that check
  before any of them counts all pass when there is room for one. So calls one at a time keep a limit
  exactly, and \<open>n\<close> concurrent calls can pass it by \<open>n - 1\<close>.
\<close>

theorem quotas_overshoot_exactly:
  assumes "badger_total B kv tkv" and "counters_wf (kv db0)"
    and "MaxPersonsPerGenealogy limits \<noteq> 0" and "MaxPrivateGenealogiesPerUser limits \<noteq> 0"
    and "\<forall>gid. counter_at (kv db0) (personCountKey gid) \<le> MaxPersonsPerGenealogy limits"
    and "\<forall>sub. counter_at (kv db0) (userPrivateGenCountKey sub) \<le> MaxPrivateGenealogiesPerUser limits"
    and "unat (MaxPersonsPerGenealogy limits) + n \<le> 2 ^ 64" and "unat (MaxPrivateGenealogiesPerUser limits) + n \<le> 2 ^ 64"
  shows "overshoot_exact (CheckCreatePerson B limits) (IncPerson B) (\<lambda>db gid. counter_at (kv db) (personCountKey gid))
      (MaxPersonsPerGenealogy limits) n db0 \<and>
    overshoot_exact (CheckCreatePrivateGenealogy B limits) (IncPrivateGenealogy B)
      (\<lambda>db sub. counter_at (kv db) (userPrivateGenCountKey sub)) (MaxPrivateGenealogiesPerUser limits) n db0"
  using badger_total.quota_overshoots(1) [OF assms(1,2,3,5,7)] badger_total.quota_overshoots(2) [OF assms(1,2,4,6,8)] by blast

theorem quotas_overshoot_exactly_witness:
  "\<exists>db. quota_run (CheckCreatePrivateGenealogy mem_badger Default) (IncPrivateGenealogy mem_badger) 3
       [(userPrivateGenCountKey ''ann'', Raw (PutUint64 4))] db Map.empty \<and>
     unat (counter_at (map_of db) (userPrivateGenCountKey ''ann'')) = 7"
proof -
  let ?k = userPrivateGenCountKey and ?db = "[(userPrivateGenCountKey ''ann'', Raw (PutUint64 4))] :: memdb"
  have m: "map_of ?db = Map.empty(?k ''ann'' \<mapsto> Raw (PutUint64 4))" by simp
  have wf: "counters_wf (map_of ?db)" unfolding m by (intro counters_wf_upd counters_wf_empty)
  have zero: "counter_at Map.empty k = 0" for k by (simp add: counter_at_def counter_of_def)
  have keys: "?k ''ann'' = ?k sub \<longleftrightarrow> sub = ''ann''" "?k ''ann'' \<noteq> personCountKey gid" for sub gid
    by (auto simp: userPrivateGenCountKey_def personCountKey_def)
  have priv: "counter_at (map_of ?db) (?k sub) = (if sub = ''ann'' then 4 else 0)" for sub
    unfolding m by (cases "sub = ''ann''") (simp_all add: counter_at_other zero keys(1))
  have pers: "counter_at (map_of ?db) (personCountKey gid) = 0" for gid
    unfolding m by (simp only: counter_at_other [OF keys(2)] zero)
  have lims: "MaxPersonsPerGenealogy Default \<noteq> 0" "MaxPrivateGenealogiesPerUser Default \<noteq> 0"
    "unat (MaxPersonsPerGenealogy Default) + 3 \<le> 2 ^ 64" "unat (MaxPrivateGenealogiesPerUser Default) + 3 \<le> 2 ^ 64"
    by (simp_all add: Default_def)
  have below: "\<forall>gid. counter_at (map_of ?db) (personCountKey gid) \<le> MaxPersonsPerGenealogy Default"
    "\<forall>sub. counter_at (map_of ?db) (?k sub) \<le> MaxPrivateGenealogiesPerUser Default"
    unfolding pers priv by (simp_all add: Default_def)
  have "overshoot_exact (CheckCreatePrivateGenealogy mem_badger Default) (IncPrivateGenealogy mem_badger)
      (\<lambda>db sub. counter_at (map_of db) (?k sub)) (MaxPrivateGenealogiesPerUser Default) 3 ?db"
    using quotas_overshoot_exactly [OF mem.badger_total_axioms, OF wf lims(1,2) below lims(3,4)] by (rule conjunct2)
  then have "counter_at (map_of ?db) (?k ''ann'') = MaxPrivateGenealogiesPerUser Default - 1 \<longrightarrow>
      (\<exists>db. quota_run (CheckCreatePrivateGenealogy mem_badger Default) (IncPrivateGenealogy mem_badger) 3 ?db db Map.empty \<and>
        unat (counter_at (map_of db) (?k ''ann'')) = unat (MaxPrivateGenealogiesPerUser Default) - 1 + 3)"
    unfolding overshoot_exact_def by blast
  then show ?thesis unfolding priv by (simp add: Default_def)
qed

text \<open>
  C35: the last two Owners can leave together. Each part of \<open>LeaveGenealogy\<close> on its own is right, but the
  count of Owners and the deletion are not one transaction: when both Owners of a genealogy pass the
  check before either deletes, both calls succeed and the genealogy has no Owner.
\<close>

theorem all_owners_can_leave:
  assumes "badger_total (dp_badger D) kv tkv" and "server_ok kv s" and "slash_free (LeaveGenealogyRequest_Id req)"
    and "owners (kv (sv_db s)) (LeaveGenealogyRequest_Id req) = {q_Subject q1, q_Subject q2}" and "q_Subject q1 \<noteq> q_Subject q2"
  shows "Leave_check D q1 req (sv_db s) = None \<and> Leave_check D q2 req (sv_db s) = None \<and>
    (\<exists>s1 s2. Leave_delete D q1 req s = (nil_err, s1) \<and> Leave_delete D q2 req s1 = (nil_err, s2) \<and>
       server_ok kv s2 \<and> owners (kv (sv_db s2)) (LeaveGenealogyRequest_Id req) = {})"
proof -
  note svc = service_of [OF assms(1)]
  have two: "1 < card (owners (kv (sv_db s)) (LeaveGenealogyRequest_Id req))" using assms(4,5) by simp
  obtain s1 where s1: "Leave_delete D q1 req s = (nil_err, s1)" "server_ok kv s1"
    "owners (kv (sv_db s1)) (LeaveGenealogyRequest_Id req) = {q_Subject q2}"
    using service.Leave_delete_run [OF svc assms(2,3), of q1] assms(4,5) by auto
  obtain s2 where s2: "Leave_delete D q2 req s1 = (nil_err, s2)" "server_ok kv s2"
    "owners (kv (sv_db s2)) (LeaveGenealogyRequest_Id req) = {}"
    using service.Leave_delete_run [OF svc s1(2) assms(3), of q2] s1(3) by auto
  show ?thesis
    using service.Leave_check_owner [OF svc assms(2,3) _ two] assms(4) s1(1) s2 by blast
qed

definition sim_two_owners :: "(memdb, string, Proposal list) server" where
  "sim_two_owners = sim_server\<lparr>sv_db := sim_rows ''bob'' RoleOwner @ sim_db\<rparr>"

definition sim_leave :: pb_LeaveGenealogyRequest where
  "sim_leave = \<lparr>LeaveGenealogyRequest_Id = ''g1''\<rparr>"

lemma sim_two_owners_ok:
  "server_ok map_of sim_two_owners" "owners (map_of (sv_db sim_two_owners)) ''g1'' = {''ann'', ''bob''}"
proof -
  let ?m = "sim_member ''bob'' RoleOwner"
  have db: "map_of (sv_db sim_two_owners) = (map_of sim_db)
      (membershipKey ''g1'' ''bob'' \<mapsto> MarshalMembership ?m, reverseMembershipKey ''bob'' ''g1'' \<mapsto> MarshalMembership ?m)"
    by (simp add: sim_two_owners_def sim_rows_def)
  have m: "wf_membership ?m" "m_Subject ?m = ''bob''" "m_GenealogyID ?m = ''g1''" "m_Role ?m = RoleOwner"
    by (simp_all add: wf_membership_def sim_member_def slash_free_def Role_IsValid_iff)
  have "platform_wf (map_of (sv_db sim_two_owners))"
    unfolding db using platform_wf_membership [OF sim_db_wf(1) m(1)] m(2,3) by simp
  moreover have "counters_wf (map_of (sv_db sim_two_owners))"
    unfolding db by (intro counters_wf_frame sim_db_wf(2)) simp_all
  ultimately show "server_ok map_of sim_two_owners"
    by (simp add: server_ok_def) (simp add: sim_two_owners_def sim_server_def)
  have "slash_free ''g1''" by (simp add: slash_free_def)
  from owners_upsert [OF this, of "map_of sim_db" "''bob''" ?m] m(4) sim_owners
  show "owners (map_of (sv_db sim_two_owners)) ''g1'' = {''ann'', ''bob''}" unfolding db by auto
qed

theorem all_owners_can_leave_witness:
  "\<exists>s1 s2. Leave_check sim_deps (sim_call ''bob'') sim_leave (sv_db sim_two_owners) = None \<and>
     Leave_delete sim_deps (sim_call ''ann'') sim_leave sim_two_owners = (nil_err, s1) \<and>
     Leave_delete sim_deps (sim_call ''bob'') sim_leave s1 = (nil_err, s2) \<and> owners (map_of (sv_db s2)) ''g1'' = {}"
proof -
  have "slash_free (LeaveGenealogyRequest_Id sim_leave)"
    "owners (map_of (sv_db sim_two_owners)) (LeaveGenealogyRequest_Id sim_leave) =
       {q_Subject (sim_call ''ann''), q_Subject (sim_call ''bob'')}"
    "q_Subject (sim_call ''ann'') \<noteq> q_Subject (sim_call ''bob'')"
    by (simp_all add: sim_leave_def slash_free_def sim_call_def sim_two_owners_ok(2))
  from all_owners_can_leave [OF sim_total, OF sim_two_owners_ok(1) this]
  show ?thesis by (auto simp: sim_leave_def)
qed

text \<open>
  C36: a removed member can keep access for one time to live. When a lookup of the member's role has read
  the store before \<open>RemoveMember\<close> deletes the membership, and writes the cache after \<open>RemoveMember\<close> has
  invalidated it, the old decision is handed out until the entry expires, and not longer.
\<close>

theorem removed_member_keeps_access:
  assumes "badger_total (dp_badger D) kv tkv" and "server_ok kv s" and "RemoveMember D q req s = (nil_err, s')"
    and "gid = RemoveMemberRequest_GenealogyId req" and "sub = TrimSpace (RemoveMemberRequest_Subject req)"
    and "Resolve_read (dp_badger D) t0 sub gid (sv_cache s) (sv_db s) = (Inr d, True)"
    and "granted (kv (sv_db s')) sub gid = None"
  shows "granted (kv (sv_db s)) sub gid = Some d \<and>
    fst (Resolve (dp_badger D) t t' sub gid (cache_put t_put sub gid d (sv_cache s')) (sv_db s')) =
      (if t \<le> t_put + c_ttl (sv_cache s') then Inr d else Inl ErrNotAllowed)"
proof -
  have gid: "gid \<noteq> []" using assms(6) by (auto simp: Resolve_read_def)
  have ok': "server_ok kv s'" using service.RemoveMember_spec [OF service_of [OF assms(1)] assms(2,3)] by blast
  have "fst (Resolve (dp_badger D) t0 t0 sub gid (sv_cache s) (sv_db s)) = Inr d" by (simp add: Resolve_phases assms(6))
  then have "granted (kv (sv_db s)) sub gid = Some d"
    using badger_total.Resolve_eq [OF assms(1) server_okD(1,3) [OF assms(2)] gid] by (simp split: option.splits)
  then show ?thesis using badger_total.Resolve_after_put [OF assms(1) server_okD(1) [OF ok'] gid assms(7)] by blast
qed

theorem removed_member_keeps_access_witness:
  "\<exists>s' d. RemoveMember sim_deps (sim_call ''ann'') (sim_remove ''bob'') sim_server = (nil_err, s') \<and>
     granted (map_of (sv_db s')) ''bob'' ''g1'' = None \<and>
     fst (Resolve mem_badger 20 20 ''bob'' ''g1'' (cache_put 12 ''bob'' ''g1'' d (sv_cache s')) (sv_db s')) = Inr d"
proof -
  let ?d = "\<lparr>d_GenealogyID = ''g1'', d_Role = RoleCurator, d_Implicit = False\<rparr>"
  let ?s' = "snd (RemoveMember sim_deps (sim_call ''ann'') (sim_remove ''bob'') sim_server)"
  have trim: "TrimSpace ''bob'' = ''bob''" by code_simp
  have "fst (RemoveMember sim_deps (sim_call ''ann'') (sim_remove ''bob'') sim_server) = nil_err" by code_simp
  then have run: "RemoveMember sim_deps (sim_call ''ann'') (sim_remove ''bob'') sim_server = (nil_err, ?s')"
    by (simp add: prod_eq_iff)
  have read: "Resolve_read (dp_badger sim_deps) 9 ''bob'' ''g1'' (sv_cache sim_server) (sv_db sim_server) = (Inr ?d, True)" by code_simp
  have none: "granted (map_of (sv_db ?s')) ''bob'' ''g1'' = None" by code_simp
  have ttl: "20 \<le> 12 + c_ttl (sv_cache ?s')" by code_simp
  have args: "''g1'' = RemoveMemberRequest_GenealogyId (sim_remove ''bob'')"
    "''bob'' = TrimSpace (RemoveMemberRequest_Subject (sim_remove ''bob''))"
    by (simp_all add: sim_remove_def trim)
  have "fst (Resolve (dp_badger sim_deps) 20 20 ''bob'' ''g1'' (cache_put 12 ''bob'' ''g1'' ?d (sv_cache ?s')) (sv_db ?s')) = Inr ?d"
    using removed_member_keeps_access [OF sim_total, OF sim_ok run args read none, of 20 20 12] ttl by simp
  with run none show ?thesis by (auto simp: sim_deps_def)
qed

end
