(* ===== verification/API_Types.thy ===== *)
theory API_Types
  imports Dispatch
begin

text \<open>
  What a response looks like. The enumerations of the API are open integers and its fields may be
  absent, so the messages' types say little; here are the well-formed messages, with declared
  enumeration values and present identifiers, and the responses each procedure promises. The
  property is that every response of the server is one of those.
\<close>

section \<open>Well-formed messages\<close>

abbreviation declared :: "nat \<Rightarrow> int32 \<Rightarrow> bool" where
  "declared n x \<equiv> unat x \<le> n"

abbreviation specified :: "nat \<Rightarrow> int32 \<Rightarrow> bool" where
  "specified n x \<equiv> x \<noteq> 0 \<and> unat x \<le> n"

definition ok_stamp :: "int64 option \<Rightarrow> bool" where
  "ok_stamp t \<longleftrightarrow> (case t of None \<Rightarrow> True | Some n \<Rightarrow> 0 <s n)"

definition ok_Genealogy :: "pb_Genealogy \<Rightarrow> bool" where
  "ok_Genealogy g \<longleftrightarrow> Genealogy_Id g \<noteq> [] \<and> specified 3 (Genealogy_Visibility g) \<and> ok_stamp (Genealogy_CreatedAt g) \<and>
     specified 5 (Genealogy_MyRole g) \<and> Genealogy_MyRole g \<noteq> GENEALOGY_ROLE_NONE"

definition ok_Membership :: "pb_Membership \<Rightarrow> bool" where
  "ok_Membership m \<longleftrightarrow> Membership_Subject m \<noteq> [] \<and> Membership_GenealogyId m \<noteq> [] \<and> ok_stamp (Membership_GrantedAt m) \<and>
     specified 5 (Membership_Role m) \<and> Membership_Role m \<noteq> GENEALOGY_ROLE_NONE"

definition ok_Ban :: "pb_Ban \<Rightarrow> bool" where
  "ok_Ban b \<longleftrightarrow> Ban_Subject b \<noteq> [] \<and> Ban_GenealogyId b \<noteq> [] \<and> ok_stamp (Ban_At b)"

definition ok_Person :: "pb_Person \<Rightarrow> bool" where
  "ok_Person p \<longleftrightarrow> Person_Id p \<noteq> None"

definition ok_Continuity :: "pb_Continuity option \<Rightarrow> bool" where
  "ok_Continuity x \<longleftrightarrow>
     (case x of None \<Rightarrow> False
      | Some c \<Rightarrow> declared 2 (Continuity_State c) \<and>
          (Continuity_GapKnownSize c \<longrightarrow> Continuity_State c = CONTINUITY_STATE_GAPPED) \<and>
          (\<not> Continuity_GapKnownSize c \<longrightarrow> Continuity_GapSize c = 0))"

definition ok_Relationship :: "pb_Relationship \<Rightarrow> bool" where
  "ok_Relationship r \<longleftrightarrow> Relationship_Id r \<noteq> None \<and> Relationship_FromPerson r \<noteq> None \<and> Relationship_ToPerson r \<noteq> None \<and>
     declared 2 (Relationship_Type r) \<and> declared 3 (Relationship_Certainty r) \<and> ok_Continuity (Relationship_Continuity r)"

definition ok_Source :: "pb_Source \<Rightarrow> bool" where
  "ok_Source x \<longleftrightarrow> Source_Id x \<noteq> None \<and> declared 5 (Source_Type x)"

definition ok_Transition :: "pb_ProposalTransition \<Rightarrow> bool" where
  "ok_Transition h \<longleftrightarrow> declared 6 (ProposalTransition_From h) \<and> declared 6 (ProposalTransition_To h) \<and>
     ok_stamp (ProposalTransition_At h)"

definition ok_Proposal :: "pb_Proposal \<Rightarrow> bool" where
  "ok_Proposal p \<longleftrightarrow> Proposal_Id p \<noteq> None \<and> Proposal_TargetId p \<noteq> None \<and> Proposal_SecondaryId p \<noteq> None \<and>
     declared 6 (Proposal_State p) \<and> declared 5 (Proposal_Action p) \<and> declared 3 (Proposal_EntityKind p) \<and>
     ok_stamp (Proposal_CreatedAt p) \<and> list_all ok_Transition (Proposal_History p)"

definition ok_Step :: "pb_Step \<Rightarrow> bool" where
  "ok_Step e \<longleftrightarrow> Step_FromPerson e \<noteq> None \<and> Step_ToPerson e \<noteq> None \<and> Step_RelationshipId e \<noteq> None \<and>
     declared 2 (Step_Type e) \<and> declared 3 (Step_Certainty e) \<and> ok_Continuity (Step_Continuity e)"

definition ok_Path :: "pb_Path \<Rightarrow> bool" where
  "ok_Path p \<longleftrightarrow> Path_From p \<noteq> None \<and> Path_To p \<noteq> None \<and> declared 3 (Path_Certainty p) \<and>
     declared 2 (Path_Classification p) \<and> list_all ok_Step (Path_Steps p)"

definition given :: "('a \<Rightarrow> bool) \<Rightarrow> 'a option \<Rightarrow> bool" where
  "given P x = (case x of None \<Rightarrow> False | Some y \<Rightarrow> P y)"

section \<open>What each procedure promises of its response\<close>

fun response_ok :: "rpc \<Rightarrow> response \<Rightarrow> bool" where
  "response_ok Server_Version y =
     (case y of AVersion x \<Rightarrow> (VersionResponse_SpecVersion x = specVersion)
      | _ \<Rightarrow> False)"
| "response_ok (Persons_GetPerson r) y =
     (case y of AGetPerson x \<Rightarrow> given ok_Person (GetPersonResponse_Person x)
      | _ \<Rightarrow> False)"
| "response_ok (Persons_ListPersons r) y =
     (case y of AListPersons x \<Rightarrow> list_all ok_Person (ListPersonsResponse_Persons x)
      | _ \<Rightarrow> False)"
| "response_ok (Relationships_GetRelationship r) y =
     (case y of AGetRelationship x \<Rightarrow> given ok_Relationship (GetRelationshipResponse_Relationship x)
      | _ \<Rightarrow> False)"
| "response_ok (Relationships_ListRelationships r) y =
     (case y of AListRelationships x \<Rightarrow> list_all ok_Relationship (ListRelationshipsResponse_Relationships x)
      | _ \<Rightarrow> False)"
| "response_ok (Sources_GetSource r) y =
     (case y of AGetSource x \<Rightarrow> given ok_Source (GetSourceResponse_Source x)
      | _ \<Rightarrow> False)"
| "response_ok (Sources_ListSources r) y =
     (case y of AListSources x \<Rightarrow> list_all ok_Source (ListSourcesResponse_Sources x)
      | _ \<Rightarrow> False)"
| "response_ok (Proposals_GetProposal r) y =
     (case y of AGetProposal x \<Rightarrow> given ok_Proposal (GetProposalResponse_Proposal x)
      | _ \<Rightarrow> False)"
| "response_ok (Proposals_ListProposals r) y =
     (case y of AListProposals x \<Rightarrow>
        list_all ok_Proposal (ListProposalsResponse_Proposals x)
      | _ \<Rightarrow> False)"
| "response_ok (Proposals_CreateProposal r) y =
     (case y of ACreateProposal x \<Rightarrow> given ok_Proposal (CreateProposalResponse_Proposal x)
      | _ \<Rightarrow> False)"
| "response_ok (Proposals_Submit r) y = (case y of AProposal x \<Rightarrow> ok_Proposal x | _ \<Rightarrow> False)"
| "response_ok (Proposals_Withdraw r) y = (case y of AProposal x \<Rightarrow> ok_Proposal x | _ \<Rightarrow> False)"
| "response_ok (Proposals_Claim r) y = (case y of AProposal x \<Rightarrow> ok_Proposal x | _ \<Rightarrow> False)"
| "response_ok (Proposals_Accept r) y = (case y of AProposal x \<Rightarrow> ok_Proposal x | _ \<Rightarrow> False)"
| "response_ok (Proposals_Reject r) y = (case y of AProposal x \<Rightarrow> ok_Proposal x | _ \<Rightarrow> False)"
| "response_ok (Proposals_BulkReject r) y =
     (case y of ABulkReject x \<Rightarrow>
        (map BulkRejectResult_Id (BulkRejectResponse_Results x) = map Some (BulkRejectRequest_Ids r) \<and>
         list_all (\<lambda>y. BulkRejectResult_Ok y \<longrightarrow> BulkRejectResult_Error y = []) (BulkRejectResponse_Results x))
      | _ \<Rightarrow> False)"
| "response_ok (Queries_FindPaths r) y =
     (case y of AFindPaths x \<Rightarrow> list_all ok_Path (FindPathsResponse_Paths x)
      | _ \<Rightarrow> False)"
| "response_ok (Queries_NKCA r) y =
     (case y of ANKCA x \<Rightarrow>
        (NKCAResponse_AncestorId x \<noteq> None \<and> declared 3 (NKCAResponse_CombinedCertainty x) \<and>
         pred_option ok_Path (NKCAResponse_PathFromA x) \<and> pred_option ok_Path (NKCAResponse_PathFromB x))
      | _ \<Rightarrow> False)"
| "response_ok (Genealogies_CreateGenealogy r) y =
     (case y of ACreateGenealogy x \<Rightarrow>
        given (\<lambda>g. ok_Genealogy g \<and> Genealogy_MyRole g = GENEALOGY_ROLE_OWNER \<and>
          (specified 3 (CreateGenealogyRequest_Visibility r) \<longrightarrow> Genealogy_Visibility g = CreateGenealogyRequest_Visibility r))
          (CreateGenealogyResponse_Genealogy x)
      | _ \<Rightarrow> False)"
| "response_ok (Genealogies_ListGenealogies r) y =
     (case y of AListGenealogies x \<Rightarrow>
        (list_all ok_Genealogy (ListGenealogiesResponse_Genealogies x) \<and>
         distinct (map Genealogy_Id (ListGenealogiesResponse_Genealogies x)))
      | _ \<Rightarrow> False)"
| "response_ok (Genealogies_GetGenealogy r) y =
     (case y of AGetGenealogy x \<Rightarrow>
        given (\<lambda>g. ok_Genealogy g \<and> Genealogy_Id g = GetGenealogyRequest_Id r) (GetGenealogyResponse_Genealogy x)
      | _ \<Rightarrow> False)"
| "response_ok (Genealogies_UpdateVisibility r) y =
     (case y of AGenealogy x \<Rightarrow>
        (ok_Genealogy x \<and> Genealogy_Id x = UpdateVisibilityRequest_Id r \<and>
         Genealogy_Visibility x = UpdateVisibilityRequest_Visibility r \<and> Genealogy_MyRole x = GENEALOGY_ROLE_OWNER)
      | _ \<Rightarrow> False)"
| "response_ok (Genealogies_DeleteGenealogy r) y = (case y of AEmpty \<Rightarrow> True | _ \<Rightarrow> False)"
| "response_ok (Genealogies_UpsertMembership r) y =
     (case y of AMembership x \<Rightarrow>
        (ok_Membership x \<and> Membership_GenealogyId x = UpsertMembershipRequest_GenealogyId r \<and>
         Membership_Subject x = TrimSpace (UpsertMembershipRequest_Subject r) \<and>
         Membership_Role x = UpsertMembershipRequest_Role r)
      | _ \<Rightarrow> False)"
| "response_ok (Genealogies_RemoveMember r) y = (case y of AEmpty \<Rightarrow> True | _ \<Rightarrow> False)"
| "response_ok (Genealogies_LeaveGenealogy r) y = (case y of AEmpty \<Rightarrow> True | _ \<Rightarrow> False)"
| "response_ok (Genealogies_ListMembers r) y =
     (case y of AListMembers x \<Rightarrow>
        (list_all (\<lambda>m. ok_Membership m \<and> Membership_GenealogyId m = ListMembersRequest_GenealogyId r)
        (ListMembersResponse_Memberships x) \<and>
         distinct (map Membership_Subject (ListMembersResponse_Memberships x)))
      | _ \<Rightarrow> False)"
| "response_ok (Genealogies_BanUser r) y =
     (case y of ABan x \<Rightarrow>
        (ok_Ban x \<and> Ban_GenealogyId x = BanUserRequest_GenealogyId r \<and> Ban_Subject x = BanUserRequest_Subject r)
      | _ \<Rightarrow> False)"
| "response_ok (Genealogies_UnbanUser r) y = (case y of AEmpty \<Rightarrow> True | _ \<Rightarrow> False)"

section \<open>The converted messages are well-formed\<close>

named_theorems api_types

lemma ok_timestamp [api_types]: "ok_stamp (timestamp n)"
  by (simp add: ok_stamp_def timestamp_def)

lemma declared_enums [api_types]:
  "declared 3 (certaintyToProto c)" "declared 2 (relTypeToProto t)" "declared 5 (sourceTypeToProto st)"
  "declared 6 (proposalStateToProto ps)" "declared 5 (actionToProto a)" "declared 3 (entityKindToProto k)"
  "declared 2 (classificationToProto pc)"
  by (simp_all add: core_mapper_defs sourceTypeToProto_def classificationToProto_def)

lemma specified_visibility: "Visibility_IsValid v \<Longrightarrow> specified 3 (visibilityToProto v)"
  by (auto simp: Visibility_IsValid_def visibilityToProto_def)

lemma specified_role: "Role_IsValid r \<Longrightarrow> specified 5 (roleToProto r) \<and> roleToProto r \<noteq> GENEALOGY_ROLE_NONE"
  by (auto simp: Role_IsValid_iff roleToProto_def)

lemma ok_genealogyToProto: "wf_genealogy g \<Longrightarrow> Role_IsValid r \<Longrightarrow> ok_Genealogy (genealogyToProto g r)"
  using specified_visibility specified_role
  by (simp add: ok_Genealogy_def genealogyToProto_def wf_genealogy_def ok_timestamp)

lemma ok_membershipToProto: "wf_membership m \<Longrightarrow> ok_Membership (membershipToProto m)"
  using specified_role by (simp add: ok_Membership_def membershipToProto_def wf_membership_def ok_timestamp)

lemma ok_banToProto: "wf_ban b \<Longrightarrow> ok_Ban (banToProto b)"
  by (simp add: ok_Ban_def banToProto_def wf_ban_def ok_timestamp)

lemma ok_continuityToProto [api_types]: "ok_Continuity (Some (continuityToProto c))"
  by (simp add: ok_Continuity_def continuityToProto_def)

lemma ok_personToProto [api_types]: "ok_Person (personToProto C p)"
  by (simp add: ok_Person_def personToProto_def)

lemma ok_relationshipToProto [api_types]: "ok_Relationship (relationshipToProto C r)"
  by (simp add: ok_Relationship_def relationshipToProto_def api_types)

lemma ok_sourceToProto [api_types]: "ok_Source (sourceToProto C x)"
  by (simp add: ok_Source_def sourceToProto_def api_types)

lemma ok_proposalToProto [api_types]: "ok_Proposal (proposalToProto C p)"
  by (simp add: ok_Proposal_def proposalToProto_def ok_Transition_def transitionToProto_def list_all_iff api_types)

lemma ok_pathExplanationToProto [api_types]: "ok_Path (pathExplanationToProto C x)"
  by (simp add: ok_Path_def pathExplanationToProto_def ok_Step_def stepToProto_def list_all_iff api_types)

lemma explain_paths_ok: "explain_paths C rtx ps = Inr xs \<Longrightarrow> list_all ok_Path xs"
  by (induction ps arbitrary: xs) (auto simp: api_types split: sum.splits)

section \<open>The handlers over a graph\<close>

lemma with_store_Inr:
  "with_store D q gid minRole submission k s = Some (Ret (Inr x, s')) \<Longrightarrow> \<exists>st s1. k st s1 = (Inr x, s')"
  by (auto simp: with_store_def split: option.splits outcome.splits sum.splits prod.splits)

lemma viewing_Inr: "viewing C f st s = (Inr x, s') \<Longrightarrow> \<exists>rtx. f rtx = Inr x"
  by (auto simp: viewing_def split: sum.splits)

lemma bulk_reject_ok:
  "bulk_reject C st actor n reason ids fs = (results, fs') \<Longrightarrow>
   map BulkRejectResult_Id results = map Some ids \<and>
   list_all (\<lambda>y. BulkRejectResult_Ok y \<longrightarrow> BulkRejectResult_Error y = []) results"
proof (induction ids arbitrary: fs results)
  case (Cons p ids)
  then show ?case
    by (cases "idFromProto C (Some p)") (auto simp: Let_def split: prod.splits sum.splits)
qed simp

lemma readers_typed:
  "GetPerson C D q r1 s = Some (Ret (Inr x1, s')) \<Longrightarrow> response_ok (Persons_GetPerson r1) (AGetPerson x1)"
  "ListPersons C D q r2 s = Some (Ret (Inr x2, s')) \<Longrightarrow> response_ok (Persons_ListPersons r2) (AListPersons x2)"
  "GetRelationship C D q r3 s = Some (Ret (Inr x3, s')) \<Longrightarrow> response_ok (Relationships_GetRelationship r3) (AGetRelationship x3)"
  "ListRelationships C D q r4 s = Some (Ret (Inr x4, s')) \<Longrightarrow> response_ok (Relationships_ListRelationships r4) (AListRelationships x4)"
  "GetSource C D q r5 s = Some (Ret (Inr x5, s')) \<Longrightarrow> response_ok (Sources_GetSource r5) (AGetSource x5)"
  "ListSources C D q r6 s = Some (Ret (Inr x6, s')) \<Longrightarrow> response_ok (Sources_ListSources r6) (AListSources x6)"
  "GetProposal C D q r7 s = Some (Ret (Inr x7, s')) \<Longrightarrow> response_ok (Proposals_GetProposal r7) (AGetProposal x7)"
  "ListProposals C D q r8 s = Some (Ret (Inr x8, s')) \<Longrightarrow> response_ok (Proposals_ListProposals r8) (AListProposals x8)"
  "FindPaths C D q r9 s = Some (Ret (Inr x9, s')) \<Longrightarrow> response_ok (Queries_FindPaths r9) (AFindPaths x9)"
  "NKCA C D q r10 s = Some (Ret (Inr x10, s')) \<Longrightarrow> response_ok (Queries_NKCA r10) (ANKCA x10)"
  unfolding graph_handler_defs Let_def
  by ((drule with_store_Inr, elim exE,
      auto simp: api_types given_def list_all_iff option.pred_map option.pred_True comp_def dest!: viewing_Inr explain_paths_ok
        split: sum.splits prod.splits)[1])+

lemma writers_typed:
  "CreateProposal C D q r1 s = Some (Ret (Inr x1, s')) \<Longrightarrow> response_ok (Proposals_CreateProposal r1) (ACreateProposal x1)"
  "Submit C D q r s = Some (Ret (Inr x, s')) \<Longrightarrow> response_ok (Proposals_Submit r) (AProposal x)"
  "Withdraw C D q r s = Some (Ret (Inr x, s')) \<Longrightarrow> response_ok (Proposals_Withdraw r) (AProposal x)"
  "Claim C D q r s = Some (Ret (Inr x, s')) \<Longrightarrow> response_ok (Proposals_Claim r) (AProposal x)"
  "Accept C D q r s = Some (Ret (Inr x, s')) \<Longrightarrow> response_ok (Proposals_Accept r) (AProposal x)"
  "Reject C D q r s = Some (Ret (Inr x, s')) \<Longrightarrow> response_ok (Proposals_Reject r) (AProposal x)"
  "BulkReject C D q r7 s = Some (Ret (Inr x7, s')) \<Longrightarrow> response_ok (Proposals_BulkReject r7) (ABulkReject x7)"
  unfolding graph_handler_defs Accept_def Let_def
  by ((drule with_store_Inr, elim exE,
      auto simp: api_types given_def dest!: bulk_reject_ok split: sum.splits prod.splits if_splits)[1])+

section \<open>The handlers of the genealogies service\<close>

lemma granted_role: "platform_wf m \<Longrightarrow> granted m sub gid = Some d \<Longrightarrow> Role_IsValid (d_Role d)"
  using wf_gen_cases [of m gid] wf_mem_cases [of m gid sub]
  by (auto simp: granted_def visibility_rule_def wf_genealogy_def wf_membership_def Role_IsValid_iff split: if_splits)

lemma fromProto_inverse:
  "visibilityFromProto v \<noteq> 0 \<Longrightarrow> visibilityToProto (visibilityFromProto v) = v"
  "Role_IsValid (roleFromProto r) \<Longrightarrow> roleToProto (roleFromProto r) = r"
  by (auto simp: platform_mapper_defs Role_IsValid_iff split: if_splits)

lemma specified_fromProto: "specified 3 v \<Longrightarrow> visibilityFromProto v \<noteq> 0"
proof -
  assume v: "specified 3 v"
  then have "unat v = 1 \<or> unat v = 2 \<or> unat v = 3" using unat_gt_0 [of v] by linarith
  then have "v = 1 \<or> v = 2 \<or> v = 3" by (auto simp: word_eq_iff_unsigned [where 'a = nat])
  then show ?thesis by (auto simp: visibilityFromProto_def)
qed

text \<open>What a handler that responds has passed.\<close>

lemma case_Inr:
  "(case p of (Inl e, s1) \<Rightarrow> (Inl (f e), s1) | (Inr v, s1) \<Rightarrow> k v s1) = (Inr x, s') \<Longrightarrow> \<exists>v s1. p = (Inr v, s1) \<and> k v s1 = (Inr x, s')"
  by (auto split: prod.splits sum.splits)

lemma sum_Inr: "(case p of Inl e \<Rightarrow> (Inl (f e), s1) | Inr v \<Rightarrow> k v) = (Inr x, s') \<Longrightarrow> \<exists>v. p = Inr v \<and> k v = (Inr x, s')"
  by (auto split: sum.splits)

lemma if_Inr: "(if b then (Inl e, s1) else k) = (Inr x, s') \<Longrightarrow> \<not> b \<and> k = (Inr x, s')"
  by (auto split: if_splits)

definition created :: "callenv \<Rightarrow> pb_CreateGenealogyRequest \<Rightarrow> Genealogy" where
  "created q r = (let v = visibilityFromProto (CreateGenealogyRequest_Visibility r) in
     \<lparr>g_ID = q_uuid q, g_Name = TrimSpace (CreateGenealogyRequest_Name r),
      g_Visibility = (if v = 0 then VisibilityPrivate else v), g_CreatedBy = q_Subject q, g_CreatedAt = q_Now q 0\<rparr>)"

lemma CreateGenealogy_result:
  "CreateGenealogy D q r s = (Inr x, s') \<Longrightarrow>
   x = \<lparr>CreateGenealogyResponse_Genealogy = Some (genealogyToProto (created q r) RoleOwner)\<rparr>"
  unfolding CreateGenealogy_def Let_def created_def by (drule if_Inr case_Inr | elim exE conjE)+ simp

lemma CreateGenealogy_typed:
  assumes "CreateGenealogy D q r s = (Inr x, s')" and "slash_free (q_uuid q)" "q_uuid q \<noteq> []"
  shows "response_ok (Genealogies_CreateGenealogy r) (ACreateGenealogy x)"
proof -
  let ?v = "CreateGenealogyRequest_Visibility r" and ?p = "genealogyToProto (created q r) RoleOwner"
  have "wf_genealogy (created q r)"
    using assms(2,3) visibilityFromProto_range [of ?v] by (auto simp: created_def Let_def wf_genealogy_def Visibility_IsValid_def)
  then have "ok_Genealogy ?p" by (rule ok_genealogyToProto) (simp add: Role_IsValid_iff)
  moreover have "Genealogy_MyRole ?p = GENEALOGY_ROLE_OWNER" by (simp add: genealogyToProto_def roleToProto_def)
  moreover have "specified 3 ?v \<longrightarrow> Genealogy_Visibility ?p = ?v"
    using specified_fromProto [of ?v] fromProto_inverse(1) [of ?v] by (simp add: genealogyToProto_def created_def)
  ultimately show ?thesis using CreateGenealogy_result [OF assms(1)] by (simp add: given_def)
qed

context service
begin

lemma UpdateVisibility_result:
  assumes "server_ok kv s" and "UpdateVisibility D q r s = (Inr x, s')"
  defines "v \<equiv> visibilityFromProto (UpdateVisibilityRequest_Visibility r)"
  shows "\<exists>g. x = genealogyToProto (g\<lparr>g_Visibility := v\<rparr>) RoleOwner \<and> v \<noteq> 0 \<and>
    gen_at (kv (sv_db s)) (UpdateVisibilityRequest_Id r) = Inr g"
proof -
  let ?gid = "UpdateVisibilityRequest_Id r"
  have db: "sv_db s1 = sv_db s" if "requireRole D q (q_Subject q) ?gid RoleOwner s = (Inr u, s1)" for u s1
    using requireRole_run [OF assms(1), of q "q_Subject q" ?gid RoleOwner] that unfolding recached_def by force
  have "\<exists>u s1 g. requireRole D q (q_Subject q) ?gid RoleOwner s = (Inr u, s1) \<and> v \<noteq> 0 \<and>
      gen_at (kv (sv_db s1)) ?gid = Inr g \<and> x = genealogyToProto (g\<lparr>g_Visibility := v\<rparr>) RoleOwner"
    using assms(2) unfolding UpdateVisibility_def Let_def Get_eqs v_def [symmetric]
    by - ((drule if_Inr case_Inr sum_Inr | elim exE conjE)+, simp only: prod.inject sum.inject, blast)
  then show ?thesis using db by metis
qed

lemma UpdateVisibility_typed:
  assumes "server_ok kv s" and "UpdateVisibility D q r s = (Inr x, s')"
  shows "response_ok (Genealogies_UpdateVisibility r) (AGenealogy x)"
proof -
  let ?v = "visibilityFromProto (UpdateVisibilityRequest_Visibility r)" and ?gid = "UpdateVisibilityRequest_Id r"
  from UpdateVisibility_result [OF assms] obtain g where x: "x = genealogyToProto (g\<lparr>g_Visibility := ?v\<rparr>) RoleOwner" "?v \<noteq> 0"
    "gen_at (kv (sv_db s)) ?gid = Inr g" by blast
  have "Visibility_IsValid ?v" using x(2) visibilityFromProto_range by blast
  with wf_gen_at [OF server_okD(1) [OF assms(1)] x(3)] have "wf_genealogy (g\<lparr>g_Visibility := ?v\<rparr>)" "g_ID g = ?gid"
    by (auto simp: wf_genealogy_def)
  with ok_genealogyToProto [of "g\<lparr>g_Visibility := ?v\<rparr>" RoleOwner] show ?thesis
    using fromProto_inverse(1) [OF x(2)] by (simp add: x(1) Role_IsValid_iff) (simp add: genealogyToProto_def roleToProto_def)
qed

lemma GetGenealogy_typed:
  assumes "server_ok kv s" and "GetGenealogy_rpc D q r s = (Inr x, s')"
  shows "response_ok (Genealogies_GetGenealogy r) (AGetGenealogy x)"
proof -
  let ?gid = "GetGenealogyRequest_Id r"
  note wf = server_okD(1) [OF assms(1)]
  from GetGenealogy_rpc_spec [OF assms] obtain d where d: "granted (kv (sv_db s)) (q_Subject q) ?gid = Some d"
    "x = \<lparr>GetGenealogyResponse_Genealogy = Some (genealogyToProto (projr (gen_at (kv (sv_db s)) ?gid)) (d_Role d))\<rparr>"
    by (auto split: option.splits)
  obtain g where g: "gen_at (kv (sv_db s)) ?gid = Inr g" using granted_genealogy [OF wf d(1)] by blast
  from wf_gen_at [OF wf g] ok_genealogyToProto [OF _ granted_role [OF wf d(1)], of g] show ?thesis
    by (simp add: d(2) g given_def) (simp add: genealogyToProto_def)
qed

lemma ListGenealogies_typed:
  assumes "server_ok kv s" and "ListGenealogies D q s = Inr x"
  shows "response_ok (Genealogies_ListGenealogies r) (AListGenealogies x)"
proof -
  note wf = server_okD(1) [OF assms(1)]
  from ListGenealogies_run [OF wf, of q] assms(2) obtain l1 l2 where
    l: "ListGenealogiesResponse_Genealogies x = map listed (l1 @ l2)" "distinct (map gid_of (l1 @ l2))"
    "set l1 \<subseteq> member_items (kv (sv_db s)) (sv_db s) (q_Subject q)" "set l2 \<subseteq> public_items (kv (sv_db s)) (q_Subject q)"
    by auto
  have "ok_Genealogy (listed p)" if "p \<in> set (l1 @ l2)" for p
  proof -
    have "wf_genealogy g \<and> Role_IsValid (m_Role m)"
      if "m \<in> set (ulist (sv_db s) (q_Subject q))" "gen_at (kv (sv_db s)) (m_GenealogyID m) = Inr g" for m g
      using that wf_gen_at [OF wf] wf_mem_at [OF wf] unfolding set_ulist [OF wf] wf_membership_def by blast
    moreover have "wf_genealogy g" if "gen_at (kv (sv_db s)) (g_ID g) = Inr g" for g using wf_gen_at [OF wf that] by simp
    moreover have "Role_IsValid RoleContributor" "Role_IsValid RoleViewer" by (simp_all add: Role_IsValid_iff)
    moreover have "p \<in> member_items (kv (sv_db s)) (sv_db s) (q_Subject q) \<or> p \<in> public_items (kv (sv_db s)) (q_Subject q)"
      using that l(3,4) by auto
    ultimately have "wf_genealogy (fst p) \<and> Role_IsValid (snd p)"
      unfolding member_items_def public_items_def by (elim disjE CollectE exE conjE) simp_all
    then show ?thesis using ok_genealogyToProto by simp
  qed
  then have "list_all ok_Genealogy (map listed (l1 @ l2))" by (auto simp: list_all_iff)
  moreover have "map Genealogy_Id (map listed (l1 @ l2)) = map gid_of (l1 @ l2)" by (simp add: genealogyToProto_def)
  ultimately show ?thesis using l(1,2) by (simp only: response_ok.simps response.case)
qed

lemma UpsertMembership_typed:
  assumes "server_ok kv s" and "UpsertMembership D q r s = (Inr x, s')"
  shows "response_ok (Genealogies_UpsertMembership r) (AMembership x)"
proof -
  let ?m = "\<lparr>m_Subject = TrimSpace (UpsertMembershipRequest_Subject r), m_GenealogyID = UpsertMembershipRequest_GenealogyId r,
    m_Role = roleFromProto (UpsertMembershipRequest_Role r), m_GrantedBy = q_Subject q, m_GrantedAt = q_Now q 0\<rparr>"
  have x: "x = membershipToProto ?m" "m_Subject ?m \<noteq> []" "Role_IsValid (m_Role ?m)"
    using assms(2) unfolding UpsertMembership_def Let_def
    by - ((drule if_Inr case_Inr | elim exE conjE)+, simp add: on_db_def PutMembership_if split: if_splits)+
  have "slash_free (m_GenealogyID ?m) \<and> m_GenealogyID ?m \<noteq> []"
    using UpsertMembership_spec [OF assms] granted_slash_free [OF server_okD(1) [OF assms(1)]] by auto
  then have "ok_Membership (membershipToProto ?m)" using x(2,3) by (intro ok_membershipToProto) (simp add: wf_membership_def)
  then show ?thesis using x(1,3) fromProto_inverse(2) by (simp add: membershipToProto_def)
qed

lemma ListMembers_typed:
  assumes "server_ok kv s" and "ListMembers D q r s = (Inr x, s')"
  shows "response_ok (Genealogies_ListMembers r) (AListMembers x)"
proof -
  let ?gid = "ListMembersRequest_GenealogyId r"
  note wf = server_okD(1) [OF assms(1)]
  from ListMembers_spec [OF assms] obtain d where d: "granted (kv (sv_db s)) (q_Subject q) ?gid = Some d"
    "ListMembersResponse_Memberships x = map membershipToProto (mlist (sv_db s) ?gid)"
    by (auto split: option.splits if_splits)
  have sf: "slash_free ?gid" using granted_slash_free [OF wf d(1)] by simp
  have "ok_Membership (membershipToProto m) \<and> m_GenealogyID m = ?gid" if "m \<in> set (mlist (sv_db s) ?gid)" for m
    using that set_mlist [OF wf sf] wf_mem_at [OF wf] by (auto intro: ok_membershipToProto)
  moreover have "Membership_GenealogyId (membershipToProto m) = m_GenealogyID m" "Membership_Subject (membershipToProto m) = m_Subject m" for m
    by (simp_all add: membershipToProto_def)
  ultimately show ?thesis using d(2) distinct_mlist [OF wf sf] by (simp add: list_all_iff comp_def)
qed

lemma BanUser_typed:
  assumes "server_ok kv s" and "BanUser D q r s = (Inr x, s')"
  shows "response_ok (Genealogies_BanUser r) (ABan x)"
proof -
  let ?b = "\<lparr>b_Subject = BanUserRequest_Subject r, b_GenealogyID = BanUserRequest_GenealogyId r,
    b_Reason = BanUserRequest_Reason r, b_By = q_Subject q, b_At = q_Now q 0\<rparr>"
  have x: "x = banToProto ?b"
    using assms(2) unfolding BanUser_def Let_def by - ((drule case_Inr | elim exE conjE)+, simp)
  from BanUser_spec [OF assms, unfolded sum.case] have "wf_ban ?b" by (elim conjE exE) (simp add: wf_ban_def)
  from ok_banToProto [OF this] show ?thesis unfolding x by (simp add: banToProto_def)
qed

end

section \<open>Properties\<close>

text \<open>
  C19: every response is well-formed. In a state that satisfies the invariant, whatever the stored graph
  and the library return, a response of the server to a procedure is the message that procedure
  promises: every enumeration has a declared value, and in the platform's messages never the unspecified
  one; identifiers are present; timestamps are positive; the genealogy, the subject, the role and the
  visibility named in a request are those of the response; lists of genealogies and of members have no
  duplicates; and \<open>BulkReject\<close> reports on exactly the requested ids in their order.
\<close>

theorem responses_typed:
  assumes "badger_total (dp_badger D) kv tkv" and "server_ok kv s" and "call_ok kv q r s"
    and "serve C D ver q r s = Some (Ret (Inr x, s'))"
  shows "response_ok r x"
proof -
  note svc = service_of [OF assms(1)]
  note typed = service.UpdateVisibility_typed [OF svc assms(2)] service.GetGenealogy_typed [OF svc assms(2)]
    service.UpsertMembership_typed [OF svc assms(2)] service.ListMembers_typed [OF svc assms(2)]
    service.BanUser_typed [OF svc assms(2)] readers_typed writers_typed
  show ?thesis
  proof (cases r)
    case (Genealogies_CreateGenealogy req)
    then show ?thesis using assms(3,4) CreateGenealogy_typed
      by (auto simp only: serve.simps answer_Inr call_ok.simps option.inject outcome.inject prod.inject)
  next
    case (Genealogies_ListGenealogies req)
    then show ?thesis using assms(4) service.ListGenealogies_typed [OF svc assms(2)]
      by (auto simp only: serve.simps answer_Inr option.inject outcome.inject prod.inject)
  qed (use assms(4) in \<open>simp_all only: serve.simps answer_Inr option.inject outcome.inject prod.inject sum.inject\<close>,
       (elim exE conjE; hypsubst; (erule typed | simp add: Version_rpc_def))+)
qed

theorem responses_typed_witness:
  "\<exists>x s'. serve sim_core sim_deps ''v1'' (sim_call ''bob'') (Genealogies_CreateGenealogy sim_create) sim_server = Some (Ret (Inr x, s')) \<and>
     response_ok (Genealogies_CreateGenealogy sim_create) x"
proof -
  let ?h = "serve sim_core sim_deps ''v1'' (sim_call ''bob'') (Genealogies_CreateGenealogy sim_create) sim_server"
  have "responds ?h" by code_simp
  then obtain x s' where run: "?h = Some (Ret (Inr x, s'))" by (rule respondsE)
  have "call_ok map_of (sim_call ''bob'') (Genealogies_CreateGenealogy sim_create) sim_server"
    by (simp add: sim_call_def slash_free_def sim_server_def sim_db_eq)
  from responses_typed [OF sim_total, OF sim_ok this run] run show ?thesis by blast
qed

end
