(* ===== verification/Ownerless.thy ===== *)
theory Ownerless
  imports API_Types
begin

text \<open>
  Genealogies without an Owner. Only an Owner may make an Owner, change a genealogy's visibility or delete
  it, so a genealogy that has lost its last Owner can never be administered again: \<open>ownerless\<close> is kept by
  every procedure, which a rule induction over the later states lifts to all runs. The second part is
  about the way into that state that needs no adversary: \<open>CreateGenealogy\<close> writes the record and the
  membership in two transactions.
\<close>

section \<open>The states after a state\<close>

inductive later ::
  "('fs, 'h, 'rtx, 'wtx, 'path, 'anc) core \<Rightarrow> ('db, 'tx, 'fs, 'h) platformDeps \<Rightarrow> ('db \<Rightarrow> string \<Rightarrow> blob option) \<Rightarrow>
   string \<Rightarrow> ('db, 'h, 'fs) server \<Rightarrow> ('db, 'h, 'fs) server \<Rightarrow> bool" for C D kv ver s where
  now: "later C D kv ver s s"
| restarted: "later C D kv ver s s1 \<Longrightarrow>
    later C D kv ver s \<lparr>sv_db = sv_db s1, sv_cache = NewResolver ttl, sv_mgr = mgr, sv_fs = fs\<rparr>"
| called: "later C D kv ver s s1 \<Longrightarrow> call_ok kv q r s1 \<Longrightarrow> serve C D ver q r s1 = Some (Ret (x, s2)) \<Longrightarrow>
    later C D kv ver s s2"

definition ownerless :: "(string \<Rightarrow> blob option) \<Rightarrow> string \<Rightarrow> Genealogy \<Rightarrow> bool" where
  "ownerless m gid g \<longleftrightarrow> gen_at m gid = Inr g \<and> owners m gid = {}"

lemma owners_cong: "(\<And>sub. m' (membershipKey gid sub) = m (membershipKey gid sub)) \<Longrightarrow> owners m' gid = owners m gid"
  by (simp add: owners_def lookup_def)

lemma ownerless_cong:
  assumes "m' (genealogyKey gid) = m (genealogyKey gid)" and "\<And>sub. m' (membershipKey gid sub) = m (membershipKey gid sub)"
  shows "ownerless m' gid g \<longleftrightarrow> ownerless m gid g"
  using assms(1) owners_cong [of m' gid m, OF assms(2)] by (simp add: ownerless_def lookup_def)

text \<open>Owner access comes from a membership only.\<close>

lemma granted_owner:
  assumes "granted m sub gid = Some d" and "RoleOwner \<le> d_Role d" and "platform_wf m" 
  shows "sub \<in> owners m gid"
proof -
  from assms(1) obtain g where g: "gen_at m gid = Inr g" by (auto simp: granted_def split: sum.splits)
  have sf: "slash_free gid" using granted_slash_free [OF assms(3,1)] by simp
  show ?thesis
  proof (cases "sub \<noteq> [] \<and> (\<exists>r. mem_at m gid sub = Inr r)")
    case True
    then obtain r where r: "mem_at m gid sub = Inr r" by blast
    then have "Role_IsValid (m_Role r)" using wf_mem_cases [OF assms(3) sf, of sub] by (auto simp: wf_membership_def)
    then show ?thesis using assms(1,2) True r g by (auto simp: granted_def owners_def Role_IsValid_iff word_le_nat_alt)
  next
    case False
    then show ?thesis using assms(1,2) g by (auto simp: granted_def visibility_rule_def word_le_nat_alt split: sum.splits if_splits)
  qed
qed

lemma not_granted_owner:
  assumes "ownerless m gid g" and "platform_wf m" and "granted m sub gid' = Some d" and "RoleOwner \<le> d_Role d"
  shows "gid' \<noteq> gid"
  using granted_owner [OF assms(3,4,2)] assms(1) by (auto simp: ownerless_def)

section \<open>Every procedure keeps it\<close>

text \<open>What a call leaves behind: the invariant of the server and the genealogy without Owner.\<close>

definition keeps :: "('db \<Rightarrow> string \<Rightarrow> blob option) \<Rightarrow> string \<Rightarrow> Genealogy \<Rightarrow> ('db, 'h, 'fs) server \<Rightarrow> bool" where
  "keeps kv gid g s \<longleftrightarrow> server_ok kv s \<and> ownerless (kv (sv_db s)) gid g"

lemma keeps_db: "keeps kv gid g s \<Longrightarrow> server_ok kv s' \<Longrightarrow> sv_db s' = sv_db s \<Longrightarrow> keeps kv gid g s'"
  by (simp add: keeps_def)

lemma keeps_frame:
  assumes "keeps kv gid g s" and "server_ok kv s'" and "kv (sv_db s') (genealogyKey gid) = kv (sv_db s) (genealogyKey gid)"
    and "\<And>sub. kv (sv_db s') (membershipKey gid sub) = kv (sv_db s) (membershipKey gid sub)"
  shows "keeps kv gid g s'"
  using assms ownerless_cong [of "kv (sv_db s')" gid "kv (sv_db s)" g] by (simp add: keeps_def)

lemma keepsD:
  assumes "keeps kv gid g s"
  shows "server_ok kv s" "platform_wf (kv (sv_db s))" "slash_free gid" "gid \<noteq> []" "owners (kv (sv_db s)) gid = {}"
    "gen_at (kv (sv_db s)) gid = Inr g"
proof -
  show ok: "server_ok kv s" and o: "owners (kv (sv_db s)) gid = {}" and g: "gen_at (kv (sv_db s)) gid = Inr g"
    using assms by (simp_all add: keeps_def ownerless_def)
  show wf: "platform_wf (kv (sv_db s))" by (rule server_okD(1) [OF ok])
  show "slash_free gid" "gid \<noteq> []" using wf_gen_at [OF wf g] by (auto simp: wf_genealogy_def)
qed

lemma keeps_membership:
  assumes "keeps kv gid g s" and "server_ok kv s'" and "slash_free gid'" and "owner \<longrightarrow> gid' \<noteq> gid"
    and "kv (sv_db s') = (kv (sv_db s))(membershipKey gid' sub := x, reverseMembershipKey sub gid' := y)"
    and "x = None \<or> (\<exists>m. x = Some (MarshalMembership m) \<and> (m_Role m = RoleOwner \<longrightarrow> owner))" 
  shows "keeps kv gid g s'"
proof (cases "gid' = gid")
  case True
  note k = keepsD [OF assms(1)]
  have "owners ((kv (sv_db s))(membershipKey gid sub := x, reverseMembershipKey sub gid := y)) gid = {}"
    using k(5) assms(4,6) True unfolding owners_def by (auto simp: lookup_def)
  then show ?thesis using assms(1,2,5) True by (simp add: keeps_def ownerless_def lookup_def)
next
  case False
  then show ?thesis using assms(5) keepsD(3) [OF assms(1)] assms(3)
    by (intro keeps_frame [OF assms(1,2)]) (simp_all add: membershipKey_inject)
qed

text \<open>The procedures over a graph do not touch the records, but for the person counter of \<open>Accept\<close>.\<close>

lemma graph_only_keeps:
  assumes "badger_total (dp_badger D) kv tkv" and "keeps kv gid g s" and "graph_only k"
    and "with_store D q gid' minRole submission k s = Some (Ret (r, s'))"
  shows "keeps kv gid g s'"
proof -
  have ok: "server_ok kv s" by (rule keepsD(1) [OF assms(2)])
  have "server_ok kv s'" "sv_db s' = sv_db s"
    using with_store_ok [OF assms(1) ok assms(4)] assms(3) unfolding graph_only_def server_ok_def by (metis snd_conv)+
  then show ?thesis by (rule keeps_db [OF assms(2)])
qed

lemma graph_handlers_keep:
  assumes "badger_total (dp_badger D) kv tkv" and "keeps kv gid g s"
  shows "GetPerson C D q r1 s = Some (Ret (x1, s')) \<Longrightarrow> keeps kv gid g s'"
    and "ListPersons C D q r2 s = Some (Ret (x2, s')) \<Longrightarrow> keeps kv gid g s'"
    and "GetRelationship C D q r3 s = Some (Ret (x3, s')) \<Longrightarrow> keeps kv gid g s'"
    and "ListRelationships C D q r4 s = Some (Ret (x4, s')) \<Longrightarrow> keeps kv gid g s'"
    and "GetSource C D q r5 s = Some (Ret (x5, s')) \<Longrightarrow> keeps kv gid g s'"
    and "ListSources C D q r6 s = Some (Ret (x6, s')) \<Longrightarrow> keeps kv gid g s'"
    and "GetProposal C D q r7 s = Some (Ret (x7, s')) \<Longrightarrow> keeps kv gid g s'"
    and "ListProposals C D q r8 s = Some (Ret (x8, s')) \<Longrightarrow> keeps kv gid g s'"
    and "FindPaths C D q r9 s = Some (Ret (x9, s')) \<Longrightarrow> keeps kv gid g s'"
    and "NKCA C D q r10 s = Some (Ret (x10, s')) \<Longrightarrow> keeps kv gid g s'"
    and "CreateProposal C D q r11 s = Some (Ret (x11, s')) \<Longrightarrow> keeps kv gid g s'"
    and "Submit C D q r12 s = Some (Ret (x12, s')) \<Longrightarrow> keeps kv gid g s'"
    and "Withdraw C D q r12 s = Some (Ret (x12, s')) \<Longrightarrow> keeps kv gid g s'"
    and "Claim C D q r12 s = Some (Ret (x12, s')) \<Longrightarrow> keeps kv gid g s'"
    and "Reject C D q r12 s = Some (Ret (x12, s')) \<Longrightarrow> keeps kv gid g s'"
    and "BulkReject C D q r13 s = Some (Ret (x13, s')) \<Longrightarrow> keeps kv gid g s'"
  unfolding graph_handler_defs Let_def
  by (erule graph_only_keeps [OF assms, rotated]; intro graph_only_rules)+

lemma Accept_keeps:
  assumes "badger_total (dp_badger D) kv tkv" and "keeps kv gid g s"
    and "MaxPersonsPerGenealogy (dp_limits D) \<noteq> 0" and "Accept C D q r s = Some (Ret (x, s'))"
  shows "keeps kv gid g s'"
proof -
  note k = keepsD [OF assms(2)]
  have cache: "coherent (kv (sv_db s)) (sv_cache s')"
    by (rule with_store_cache [OF assms(1) k(1) _ assms(4) [unfolded Accept_def Let_def]])
      (auto simp: on_fs_def on_db_def split: sum.splits prod.splits if_splits)
  from Accept_kv [OF assms(1) server_okD(2) [OF k(1)] assms(3,4)] show ?thesis
  proof (elim disjE exE conjE)
    assume "sv_db s' = sv_db s"
    with k(1) cache show ?thesis by (intro keeps_db [OF assms(2)]) (simp_all add: server_ok_def)
  next
    fix n assume kv': "kv (sv_db s') = (kv (sv_db s))(personCountKey (TransitionRequest_GenealogyId r) \<mapsto> Raw (PutUint64 n))"
    have "server_ok kv s'"
      using k(1) cache coherent_mono [of "kv (sv_db s)" "sv_cache s'" "kv (sv_db s')"]
      by (simp add: server_ok_def kv' counters_wf_upd platform_wf_counter)
    then show ?thesis by (rule keeps_frame [OF assms(2)]) (simp_all add: kv')
  qed
qed

text \<open>The procedures of the genealogies service.\<close>

lemma readers_keep:
  assumes "badger_total (dp_badger D) kv tkv" and "keeps kv gid g s"
  shows "GetGenealogy_rpc D q r1 s = (x1, s') \<Longrightarrow> keeps kv gid g s'"
    and "ListMembers D q r2 s = (x2, s') \<Longrightarrow> keeps kv gid g s'"
    and "BanUser D q r3 s = (x3, s') \<Longrightarrow> keeps kv gid g s'"
    and "UnbanUser D q r4 s = (x4, s') \<Longrightarrow> keeps kv gid g s'"
proof -
  note svc = service_of [OF assms(1)] and ok = keepsD(1) [OF assms(2)]
  show "GetGenealogy_rpc D q r1 s = (x1, s') \<Longrightarrow> keeps kv gid g s'"
    using service.GetGenealogy_rpc_spec [OF svc ok, of q r1 x1 s'] by (intro keeps_db [OF assms(2)]) auto
  show "ListMembers D q r2 s = (x2, s') \<Longrightarrow> keeps kv gid g s'"
    using service.ListMembers_spec [OF svc ok, of q r2 x2 s'] by (intro keeps_db [OF assms(2)]) auto
  show "BanUser D q r3 s = (x3, s') \<Longrightarrow> keeps kv gid g s'"
    using service.BanUser_spec [OF svc ok, of q r3 x3 s'] by (intro keeps_frame [OF assms(2)]) (auto split: sum.splits)
  show "UnbanUser D q r4 s = (x4, s') \<Longrightarrow> keeps kv gid g s'"
    using service.UnbanUser_spec [OF svc ok, of q r4 x4 s'] by (intro keeps_frame [OF assms(2)]) (auto split: sum.splits)
qed

lemma UpsertMembership_keeps:
  assumes "badger_total (dp_badger D) kv tkv" and "keeps kv gid g s" and "UpsertMembership D q r s = (x, s')"
  shows "keeps kv gid g s'"
proof (cases x)
  note k = keepsD [OF assms(2)] and spec = service.UpsertMembership_spec [OF service_of [OF assms(1)] keepsD(1) [OF assms(2)] assms(3)]
  case (Inl e)
  then show ?thesis using spec by (intro keeps_db [OF assms(2)]) simp_all
next
  let ?gid = "UpsertMembershipRequest_GenealogyId r" and ?role = "roleFromProto (UpsertMembershipRequest_Role r)"
  note k = keepsD [OF assms(2)] and spec = service.UpsertMembership_spec [OF service_of [OF assms(1)] keepsD(1) [OF assms(2)] assms(3)]
  case (Inr p)
  from spec [unfolded Inr sum.case] obtain d m where d: "granted (kv (sv_db s)) (q_Subject q) ?gid = Some d"
    "?role = RoleOwner \<longrightarrow> RoleOwner \<le> d_Role d" and m: "m_Role m = ?role" and ok: "server_ok kv s'"
    and kv': "kv (sv_db s') = (kv (sv_db s))
      (membershipKey ?gid (TrimSpace (UpsertMembershipRequest_Subject r)) \<mapsto> MarshalMembership m,
       reverseMembershipKey (TrimSpace (UpsertMembershipRequest_Subject r)) ?gid \<mapsto> MarshalMembership m)" by blast
  have "?role = RoleOwner \<longrightarrow> ?gid \<noteq> gid" using d not_granted_owner [OF _ k(2) d(1)] assms(2) by (auto simp: keeps_def)
  then show ?thesis
    by (rule keeps_membership [OF assms(2) ok conjunct1 [OF granted_slash_free [OF k(2) d(1)]] _ kv']) (simp add: m)
qed

lemma removal_keeps:
  assumes "badger_total (dp_badger D) kv tkv" and "keeps kv gid g s"
  shows "RemoveMember D q r1 s = (x1, s') \<Longrightarrow> keeps kv gid g s'"
    and "LeaveGenealogy D q r2 s = (x2, s') \<Longrightarrow> leave_ok (kv (sv_db s)) (LeaveGenealogyRequest_Id r2) \<Longrightarrow> keeps kv gid g s'"
proof -
  note svc = service_of [OF assms(1)] and k = keepsD [OF assms(2)]
  show "keeps kv gid g s'" if run: "RemoveMember D q r1 s = (x1, s')"
    using service.RemoveMember_spec [OF svc k(1) run]
  proof (elim conjE disjE exE)
    fix d assume ok: "server_ok kv s'" and d: "granted (kv (sv_db s)) (q_Subject q) (RemoveMemberRequest_GenealogyId r1) = Some d"
      and kv': "kv (sv_db s') = (kv (sv_db s))
       (membershipKey (RemoveMemberRequest_GenealogyId r1) (TrimSpace (RemoveMemberRequest_Subject r1)) := None,
        reverseMembershipKey (TrimSpace (RemoveMemberRequest_Subject r1)) (RemoveMemberRequest_GenealogyId r1) := None)"
    show ?thesis
      by (rule keeps_membership [OF assms(2) ok conjunct1 [OF granted_slash_free [OF k(2) d]] _ kv', of False]) simp_all
  qed (intro keeps_db [OF assms(2)])
  show "keeps kv gid g s'" if run: "LeaveGenealogy D q r2 s = (x2, s')"
    and ok: "leave_ok (kv (sv_db s)) (LeaveGenealogyRequest_Id r2)"
  proof (cases "slash_free (LeaveGenealogyRequest_Id r2)")
    case sf: True
    from service.LeaveGenealogy_spec [OF svc k(1) run sf] show ?thesis
    proof (elim conjE disjE exE)
      assume ok: "server_ok kv s'" and kv': "kv (sv_db s') = (kv (sv_db s))
         (membershipKey (LeaveGenealogyRequest_Id r2) (q_Subject q) := None,
          reverseMembershipKey (q_Subject q) (LeaveGenealogyRequest_Id r2) := None)"
      show ?thesis by (rule keeps_membership [OF assms(2) ok sf _ kv', of False]) simp_all
    qed (intro keeps_db [OF assms(2)])
  next
    case False
    then have "s' = s" using ok service.LeaveGenealogy_absent [OF svc run] by (simp add: leave_ok_def)
    with assms(2) show ?thesis by simp
  qed
qed

lemma CreateGenealogy_keeps:
  assumes "badger_total (dp_badger D) kv tkv" and "keeps kv gid g s" and "CreateGenealogy D q r s = (x, s')"
    and id: "slash_free (q_uuid q)" "q_uuid q \<noteq> []" and fresh: "kv (sv_db s) (genealogyKey (q_uuid q)) = None"
  shows "keeps kv gid g s'"
proof -
  note k = keepsD [OF assms(2)]
  note spec = service.CreateGenealogy_spec [OF service_of [OF assms(1)] k(1) assms(3) id fresh]
  have "q_uuid q \<noteq> gid" using k(6) fresh by (auto simp: lookup_def)
  then show ?thesis
    using spec id(1) k(3)
    by (intro keeps_frame [OF assms(2)]) (auto simp: membershipKey_inject split: sum.splits)
qed

lemma owner_calls_keep:
  assumes "badger_total (dp_badger D) kv tkv" and "keeps kv gid g s"
  shows "UpdateVisibility D q r1 s = (x1, s') \<Longrightarrow> keeps kv gid g s'"
    and "DeleteGenealogy_rpc D q r2 s = (x2, s') \<Longrightarrow> keeps kv gid g s'"
proof -
  note svc = service_of [OF assms(1)] and k = keepsD [OF assms(2)]
  have ow: "ownerless (kv (sv_db s)) gid g" using assms(2) by (simp add: keeps_def)
  show "keeps kv gid g s'" if run: "UpdateVisibility D q r1 s = (x1, s')"
  proof (cases x1)
    case (Inl e)
    then show ?thesis using service.UpdateVisibility_spec [OF svc k(1) run] by (intro keeps_db [OF assms(2)]) simp_all
  next
    case (Inr p)
    from service.UpdateVisibility_spec [OF svc k(1) run, unfolded Inr sum.case] obtain d and g0 :: Genealogy where ok: "server_ok kv s'"
      and d: "granted (kv (sv_db s)) (q_Subject q) (UpdateVisibilityRequest_Id r1) = Some d" "RoleOwner \<le> d_Role d"
      and kv': "kv (sv_db s') = count_delta (g_Visibility g0 = VisibilityPrivate)
        (visibilityFromProto (UpdateVisibilityRequest_Visibility r1) = VisibilityPrivate) (g_CreatedBy g0)
        ((kv (sv_db s))(genealogyKey (UpdateVisibilityRequest_Id r1) \<mapsto>
           MarshalGenealogy (g0\<lparr>g_Visibility := visibilityFromProto (UpdateVisibilityRequest_Visibility r1)\<rparr>)))"
      by blast
    show ?thesis using not_granted_owner [OF ow k(2) d] by (intro keeps_frame [OF assms(2) ok]) (simp_all add: kv')
  qed
  show "keeps kv gid g s'" if run: "DeleteGenealogy_rpc D q r2 s = (x2, s')"
  proof (cases x2)
    case (Inl e)
    then show ?thesis using service.DeleteGenealogy_rpc_spec [OF svc k(1) run] by (intro keeps_db [OF assms(2)]) simp_all
  next
    case (Inr u)
    from service.DeleteGenealogy_rpc_spec [OF svc k(1) run, unfolded Inr sum.case] obtain d and g0 :: Genealogy where ok: "server_ok kv s'"
      and d: "granted (kv (sv_db s)) (q_Subject q) (DeleteGenealogyRequest_Id r2) = Some d" "RoleOwner \<le> d_Role d"
      and kv': "kv (sv_db s') = count_delta (g_Visibility g0 = VisibilityPrivate) False (g_CreatedBy g0)
        (drop_genealogy (DeleteGenealogyRequest_Id r2) (kv (sv_db s)))"
      by blast
    show ?thesis using not_granted_owner [OF ow k(2) d] granted_slash_free [OF k(2) d(1)] k(3)
      by (intro keeps_frame [OF assms(2) ok]) (auto simp: kv' drop_genealogy_def membershipKey_inject)
  qed
qed

lemma serve_keeps:
  assumes total: "badger_total (dp_badger D) kv tkv" and k: "keeps kv gid g s"
    and lim: "MaxPersonsPerGenealogy (dp_limits D) \<noteq> 0"
    and "call_ok kv q r s" and "serve C D ver q r s = Some (Ret (x, s'))"
  shows "keeps kv gid g s'"
proof -
  have same: "s = s' \<Longrightarrow> keeps kv gid g s'" using k by simp
  note rules = graph_handlers_keep [OF total k] readers_keep [OF total k] removal_keeps [OF total k] owner_calls_keep [OF total k]
    UpsertMembership_keeps [OF total k] CreateGenealogy_keeps [OF total k] Accept_keeps [OF total k lim] same
  show ?thesis
    using assms(4,5)
    by (cases r) (simp_all only: serve.simps call_ok.simps answer_Ret option.inject outcome.inject prod.inject,
        (elim exE conjE; (erule rules; assumption?))+)
qed

lemma later_keeps:
  assumes "badger_total (dp_badger D) kv tkv" and "MaxPersonsPerGenealogy (dp_limits D) \<noteq> 0"
    and "later C D kv ver s s'" and "keeps kv gid g s"
  shows "keeps kv gid g s'"
  using assms(3)
proof (induction rule: later.induct)
  case now
  then show ?case by (rule assms(4))
next
  case (restarted s1 ttl mgr fs)
  then show ?case by (simp add: keeps_def server_ok_def)
next
  case (called s1 q r x s2)
  then show ?case using serve_keeps [OF assms(1) _ assms(2)] by blast
qed

section \<open>A failing write\<close>

text \<open>A database whose membership rows cannot be written, as an instance of the laws of a failing one.\<close>

definition flaky_badger :: "(memdb, memdb) badger" where
  "flaky_badger = mem_badger\<lparr>TxnSet := (\<lambda>tx k v. if prefix ''m/'' k then Inl (BErrOther ''disk full'') else Inr ((k, v) # tx))\<rparr>"

interpretation flaky: badger_db flaky_badger map_of map_of
proof (unfold_locales, goal_cases)
  case (7 tx p)
  then show ?case using mem.iterate_view [of tx p] by (simp add: flaky_badger_def mem_badger_def)
qed (auto simp: flaky_badger_def mem_badger_def map_of_filter_neq split: option.splits if_splits)

lemma case_Inl:
  "(case p of (Inl e, s1) \<Rightarrow> (Inl e, s1) | (Inr v, s1) \<Rightarrow> k v s1) = (Inl e', s') \<Longrightarrow>
   p = (Inl e', s') \<or> (\<exists>v s1. p = (Inr v, s1) \<and> k v s1 = (Inl e', s'))"
  by (auto split: prod.splits sum.splits)

lemma if_Inl: "(if b then (Inl e, s) else k) = (Inl e', s') \<Longrightarrow> s' = s \<or> \<not> b \<and> k = (Inl e', s')"
  by (auto split: if_splits)

definition founder :: "callenv \<Rightarrow> Membership" where
  "founder q = \<lparr>m_Subject = q_Subject q, m_GenealogyID = q_uuid q, m_Role = RoleOwner, m_GrantedBy = q_Subject q,
     m_GrantedAt = q_Now q 1\<rparr>"

lemma CreateGenealogy_failure:
  assumes "CreateGenealogy D q r s = (Inl e, s')"
  shows "s' = s \<or> on_db (PutGenealogy (dp_badger D) (created q r)) s = (Inl e, s') \<or>
    (\<exists>u s1. on_db (PutGenealogy (dp_badger D) (created q r)) s = (Inr u, s1) \<and>
       (on_db (PutMembership (dp_badger D) (q_Now q 2) (founder q)) s1 = (Inl e, s') \<or>
        (\<exists>v s2. on_db (PutMembership (dp_badger D) (q_Now q 2) (founder q)) s1 = (Inr v, s2) \<and>
           g_Visibility (created q r) = VisibilityPrivate \<and>
           on_db (IncPrivateGenealogy (dp_badger D) (q_Subject q)) s2 = (Inl e, s'))))"
proof -
  let ?v = "visibilityFromProto (CreateGenealogyRequest_Visibility r)"
  have g: "(if ?v = 0 then VisibilityPrivate else ?v) = g_Visibility (created q r)"
    "\<lparr>g_ID = q_uuid q, g_Name = TrimSpace (CreateGenealogyRequest_Name r),
      g_Visibility = g_Visibility (created q r), g_CreatedBy = q_Subject q, g_CreatedAt = q_Now q 0\<rparr> = created q r"
    by (simp_all add: created_def Let_def)
  note run = assms [unfolded CreateGenealogy_def Let_def, unfolded g, folded founder_def]
  show ?thesis
    using run
    by - ((drule if_Inl, elim disjE conjE, simp)+, drule case_Inl, elim disjE exE conjE, blast,
        drule case_Inl, elim disjE exE conjE, blast, drule case_Inl, auto split: if_splits)
qed

context badger_db
begin

lemma PutGenealogy_result:
  assumes "PutGenealogy B g db = (r, db')"
  shows "r = nil_err \<and> kv db' = (kv db)(genealogyKey (g_ID g) \<mapsto> MarshalGenealogy g) \<or> (\<exists>e. r = Inl e) \<and> db' = db"
  using assms put_effect [of db "genealogyKey (g_ID g)" "MarshalGenealogy g" r db'] by (auto simp: PutGenealogy_def split: if_splits)

lemma IncPrivateGenealogy_failed: "IncPrivateGenealogy B sub db = (Inl e, db') \<Longrightarrow> db' = db"
  using incCounter_effect [of "userPrivateGenCountKey sub" 1 db]
  by (cases "incCounter B (userPrivateGenCountKey sub) 1 db")
     (auto simp: IncPrivateGenealogy_def IncUserPrivateGenCount_def drop_value_def split: sum.splits)

lemma founded:
  assumes "on_db (PutGenealogy B (created q r)) s = (Inr u, s1)" and "\<And>sub. kv (sv_db s) (membershipKey (q_uuid q) sub) = None"
  shows "ownerless (kv (sv_db s1)) (q_uuid q) (created q r)" "\<And>k. k \<noteq> genealogyKey (q_uuid q) \<Longrightarrow> kv (sv_db s1) k = kv (sv_db s) k"
proof -
  have id: "g_ID (created q r) = q_uuid q" by (simp add: created_def Let_def)
  have kv1: "kv (sv_db s1) = (kv (sv_db s))(genealogyKey (q_uuid q) \<mapsto> MarshalGenealogy (created q r))"
    using assms(1) PutGenealogy_result [of "created q r" "sv_db s"] id by (auto simp: on_db_def split: prod.splits)
  show "ownerless (kv (sv_db s1)) (q_uuid q) (created q r)" using assms(2) by (simp add: ownerless_def owners_def lookup_def kv1)
  show "\<And>k. k \<noteq> genealogyKey (q_uuid q) \<Longrightarrow> kv (sv_db s1) k = kv (sv_db s) k" by (simp add: kv1)
qed

end

section \<open>Properties\<close>


definition sim_orphaned :: "(memdb, string, Proposal list) server" where
  "sim_orphaned = sim_server\<lparr>sv_db := [(genealogyKey ''g1'', MarshalGenealogy sim_gen)]\<rparr>"


text \<open>
  C33: what a failed \<open>CreateGenealogy\<close> leaves behind when writes to the database can fail. Its writes are
  three transactions and nothing is rolled back: an error means that nothing was written, or that the
  new genealogy is stored without any Owner, or that it is stored with its Owner but not counted against
  the quota of its creator.
\<close>

theorem failed_create_leftovers:
  assumes "badger_db (dp_badger D) kv tkv" and "CreateGenealogy D q req s = (Inl e, s')" and "slash_free (q_uuid q)"
    and "\<forall>sub. kv (sv_db s) (membershipKey (q_uuid q) sub) = None"
  shows "sv_db s' = sv_db s \<or>
    gen_at (kv (sv_db s')) (q_uuid q) = Inr (created q req) \<and>
    (owners (kv (sv_db s')) (q_uuid q) = {} \<or>
     owners (kv (sv_db s')) (q_uuid q) = {q_Subject q} \<and> g_Visibility (created q req) = VisibilityPrivate \<and>
       kv (sv_db s') (userPrivateGenCountKey (q_Subject q)) = kv (sv_db s) (userPrivateGenCountKey (q_Subject q)))"
proof -
  let ?B = "dp_badger D"
  note mems = assms(4) [rule_format]
  have f: "m_Subject (founder q) = q_Subject q" "m_GenealogyID (founder q) = q_uuid q" "m_Role (founder q) = RoleOwner"
    by (simp_all add: founder_def)
  note put = badger_db.PutGenealogy_result [OF assms(1), of "created q req" "sv_db s"]
  from CreateGenealogy_failure [OF assms(2)] consider "s' = s"
    | "on_db (PutGenealogy ?B (created q req)) s = (Inl e, s')"
    | u s1 where "on_db (PutGenealogy ?B (created q req)) s = (Inr u, s1)"
      "on_db (PutMembership ?B (q_Now q 2) (founder q)) s1 = (Inl e, s')"
    | u s1 v s2 where "on_db (PutGenealogy ?B (created q req)) s = (Inr u, s1)"
      "on_db (PutMembership ?B (q_Now q 2) (founder q)) s1 = (Inr v, s2)" "g_Visibility (created q req) = VisibilityPrivate"
      "on_db (IncPrivateGenealogy ?B (q_Subject q)) s2 = (Inl e, s')" by blast
  then show ?thesis
  proof cases
    case 1
    then show ?thesis by simp
  next
    case 2
    then show ?thesis using put by (auto simp: on_db_def split: prod.splits)
  next
    case 3
    have "sv_db s' = sv_db s1"
      using 3(2) badger_db.PutMembership_effect [OF assms(1), of "q_Now q 2" "founder q" "sv_db s1"]
      by (auto simp: on_db_def split: prod.splits)
    then show ?thesis using badger_db.founded(1) [OF assms(1) 3(1) mems] by (simp add: ownerless_def)
  next
    case 4
    let ?m = "if m_GrantedAt (founder q) = 0 then founder q\<lparr>m_GrantedAt := q_Now q 2\<rparr> else founder q"
    note base = badger_db.founded [OF assms(1) 4(1) mems]
    have kv2: "kv (sv_db s2) = (kv (sv_db s1))(membershipKey (q_uuid q) (q_Subject q) \<mapsto> MarshalMembership ?m,
        reverseMembershipKey (q_Subject q) (q_uuid q) \<mapsto> MarshalMembership ?m)"
      using 4(2) badger_db.PutMembership_effect [OF assms(1), of "q_Now q 2" "founder q" "sv_db s1"] f
      by (auto simp: on_db_def split: prod.splits)
    have "sv_db s' = sv_db s2"
      using 4(4) badger_db.IncPrivateGenealogy_failed [OF assms(1), of "q_Subject q" "sv_db s2"]
      by (auto simp: on_db_def split: prod.splits)
    moreover have "owners (kv (sv_db s2)) (q_uuid q) = {q_Subject q}"
      unfolding kv2 using owners_upsert [OF assms(3), of "kv (sv_db s1)" "q_Subject q" ?m] f(3) base(1) by (simp add: ownerless_def)
    moreover have "gen_at (kv (sv_db s2)) (q_uuid q) = Inr (created q req)"
      using base(1) by (simp add: kv2 ownerless_def lookup_def)
    moreover have "kv (sv_db s2) (userPrivateGenCountKey (q_Subject q)) = kv (sv_db s) (userPrivateGenCountKey (q_Subject q))"
      using base(2) by (simp add: kv2)
    ultimately show ?thesis using 4(3) by simp
  qed
qed

definition sim_flaky :: "(memdb, memdb, Proposal list, string) platformDeps" where
  "sim_flaky = sim_deps\<lparr>dp_badger := flaky_badger\<rparr>"

theorem failed_create_leftovers_witness:
  "\<exists>e s' g. CreateGenealogy sim_flaky (sim_call ''ann'') sim_create sim_boot = (Inl e, s') \<and>
     gen_at (map_of (sv_db s')) ''g2'' = Inr g \<and> owners (map_of (sv_db s')) ''g2'' = {}"
proof -
  let ?h = "CreateGenealogy sim_flaky (sim_call ''ann'') sim_create sim_boot"
  have "isl (fst ?h)" by code_simp
  then obtain e s' where run: "?h = (Inl e, s')" by (cases ?h) (auto elim: isl_def [THEN iffD1, THEN exE])
  have s': "s' = snd ?h" using run by simp
  have row: "map fst (sv_db (snd ?h)) = [genealogyKey ''g2'']" by code_simp
  have uuid: "q_uuid (sim_call ''ann'') = ''g2''" by (simp add: sim_call_def)
  have "owners (map_of (sv_db s')) ''g2'' = {}"
    using row by (auto simp: s' owners_def lookup_def dest!: map_of_SomeD split: option.splits)
  moreover have "sv_db s' \<noteq> sv_db sim_boot" using row by (auto simp: s' sim_boot_def)
  moreover have "badger_db (dp_badger sim_flaky) map_of map_of" using flaky.badger_db_axioms by (simp add: sim_flaky_def)
  from failed_create_leftovers [OF this, OF run] 
  have "sv_db s' \<noteq> sv_db sim_boot \<Longrightarrow> gen_at (map_of (sv_db s')) ''g2'' = Inr (created (sim_call ''ann'') sim_create)"
    unfolding uuid by (auto simp: slash_free_def sim_boot_def)
  ultimately show ?thesis using run by blast
qed

end
