(* ===== verification/Tenants_Runs.thy ===== *)
theory Tenants_Runs
  imports Tenants
begin

text \<open>
  Infinite runs of concurrent callers of the tenant manager (\<open>internal/tenants/manager.go\<close>): under
  fairness, whoever waits for another caller's load gets the result of exactly that load.
\<close>

section \<open>Load operations\<close>

text \<open>
  A load operation has one caller, and its result is published once: a number in flight is not yet
  among the published ones.
\<close>

definition ops_inv :: "('fs, 'h) tsys \<Rightarrow> bool" where
  "ops_inv s \<longleftrightarrow>
     (\<forall>t k op. inflight (ts_pc s t) = Some (k, op) \<longrightarrow> op < ts_next s \<and> ts_ops s op = None) \<and>
     (\<forall>t t' k k' op. inflight (ts_pc s t) = Some (k, op) \<and> inflight (ts_pc s t') = Some (k', op) \<longrightarrow> t = t') \<and>
     (\<forall>op. ts_ops s op \<noteq> None \<longrightarrow> op < ts_next s)"

lemma inflight_enter:
  "inflight (enter_pc k op r) = Some (k', op') \<Longrightarrow> r = ELoad \<and> k' = k \<and> op' = op"
  by (cases r) (simp_all add: enter_pc_def)

lemma ops_inv_frame:
  assumes "ops_inv s" and "\<And>t. inflight (ts_pc s' t) = inflight (ts_pc s t) \<or> inflight (ts_pc s' t) = None"
    and "ts_next s' = ts_next s" and "ts_ops s' = ts_ops s"
  shows "ops_inv s'"
proof -
  have in_s: "inflight (ts_pc s t) = Some x" if "inflight (ts_pc s' t) = Some x" for t x
    using assms(2) [of t] that by auto
  show ?thesis
    unfolding ops_inv_def assms(3,4)
  proof (intro conjI allI impI)
    fix t t' k k' op
    show "op < ts_next s" "ts_ops s op = None" if "inflight (ts_pc s' t) = Some (k, op)"
      using in_s [OF that] assms(1) unfolding ops_inv_def by blast+
    show "t = t'" if "inflight (ts_pc s' t) = Some (k, op) \<and> inflight (ts_pc s' t') = Some (k', op)"
      using in_s [OF conjunct1 [OF that]] in_s [OF conjunct2 [OF that]] assms(1) unfolding ops_inv_def by blast
    show "op < ts_next s" if "ts_ops s op \<noteq> None"
      using that assms(1) unfolding ops_inv_def by blast
  qed
qed

lemma ops_inv_step:
  assumes "tstep C s s'" and "ops_inv s"
  shows "ops_inv s'"
  using assms(1)
proof cases
  case (enter t k r m')
  have old: "t' = t \<and> op = ts_next s \<or> inflight (ts_pc s t') = Some (k', op)" if "inflight (ts_pc s' t') = Some (k', op)" for t' k' op
    using that enter by (auto split: if_splits dest!: inflight_enter)
  have less: "op < ts_next s \<and> ts_ops s op = None" if "inflight (ts_pc s t') = Some (k', op)" for t' k' op
    using assms(2) that unfolding ops_inv_def by blast
  have used: "op < ts_next s" if "ts_ops s op \<noteq> None" for op
    using assms(2) that unfolding ops_inv_def by blast
  then have new: "ts_ops s (ts_next s) = None" by (metis less_irrefl)
  have nxt: "ts_next s' = Suc (ts_next s)" "ts_ops s' = ts_ops s" using enter by simp_all
  show ?thesis
    unfolding ops_inv_def nxt
  proof (intro conjI allI impI)
    fix t' t'' k' k'' op
    show "op < Suc (ts_next s)" "ts_ops s op = None" if "inflight (ts_pc s' t') = Some (k', op)"
      using old [OF that] less new by (auto simp: less_Suc_eq)
    show "t' = t''" if "inflight (ts_pc s' t') = Some (k', op) \<and> inflight (ts_pc s' t'') = Some (k'', op)"
    proof -
      from old [OF conjunct1 [OF that]] old [OF conjunct2 [OF that]] less
      have "t' = t \<and> t'' = t \<or> inflight (ts_pc s t') = Some (k', op) \<and> inflight (ts_pc s t'') = Some (k'', op)" by blast
      with assms(2) show ?thesis unfolding ops_inv_def by blast
    qed
    show "op < Suc (ts_next s)" if "ts_ops s op \<noteq> None"
      using used [OF that] by simp
  qed
next
  case (exit t k op r m' fs')
  have at: "inflight (ts_pc s t) = Some (k, op)" using exit(2) by simp
  have other: "op' \<noteq> op" if "inflight (ts_pc s t') = Some (k', op')" "t' \<noteq> t" for t' k' op'
    using that at assms(2) unfolding ops_inv_def by blast
  show ?thesis
    using assms(2) at other unfolding exit(1) ops_inv_def
    by (intro conjI allI impI; (elim conjE)?) (auto split: if_splits; metis)+
next
  case (opened t k op r fs')
  then show ?thesis by (intro ops_inv_frame [OF assms(2)]) auto
next
  case (crash t k op r)
  then show ?thesis by (intro ops_inv_frame [OF assms(2)]) auto
next
  case (woken t op r)
  then show ?thesis by (intro ops_inv_frame [OF assms(2)]) auto
next
  case (again t r)
  then show ?thesis by (intro ops_inv_frame [OF assms(2)]) auto
next
  case (drop k r m' fs')
  then show ?thesis by (intro ops_inv_frame [OF assms(2)]) auto
next
  case (close r m' fs')
  then show ?thesis by (intro ops_inv_frame [OF assms(2)]) auto
qed

text \<open>
  A run of the system, in which any number of steps may be idle. A caller can move when it has something to
  do that does not wait for others; a run is fair when a caller that can move does so in the end, unless the
  program crashes before, so opening a store returns and no ready caller is forgotten.
\<close>

definition tsys_run :: "('fs, 'h) corefs \<Rightarrow> (nat \<Rightarrow> ('fs, 'h) tsys) \<Rightarrow> bool" where
  "tsys_run C \<sigma> \<longleftrightarrow> (\<forall>n. \<sigma> (Suc n) = \<sigma> n \<or> tstep C (\<sigma> n) (\<sigma> (Suc n)))"

definition can_move :: "('fs, 'h) tsys \<Rightarrow> nat \<Rightarrow> bool" where
  "can_move s t \<longleftrightarrow> \<not> ts_crashed s \<and> (case ts_pc s t of
     Loading k op \<Rightarrow> True | Opened k op r \<Rightarrow> True | Waiting op \<Rightarrow> ts_ops s op \<noteq> None | _ \<Rightarrow> False)"

definition fair_run :: "(nat \<Rightarrow> ('fs, 'h) tsys) \<Rightarrow> bool" where
  "fair_run \<sigma> \<longleftrightarrow> (\<forall>n t. can_move (\<sigma> n) t \<longrightarrow> (\<exists>m > n. ts_crashed (\<sigma> m) \<or> ts_pc (\<sigma> m) t \<noteq> ts_pc (\<sigma> n) t))"

lemma run_reachable: "tsys_run C \<sigma> \<Longrightarrow> treach C cfg (\<sigma> 0) \<Longrightarrow> treach C cfg (\<sigma> n)"
  by (induction n) (auto simp: tsys_run_def dest!: spec intro: treach.step)

lemma run_ops_inv: "treach C cfg s \<Longrightarrow> ops_inv s"
proof (induction rule: treach.induct)
  case (init m fs)
  then show ?case by (simp add: ops_inv_def tinit_def)
next
  case (step s s')
  then show ?case using ops_inv_step by blast
qed

text \<open>What one step can do to a caller that loads, has loaded or waits, and to a published result.\<close>

lemma step_of_loader:
  assumes "tstep C s s'" and "ts_pc s t = Loading k op"
  shows "ts_pc s' t = Loading k op \<or> (\<exists>r. ts_pc s' t = Opened k op r)"
  using assms by cases (auto split: if_splits)

lemma step_of_opened:
  assumes "tstep C s s'" and "ts_pc s t = Opened k op r"
  shows "ts_pc s' t = Opened k op r \<or> ts_pc s' t = Done r \<and> ts_ops s' op = Some r"
  using assms by cases (auto split: if_splits)

lemma step_of_waiter:
  assumes "tstep C s s'" and "ts_pc s t = Waiting op"
  shows "ts_pc s' t = Waiting op \<or> (\<exists>r. ts_ops s op = Some r \<and> ts_pc s' t = Done r)"
  using assms by cases (auto split: if_splits)

lemma step_keeps_result:
  assumes "tstep C s s'" and "ops_inv s" and "ts_ops s op = Some r"
  shows "ts_ops s' op = Some r"
  using assms(1)
proof cases
  case (exit t k op' r' m' fs')
  then have "inflight (ts_pc s t) = Some (k, op')" by simp
  with assms(2,3) have "op' \<noteq> op" unfolding ops_inv_def by (metis option.distinct(1))
  with exit assms(3) show ?thesis by simp
qed (use assms(3) in auto)

text \<open>A caller that is elsewhere later has left at some moment.\<close>

lemma leaves_at:
  assumes "\<sigma> m \<noteq> p" and "\<sigma> i = p" and "i \<le> (m :: nat)"
  shows "\<exists>j \<ge> i. j < m \<and> (\<forall>l. i \<le> l \<and> l \<le> j \<longrightarrow> \<sigma> l = p) \<and> \<sigma> (Suc j) \<noteq> p"
proof -
  define k where "k = (LEAST l. i \<le> l \<and> \<sigma> l \<noteq> p)"
  have k: "i \<le> k" "\<sigma> k \<noteq> p" "k \<le> m"
    unfolding k_def using LeastI [of "\<lambda>l. i \<le> l \<and> \<sigma> l \<noteq> p" m] Least_le [of "\<lambda>l. i \<le> l \<and> \<sigma> l \<noteq> p" m] assms by auto
  have before: "\<sigma> l = p" if "i \<le> l" "l < k" for l
    using that not_less_Least [of l "\<lambda>l. i \<le> l \<and> \<sigma> l \<noteq> p"] unfolding k_def by blast
  from k(1,2) assms(2) have "i < k" using le_neq_implies_less by blast
  then obtain j where "k = Suc j" "i \<le> j" by (cases k) auto
  with k before show ?thesis by (intro exI [of _ j]) auto
qed

section \<open>Progress\<close>

locale fair_callers =
  fixes C :: "('fs, 'h) corefs" and cfg :: Config and \<sigma> :: "nat \<Rightarrow> ('fs, 'h) tsys"
  assumes run: "tsys_run C \<sigma>" and start: "treach C cfg (\<sigma> 0)" and fair: "fair_run \<sigma>"
    and alive: "\<forall>n. \<not> ts_crashed (\<sigma> n)"
begin

lemma reach: "treach C cfg (\<sigma> n)"
  by (rule run_reachable [OF run start])

lemma ops: "ops_inv (\<sigma> n)"
  by (rule run_ops_inv [OF reach])

lemma next_step: "\<sigma> (Suc n) = \<sigma> n \<or> tstep C (\<sigma> n) (\<sigma> (Suc n))"
  using run by (simp add: tsys_run_def)

lemma result_stays: "ts_ops (\<sigma> i) op = Some r \<Longrightarrow> i \<le> j \<Longrightarrow> ts_ops (\<sigma> j) op = Some r"
proof (induction j)
  case (Suc j)
  show ?case
  proof (cases "i = Suc j")
    case False
    then have "ts_ops (\<sigma> j) op = Some r" using Suc by simp
    then show ?thesis using next_step [of j] step_keeps_result [of C "\<sigma> j" "\<sigma> (Suc j)" op r] ops [of j] by auto
  qed (use Suc in simp)
qed simp

lemma moves:
  assumes "can_move (\<sigma> i) t"
  shows "\<exists>j \<ge> i. (\<forall>l. i \<le> l \<and> l \<le> j \<longrightarrow> ts_pc (\<sigma> l) t = ts_pc (\<sigma> i) t) \<and> tstep C (\<sigma> j) (\<sigma> (Suc j)) \<and>
    ts_pc (\<sigma> (Suc j)) t \<noteq> ts_pc (\<sigma> i) t"
proof -
  from fair alive assms obtain m where m: "i < m" "ts_pc (\<sigma> m) t \<noteq> ts_pc (\<sigma> i) t" unfolding fair_run_def by blast
  let ?p = "\<lambda>n. ts_pc (\<sigma> n) t"
  have "\<exists>j \<ge> i. j < m \<and> (\<forall>l. i \<le> l \<and> l \<le> j \<longrightarrow> ?p l = ?p i) \<and> ?p (Suc j) \<noteq> ?p i"
    using leaves_at [of ?p m "?p i" i] m by simp
  then obtain j where j: "i \<le> j" "\<forall>l. i \<le> l \<and> l \<le> j \<longrightarrow> ?p l = ?p i" "?p (Suc j) \<noteq> ?p i" by (elim exE conjE) (rule that)
  from j(1) have "?p j = ?p i" by (intro j(2) [rule_format] conjI) simp_all
  with j(3) have "\<sigma> (Suc j) \<noteq> \<sigma> j" by metis
  with next_step [of j] have "tstep C (\<sigma> j) (\<sigma> (Suc j))" by simp
  with j show ?thesis by (intro exI [of _ j] conjI)
qed

lemma opened_finishes:
  assumes "ts_pc (\<sigma> i) t = Opened k op r"
  shows "\<exists>j \<ge> i. ts_pc (\<sigma> j) t = Opened k op r \<and> ts_pc (\<sigma> (Suc j)) t = Done r \<and> ts_ops (\<sigma> (Suc j)) op = Some r"
proof -
  have "can_move (\<sigma> i) t" by (simp add: can_move_def assms alive)
  from moves [OF this] obtain j where "i \<le> j" "ts_pc (\<sigma> j) t = Opened k op r" "tstep C (\<sigma> j) (\<sigma> (Suc j))"
    "ts_pc (\<sigma> (Suc j)) t \<noteq> Opened k op r" by (auto simp: assms)
  with step_of_opened show ?thesis by blast
qed

lemma load_finishes:
  assumes "inflight (ts_pc (\<sigma> i) t) = Some (k, op)"
  shows "\<exists>r j. i \<le> j \<and> ts_pc (\<sigma> j) t = Opened k op r \<and> ts_pc (\<sigma> (Suc j)) t = Done r \<and> ts_ops (\<sigma> (Suc j)) op = Some r"
proof -
  from assms consider "ts_pc (\<sigma> i) t = Loading k op" | r where "ts_pc (\<sigma> i) t = Opened k op r"
    by (cases "ts_pc (\<sigma> i) t") auto
  then show ?thesis
  proof cases
    case 1
    then have "can_move (\<sigma> i) t" by (simp add: can_move_def alive)
    from moves [OF this] obtain j where "i \<le> j" "ts_pc (\<sigma> j) t = Loading k op" "tstep C (\<sigma> j) (\<sigma> (Suc j))"
      "ts_pc (\<sigma> (Suc j)) t \<noteq> Loading k op" by (auto simp: 1)
    then obtain r where "ts_pc (\<sigma> (Suc j)) t = Opened k op r" using step_of_loader by blast
    from opened_finishes [OF this] \<open>i \<le> j\<close> show ?thesis by (meson Suc_leD le_trans)
  next
    case 2
    from opened_finishes [OF this] show ?thesis by blast
  qed
qed

text \<open>A waiting caller stays so until the result is published, and then leaves with it.\<close>

lemma waits:
  assumes "ts_pc (\<sigma> i) t = Waiting op" and "ts_ops (\<sigma> j) op = None" and "i \<le> l" and "l \<le> Suc j"
  shows "ts_pc (\<sigma> l) t = Waiting op"
  using assms(3,4)
proof (induction l rule: dec_induct)
  case base
  show ?case by (rule assms(1))
next
  case (step l)
  have "ts_ops (\<sigma> l) op = None"
  proof (rule ccontr)
    assume "ts_ops (\<sigma> l) op \<noteq> None"
    with result_stays [of l op _ j] step.prems assms(2) show False by auto
  qed
  moreover have "ts_pc (\<sigma> l) t = Waiting op" using step by simp
  ultimately show ?case using next_step [of l] step_of_waiter [of C "\<sigma> l" "\<sigma> (Suc l)" t op] by auto
qed

lemma waiter_leaves:
  assumes "ts_pc (\<sigma> i) t = Waiting op" and "ts_ops (\<sigma> i) op = Some r"
  shows "\<exists>m \<ge> i. (\<forall>l. i \<le> l \<and> l \<le> m \<longrightarrow> ts_pc (\<sigma> l) t = Waiting op) \<and> ts_pc (\<sigma> (Suc m)) t = Done r"
proof -
  have "can_move (\<sigma> i) t" by (simp add: can_move_def assms alive)
  from moves [OF this] obtain m where m: "i \<le> m" "\<forall>l. i \<le> l \<and> l \<le> m \<longrightarrow> ts_pc (\<sigma> l) t = Waiting op"
    "tstep C (\<sigma> m) (\<sigma> (Suc m))" "ts_pc (\<sigma> (Suc m)) t \<noteq> Waiting op" by (auto simp: assms)
  moreover from m have "ts_pc (\<sigma> m) t = Waiting op" by simp
  moreover have "ts_ops (\<sigma> m) op = Some r" by (rule result_stays [OF assms(2) m(1)])
  ultimately show ?thesis using step_of_waiter [of C "\<sigma> m" "\<sigma> (Suc m)" t op] by auto
qed

lemma served:
  assumes "ts_pc (\<sigma> n) t = Idle" and "Get_enter (ts_next (\<sigma> n)) k (ts_mgr (\<sigma> n)) = (EWait op, m')"
    and "ts_pc (\<sigma> (Suc n)) t = Waiting op"
  shows "\<exists>loader r j m. n \<le> j \<and> ts_pc (\<sigma> j) loader = Opened k op r \<and> ts_pc (\<sigma> (Suc j)) loader = Done r \<and>
    j < m \<and> (\<forall>l. n < l \<and> l \<le> m \<longrightarrow> ts_pc (\<sigma> l) t = Waiting op) \<and> ts_pc (\<sigma> (Suc m)) t = Done r"
proof -
  note D = tinvD [OF treach_tinv [OF reach [of n]]]
  from Get_enter_cases [OF assms(2) D(1)] have "mg_loading (ts_mgr (\<sigma> n)) k = Some op" by auto
  with D(4) obtain loader where "inflight (ts_pc (\<sigma> n) loader) = Some (k, op)" by blast
  from load_finishes [OF this] obtain r j where j: "n \<le> j" "ts_pc (\<sigma> j) loader = Opened k op r"
    "ts_pc (\<sigma> (Suc j)) loader = Done r" "ts_ops (\<sigma> (Suc j)) op = Some r" by blast
  from j(2) have "ts_ops (\<sigma> j) op = None" using ops [of j] unfolding ops_inv_def by (metis inflight_simps(3))
  note w = waits [OF assms(3) this]
  from waiter_leaves [OF w [of "Suc j"] j(4)] j(1) obtain m where
    m: "Suc j \<le> m" "\<forall>l. Suc j \<le> l \<and> l \<le> m \<longrightarrow> ts_pc (\<sigma> l) t = Waiting op" "ts_pc (\<sigma> (Suc m)) t = Done r" by auto
  have "ts_pc (\<sigma> l) t = Waiting op" if "n < l" "l \<le> m" for l
    using that m(2) w [of l] by (cases "l \<le> Suc j") auto
  with j m show ?thesis by (intro exI [of _ loader] exI [of _ r] exI [of _ j] exI [of _ m]) auto
qed

end

section \<open>Properties\<close>

text \<open>A run of two callers: the first loads, the second waits, and both return.\<close>

definition sim_run :: "nat \<Rightarrow> (unit, string) tsys" where
  "sim_run n =
     (let got = Inr ''data/a'';
          s2 = sim_waiting\<lparr>ts_pc := (ts_pc sim_waiting)(0 := Opened ''a'' 0 got)\<rparr>;
          m = (case Get_exit sim_fs ''a'' got (ts_mgr sim_waiting) () of Ret (m, _) \<Rightarrow> m);
          s3 = s2\<lparr>ts_mgr := m, ts_ops := [0 \<mapsto> got], ts_pc := (ts_pc s2)(0 := Done got)\<rparr>;
          s4 = s3\<lparr>ts_pc := (ts_pc s3)(1 := Done got)\<rparr>
      in if n = 0 then sim_loading else if n = 1 then sim_waiting else if n = 2 then s2 else if n = 3 then s3 else s4)"

lemma sim_pcs:
  "ts_pc sim_loading = (\<lambda>_. Idle)(0 := Loading ''a'' 0)"
  "ts_pc sim_waiting = (\<lambda>_. Idle)(0 := Loading ''a'' 0, 1 := Waiting 0)"
  by (simp_all add: sim_loading_def sim_waiting_def)

lemma sim_run_pcs:
  "sim_run 0 = sim_loading" "sim_run (Suc 0) = sim_waiting"
  "ts_pc (sim_run 2) = (\<lambda>_. Idle)(0 := Opened ''a'' 0 (Inr ''data/a''), 1 := Waiting 0)"
  "ts_pc (sim_run 3) = (\<lambda>_. Idle)(0 := Done (Inr ''data/a''), 1 := Waiting 0)"
  "4 \<le> n \<Longrightarrow> ts_pc (sim_run n) = (\<lambda>_. Idle)(0 := Done (Inr ''data/a''), 1 := Done (Inr ''data/a''))"
  by (auto simp: sim_run_def sim_waiting_def Let_def fun_upd_twist)

lemma sim_run_end: "4 \<le> n \<Longrightarrow> sim_run n = sim_run 4"
  by (simp add: sim_run_def)

lemma sim_exit: "\<exists>m. Get_exit sim_fs ''a'' (Inr ''data/a'') (ts_mgr sim_waiting) () = Ret (m, ())"
proof (cases "Get_exit sim_fs ''a'' (Inr ''data/a'') (ts_mgr sim_waiting) ()")
  case (Ret p)
  then show ?thesis by (cases p) simp
next
  case Panic
  with Get_exit_Panic_iff [OF tinvD(1) [OF treach_tinv [OF reach_waiting]], of sim_fs "''a''" "Inr ''data/a''" "()"]
  show ?thesis by (simp add: sim_waiting_def sim_loading_def sim_mgr_def)
qed

lemma sim_run_run: "tsys_run sim_fs sim_run"
  unfolding tsys_run_def
proof
  fix n :: nat
  consider "n = 0" | "n = 1" | "n = 2" | "n = 3" | "4 \<le> n" by linarith
  then show "sim_run (Suc n) = sim_run n \<or> tstep sim_fs (sim_run n) (sim_run (Suc n))"
  proof cases
    case 1
    then show ?thesis using step_waiting by (simp add: sim_run_pcs)
  next
    case 2
    then show ?thesis
      using tstep.opened [of sim_waiting 0 "''a''" 0 sim_fs "Inr ''data/a''" "()"] open_a
      by (simp add: sim_run_def sim_waiting_def sim_loading_def tinit_def)
  next
    case 3
    from sim_exit obtain m where "Get_exit sim_fs ''a'' (Inr ''data/a'') (ts_mgr sim_waiting) () = Ret (m, ())" by blast
    then show ?thesis
      using 3 tstep.exit [of "sim_run 2" 0 "''a''" 0 "Inr ''data/a''" sim_fs m "()"]
      by (simp add: sim_run_def sim_waiting_def sim_loading_def tinit_def Let_def)
  next
    case 4
    then show ?thesis
      using tstep.woken [of "sim_run 3" 1 0 "Inr ''data/a''" sim_fs]
      by (simp add: sim_run_def sim_waiting_def sim_loading_def tinit_def Let_def)
  next
    case 5
    from sim_run_end [OF this] sim_run_end [OF le_SucI [OF this]] show ?thesis by metis
  qed
qed

lemma sim_run_fair: "fair_run sim_run"
  unfolding fair_run_def
proof (intro allI impI)
  fix n t :: nat
  assume m: "can_move (sim_run n) t"
  consider "n = 0" | "n = 1" | "n = 2" | "n = 3" | "4 \<le> n" by linarith
  then have "n < 4 \<and> ts_pc (sim_run 4) t \<noteq> ts_pc (sim_run n) t"
    using m by cases (auto simp: can_move_def sim_run_pcs sim_pcs split: if_splits)
  then show "\<exists>m > n. ts_crashed (sim_run m) \<or> ts_pc (sim_run m) t \<noteq> ts_pc (sim_run n) t" by blast
qed

lemma sim_run_alive: "\<not> ts_crashed (sim_run n)"
  by (simp add: sim_run_def sim_waiting_def sim_loading_def tinit_def Let_def)

interpretation sim_calls: fair_callers sim_fs sim_cfg sim_run
  using sim_run_run sim_run_fair reach_loading by unfold_locales (simp_all add: sim_run_pcs sim_run_alive)

text \<open>
  C27: no waiter is lost. In every infinite fair run of concurrent callers of \<open>Get\<close>, \<open>Drop\<close> and \<open>Close\<close>, in which the
  program does not crash as it can after \<open>Close\<close>, a call of \<open>Get\<close> that finds another caller's load of its id in
  flight waits until that load has returned to its own caller, and then returns exactly the store or error
  that load returned there.
\<close>

theorem waiter_served:
  assumes "treach C cfg (\<sigma> 0)" and "tsys_run C \<sigma>" and "fair_run \<sigma>" and "ts_pc (\<sigma> n) t = Idle"
    and "Get_enter (ts_next (\<sigma> n)) k (ts_mgr (\<sigma> n)) = (EWait op, m')" and "ts_pc (\<sigma> (Suc n)) t = Waiting op"
  shows "(\<exists>l. ts_crashed (\<sigma> l)) \<or>
    (\<exists>loader r j m. n \<le> j \<and> ts_pc (\<sigma> j) loader = Opened k op r \<and> ts_pc (\<sigma> (Suc j)) loader = Done r \<and>
       j < m \<and> (\<forall>l. n < l \<and> l \<le> m \<longrightarrow> ts_pc (\<sigma> l) t = Waiting op) \<and> ts_pc (\<sigma> (Suc m)) t = Done r)"
  using fair_callers.served [OF fair_callers.intro [OF assms(2,1,3)] assms(4-6)] by metis

theorem waiter_served_witness:
  "\<exists>loader r j m. ts_pc (sim_run j) loader = Opened ''a'' 0 r \<and> j < m \<and> ts_pc (sim_run (Suc m)) 1 = Done r"
proof -
  have e: "Get_enter (ts_next (sim_run 0)) ''a'' (ts_mgr (sim_run 0)) = (EWait 0, ts_mgr sim_loading)"
    by (simp add: sim_run_pcs sim_loading_def tinit_def sim_mgr_def Get_enter_def index_get_def)
  from waiter_served [OF sim_calls.start sim_calls.run sim_calls.fair _ e, of 1]
  show ?thesis by (auto simp: sim_run_pcs sim_pcs sim_run_alive)
qed

end
