(* ===== verification/Json_Text.thy ===== *)
theory Json_Text
  imports Json
begin

text \<open>
  The text of JSON documents, as the standard package \<open>encoding/json\<close> writes and reads it: bytes,
  with the escapes of \<open>json.Marshal\<close> (quotes, control characters, \<open><\<close>, \<open>>\<close>, \<open>&\<close>, U+2028 and U+2029)
  and with every invalid UTF-8 byte replaced by U+FFFD, on writing and on reading. The lemmas show that a
  flat document is read back as it was written, up to that replacement.
\<close>

section \<open>UTF-8\<close>

definition is_cont :: "char \<Rightarrow> bool" where
  "is_cont c \<longleftrightarrow> 0x80 \<le> (of_char c :: nat) \<and> (of_char c :: nat) \<le> 0xBF"

text \<open>The length of the valid sequence a string starts with (\<open>utf8.DecodeRune\<close>), if it starts with one.\<close>

definition second_ok :: "nat \<Rightarrow> char \<Rightarrow> bool" where
  "second_ok x c \<longleftrightarrow>
     (if x = 0xE0 then 0xA0 else if x = 0xF0 then 0x90 else 0x80) \<le> (of_char c :: nat) \<and>
     (of_char c :: nat) \<le> (if x = 0xED then 0x9F else if x = 0xF4 then 0x8F else 0xBF)"

fun rune_len :: "string \<Rightarrow> nat option" where
  "rune_len [] = None"
| "rune_len (a # s) =
     (let x = (of_char a :: nat) in
      if x < 0x80 then Some 1
      else if 0xC2 \<le> x \<and> x \<le> 0xDF then
        (case s of b # _ \<Rightarrow> if second_ok x b then Some 2 else None | _ \<Rightarrow> None)
      else if 0xE0 \<le> x \<and> x \<le> 0xEF then
        (case s of b # c # _ \<Rightarrow> if second_ok x b \<and> is_cont c then Some 3 else None | _ \<Rightarrow> None)
      else if 0xF0 \<le> x \<and> x \<le> 0xF4 then
        (case s of b # c # d # _ \<Rightarrow> if second_ok x b \<and> is_cont c \<and> is_cont d then Some 4 else None | _ \<Rightarrow> None)
      else None)"

definition replacement :: string where
  "replacement = [CHR 0xEF, CHR 0xBF, CHR 0xBD]"

text \<open>Go's \<open>utf8.AppendRune\<close>.\<close>

definition encode_rune :: "nat \<Rightarrow> string" where
  "encode_rune r =
     (if r < 0x80 then [char_of r]
      else if r < 0x800 then [char_of (0xC0 + r div 0x40), char_of (0x80 + r mod 0x40)]
      else if 0xD800 \<le> r \<and> r < 0xE000 \<or> 0x10FFFF < r then replacement
      else if r < 0x10000 then
        [char_of (0xE0 + r div 0x1000), char_of (0x80 + r div 0x40 mod 0x40), char_of (0x80 + r mod 0x40)]
      else
        [char_of (0xF0 + r div 0x40000), char_of (0x80 + r div 0x1000 mod 0x40),
         char_of (0x80 + r div 0x40 mod 0x40), char_of (0x80 + r mod 0x40)])"

text \<open>A string with every invalid byte replaced, and the strings in which there is none.\<close>

fun clean :: "string \<Rightarrow> string" where
  "clean [] = []"
| "clean (c # s) =
     (case rune_len (c # s) of
        None \<Rightarrow> replacement @ clean s
      | Some n \<Rightarrow> take n (c # s) @ clean (drop (n - 1) s))"

fun valid_utf8 :: "string \<Rightarrow> bool" where
  "valid_utf8 [] = True"
| "valid_utf8 (c # s) = (case rune_len (c # s) of None \<Rightarrow> False | Some n \<Rightarrow> valid_utf8 (drop (n - 1) s))"

lemma rune_len_pos: "rune_len s = Some n \<Longrightarrow> 0 < n \<and> n \<le> length s"
  by (cases s) (auto simp: Let_def split: if_splits list.splits)

lemma rune_len_prefix: "rune_len s = Some n \<Longrightarrow> rune_len (take n s @ t) = Some n"
  by (cases s) (auto simp: Let_def eval_nat_numeral split: if_splits list.splits)

lemma rune_len_ascii [simp]: "(of_char c :: nat) < 0x80 \<Longrightarrow> rune_len (c # s) = Some 1"
  by simp

lemma take_rune: "rune_len (c # s) = Some n \<Longrightarrow> take n (c # s) = c # take (n - 1) s"
  using rune_len_pos [of "c # s" n] by (cases n) auto

lemma clean_valid: "valid_utf8 s \<Longrightarrow> clean s = s"
proof (induction s rule: valid_utf8.induct)
  case (2 c s)
  then obtain n where n: "rune_len (c # s) = Some n" "valid_utf8 (drop (n - 1) s)" by (auto split: option.splits)
  with 2 show ?case using take_rune [OF n(1)] by simp
qed simp

lemma clean_eq_Nil [simp]: "clean s = [] \<longleftrightarrow> s = []"
  by (cases s) (auto simp: replacement_def take_rune split: option.splits)

section \<open>Strings\<close>

definition hex_value :: "char \<Rightarrow> nat option" where
  "hex_value c =
     (let x = (of_char c :: nat) in
      if 48 \<le> x \<and> x \<le> 57 then Some (x - 48)
      else if 97 \<le> x \<and> x \<le> 102 then Some (x - 87)
      else if 65 \<le> x \<and> x \<le> 70 then Some (x - 55)
      else None)"

text \<open>What \<open>json.Marshal\<close> writes for one ASCII character of a string, and for a string.\<close>

definition escape_ascii :: "char \<Rightarrow> string" where
  "escape_ascii c =
     (let x = (of_char c :: nat) in
      if c = CHR 0x22 \<or> c = CHR 0x5C then [CHR 0x5C, c]
      else if x = 8 then [CHR 0x5C, CHR ''b'']
      else if x = 12 then [CHR 0x5C, CHR ''f'']
      else if x = 10 then [CHR 0x5C, CHR ''n'']
      else if x = 13 then [CHR 0x5C, CHR ''r'']
      else if x = 9 then [CHR 0x5C, CHR ''t'']
      else if x < 0x20 \<or> c \<in> {CHR ''<'', CHR ''>'', CHR ''&''}
      then CHR 0x5C # ''u00'' @ [hex_digit (x div 16), hex_digit (x mod 16)]
      else [c])"

definition escape_rune :: "string \<Rightarrow> string" where
  "escape_rune r =
     (if r = [CHR 0xE2, CHR 0x80, CHR 0xA8] then CHR 0x5C # ''u2028''
      else if r = [CHR 0xE2, CHR 0x80, CHR 0xA9] then CHR 0x5C # ''u2029''
      else r)"

fun escape :: "string \<Rightarrow> string" where
  "escape [] = []"
| "escape (c # s) =
     (if (of_char c :: nat) < 0x80 then escape_ascii c @ escape s
      else
        (case rune_len (c # s) of
           None \<Rightarrow> CHR 0x5C # ''ufffd'' @ escape s
         | Some n \<Rightarrow> escape_rune (take n (c # s)) @ escape (drop (n - 1) s)))"

text \<open>Reading: four hexadecimal digits, the rest of an escape sequence, and a string up to its closing quote.\<close>

fun hex4 :: "string \<Rightarrow> (nat \<times> string) option" where
  "hex4 (a # b # c # d # s) =
     (case (hex_value a, hex_value b, hex_value c, hex_value d) of
        (Some w, Some x, Some y, Some z) \<Rightarrow> Some (w * 0x1000 + x * 0x100 + y * 0x10 + z, s)
      | _ \<Rightarrow> None)"
| "hex4 _ = None"

definition low_surrogate :: "string \<Rightarrow> (nat \<times> string) option" where
  "low_surrogate s =
     (if take 2 s = [CHR 0x5C, CHR ''u''] then
        (case hex4 (drop 2 s) of
           Some (r, t) \<Rightarrow> if 0xDC00 \<le> r \<and> r < 0xE000 then Some (r, t) else None
         | None \<Rightarrow> None)
      else None)"

fun unescape :: "string \<Rightarrow> (string \<times> string) option" where
  "unescape [] = None"
| "unescape (e # s) =
     (if e = CHR 0x22 \<or> e = CHR 0x5C \<or> e = CHR ''/'' then Some ([e], s)
      else if e = CHR ''b'' then Some ([char_of (8 :: nat)], s)
      else if e = CHR ''f'' then Some ([char_of (12 :: nat)], s)
      else if e = CHR ''n'' then Some ([char_of (10 :: nat)], s)
      else if e = CHR ''r'' then Some ([char_of (13 :: nat)], s)
      else if e = CHR ''t'' then Some ([char_of (9 :: nat)], s)
      else if e = CHR ''u'' then
        (case hex4 s of
           None \<Rightarrow> None
         | Some (r, t) \<Rightarrow>
             if 0xD800 \<le> r \<and> r < 0xDC00 then
               (case low_surrogate t of
                  Some (l, t') \<Rightarrow> Some (encode_rune (0x10000 + (r - 0xD800) * 0x400 + (l - 0xDC00)), t')
                | None \<Rightarrow> Some (replacement, t))
             else Some (encode_rune r, t))
      else None)"

lemma hex4_length: "hex4 s = Some (r, t) \<Longrightarrow> length t < length s"
  by (induction s rule: hex4.induct) (auto split: option.splits)

lemma low_surrogate_length: "low_surrogate s = Some (r, t) \<Longrightarrow> length t \<le> length s"
  by (auto simp: low_surrogate_def split: if_splits option.splits dest: hex4_length)

lemma unescape_length: "unescape s = Some (x, t) \<Longrightarrow> length t < length s"
  by (cases s) (auto split: if_splits option.splits dest!: hex4_length low_surrogate_length)

function unquote :: "string \<Rightarrow> (string \<times> string) option" where
  "unquote [] = None"
| "unquote (c # s) =
     (if c = CHR 0x22 then Some ([], s)
      else if c = CHR 0x5C then
        (case unescape s of
           None \<Rightarrow> None
         | Some (x, t) \<Rightarrow> map_option (apfst ((@) x)) (unquote t))
      else if (of_char c :: nat) < 0x20 then None
      else
        (case rune_len (c # s) of
           None \<Rightarrow> map_option (apfst ((@) replacement)) (unquote s)
         | Some n \<Rightarrow> map_option (apfst ((@) (take n (c # s)))) (unquote (drop (n - 1) s))))"
  by pat_completeness auto
termination
  by (relation "measure length") (auto dest: unescape_length)

text \<open>What was written for a string is read back as the string.\<close>

lemma hex_value_digit: "k < 16 \<Longrightarrow> hex_value (hex_digit k) = Some k"
  by (auto simp: hex_value_def hex_digit_def)

text \<open>A hexadecimal escape of an ASCII character, and what is read for each escape.\<close>

definition reads_as :: "string \<Rightarrow> char \<Rightarrow> bool" where
  "reads_as e c \<longleftrightarrow>
     (case e of
        [x] \<Rightarrow> x = c \<and> x \<noteq> CHR 0x22 \<and> x \<noteq> CHR 0x5C \<and> 0x20 \<le> (of_char x :: nat) \<and> (of_char x :: nat) < 0x80
      | x # y # zs \<Rightarrow> x = CHR 0x5C \<and>
          (y \<noteq> CHR ''u'' \<and> zs = [] \<and> unescape [y] = Some ([c], []) \<or>
           y = CHR ''u'' \<and> length zs = 4 \<and> hex4 zs = Some (of_char c, []) \<and> (of_char c :: nat) < 0x80)
      | [] \<Rightarrow> False)"

lemma hex4_byte: "x < 128 \<Longrightarrow> hex4 [CHR ''0'', CHR ''0'', hex_digit (x div 16), hex_digit (x mod 16)] = Some (x, [])"
  using hex_value_digit [of "x div 16"] hex_value_digit [of "x mod 16"] by (simp add: hex_value_def [of "CHR ''0''"])

lemma char_by_code: "(of_char c :: nat) = n \<Longrightarrow> char_of n = c"
  by auto

lemma escape_ascii_reads: "(of_char c :: nat) < 128 \<Longrightarrow> reads_as (escape_ascii c) c"
  using hex4_byte [of "of_char c"]
  by (auto simp: escape_ascii_def reads_as_def Let_def not_less char_by_code)

lemma hex4_append: "hex4 s = Some (r, []) \<Longrightarrow> hex4 (s @ t) = Some (r, t)"
  by (induction s rule: hex4.induct) (auto split: option.splits)

lemma unescape_simple: "y \<noteq> CHR ''u'' \<Longrightarrow> unescape [y] = Some (x, []) \<Longrightarrow> unescape (y # t) = Some (x, t)"
  by (auto split: if_splits)

lemma unquote_reads:
  assumes "reads_as e c"
  shows "unquote (e @ t) = map_option (apfst ((#) c)) (unquote t)"
proof -
  from assms consider "e = [c]" "c \<noteq> CHR 0x22" "c \<noteq> CHR 0x5C" "0x20 \<le> (of_char c :: nat)" "(of_char c :: nat) < 0x80"
    | y where "e = [CHR 0x5C, y]" "y \<noteq> CHR ''u''" "unescape [y] = Some ([c], [])"
    | zs where "e = CHR 0x5C # CHR ''u'' # zs" "hex4 zs = Some (of_char c, [])" "(of_char c :: nat) < 0x80"
    unfolding reads_as_def by (auto split: list.splits)
  then show ?thesis
  proof cases
    case 1
    then show ?thesis by (simp add: apfst_def map_prod_def cong: option.map_cong)
  next
    case 2
    with unescape_simple [OF 2(2,3), of t] show ?thesis by (simp del: unescape.simps add: apfst_def map_prod_def)
  next
    case 3
    from hex4_append [OF 3(2), of t] 3(3) have "unescape (CHR ''u'' # zs @ t) = Some ([c], t)"
      by (simp add: encode_rune_def)
    with 3 show ?thesis by (simp del: unescape.simps add: apfst_def map_prod_def)
  qed
qed

lemma not_ascii: "\<not> (of_char c :: nat) < 0x80 \<Longrightarrow> c \<noteq> CHR 0x22 \<and> c \<noteq> CHR 0x5C \<and> \<not> (of_char c :: nat) < 0x20"
  by auto

lemma unquote_rune:
  assumes "rune_len (c # s) = Some n" and "\<not> (of_char c :: nat) < 0x80"
  shows "unquote (take n (c # s) @ t) = map_option (apfst ((@) (take n (c # s)))) (unquote t)"
proof -
  from rune_len_prefix [OF assms(1), of t] take_rune [OF assms(1)]
  have "rune_len (c # take (n - 1) s @ t) = Some n" by simp
  moreover have "length (take (n - 1) s) = n - 1" using rune_len_pos [OF assms(1)] by auto
  moreover from this have "take n (c # take (n - 1) s @ t) = take n (c # s)" "drop (n - 1) (take (n - 1) s @ t) = t"
    using rune_len_pos [OF assms(1)] by (simp_all add: take_Cons' )
  ultimately show ?thesis using not_ascii [OF assms(2)] unfolding take_rune [OF assms(1)]
    by (simp del: rune_len.simps)
qed

lemma unquote_u:
  assumes "hex4 zs = Some (r, [])" and "\<not> (0xD800 \<le> r \<and> r < 0xDC00)"
  shows "unquote (CHR 0x5C # CHR ''u'' # zs @ t) = map_option (apfst ((@) (encode_rune r))) (unquote t)"
proof -
  have "unescape (CHR ''u'' # zs @ t) = Some (encode_rune r, t)" using hex4_append [OF assms(1), of t] assms(2) by auto
  then show ?thesis by (simp del: unescape.simps)
qed

lemma named_escapes:
  "hex4 ''fffd'' = Some (0xFFFD, [])" "hex4 ''2028'' = Some (0x2028, [])" "hex4 ''2029'' = Some (0x2029, [])"
  "encode_rune 0xFFFD = replacement" "encode_rune 0x2028 = [CHR 0xE2, CHR 0x80, CHR 0xA8]"
  "encode_rune 0x2029 = [CHR 0xE2, CHR 0x80, CHR 0xA9]"
  by (simp_all add: hex_value_def encode_rune_def replacement_def char_by_code)

lemma unquote_escape_rune:
  assumes "rune_len (c # s) = Some n" and "\<not> (of_char c :: nat) < 0x80"
  shows "unquote (escape_rune (take n (c # s)) @ t) = map_option (apfst ((@) (take n (c # s)))) (unquote t)"
  using unquote_rune [OF assms, of t] unquote_u [OF named_escapes(2), of t] unquote_u [OF named_escapes(3), of t]
  by (auto simp: escape_rune_def named_escapes simp del: unquote.simps)

lemma unquote_escape: "unquote (escape s @ CHR 0x22 # rest) = Some (clean s, rest)"
proof (induction s rule: escape.induct)
  case (2 c s)
  show ?case
  proof (cases "(of_char c :: nat) < 0x80")
    case True
    with 2 unquote_reads [OF escape_ascii_reads] show ?thesis by (simp del: unquote.simps)
  next
    case False
    show ?thesis
    proof (cases "rune_len (c # s)")
      case None
      with False 2(2) unquote_u [OF named_escapes(1), of "escape s @ CHR 0x22 # rest"] show ?thesis
        by (simp del: unquote.simps rune_len.simps add: named_escapes)
    next
      case (Some n)
      with False 2(3) unquote_escape_rune [OF Some False, of "escape (drop (n - 1) s) @ CHR 0x22 # rest"] show ?thesis
        by (simp del: unquote.simps rune_len.simps)
    qed
  qed
qed simp

section \<open>Documents\<close>

definition quoted :: "string \<Rightarrow> string" where
  "quoted s = CHR 0x22 # escape s @ [CHR 0x22]"

definition int_text :: "int \<Rightarrow> string" where
  "int_text i = (if i < 0 then CHR ''-'' # decimal (nat (- i)) else decimal (nat i))"

fun sep_by :: "string list \<Rightarrow> string" where
  "sep_by [] = []"
| "sep_by [x] = x"
| "sep_by (x # y # xs) = x @ CHR '','' # sep_by (y # xs)"

fun json_text :: "json \<Rightarrow> string" where
  "json_text JNull = ''null''"
| "json_text (JBool b) = (if b then ''true'' else ''false'')"
| "json_text (JInt i) = int_text i"
| "json_text (JFloat s) = s"
| "json_text (JStr s) = quoted s"
| "json_text (JArr js) = CHR ''['' # sep_by (map json_text js) @ '']''"
| "json_text (JObj ms) = CHR ''{'' # sep_by (map (\<lambda>(k, v). quoted k @ CHR '':'' # json_text v) ms) @ ''}''"

text \<open>
  Reading. White space may stand around every token. A number is an integer unless it has a fraction or an
  exponent. Every call of the parser on a part of the input has one unit of fuel less than its caller and
  comes after at least one byte that was read, so fuel for one more than the length of the input is enough.
\<close>

definition is_ws :: "char \<Rightarrow> bool" where
  "is_ws c \<longleftrightarrow> (of_char c :: nat) \<in> {0x20, 9, 10, 13}"

definition skip_ws :: "string \<Rightarrow> string" where
  "skip_ws s = dropWhile is_ws s"

definition is_digit :: "char \<Rightarrow> bool" where
  "is_digit c \<longleftrightarrow> 48 \<le> (of_char c :: nat) \<and> (of_char c :: nat) \<le> 57"

definition digits_value :: "string \<Rightarrow> nat" where
  "digits_value ds = foldl (\<lambda>n c. 10 * n + (of_char c - 48)) 0 ds"

text \<open>The digits a string starts with, at least one, after a prefix that has been read.\<close>

definition more_digits :: "string \<Rightarrow> string \<Rightarrow> (string \<times> string) option" where
  "more_digits pre s = (if takeWhile is_digit s = [] then None else Some (pre @ takeWhile is_digit s, dropWhile is_digit s))"

definition fraction :: "string \<Rightarrow> (string \<times> string) option" where
  "fraction s = (case s of [] \<Rightarrow> Some ([], []) | c # r \<Rightarrow> if c = CHR ''.'' then more_digits [c] r else Some ([], s))"

definition exponent :: "string \<Rightarrow> (string \<times> string) option" where
  "exponent s =
     (case s of
        [] \<Rightarrow> Some ([], [])
      | c # r \<Rightarrow>
          if c = CHR ''e'' \<or> c = CHR ''E'' then
            (case r of
               [] \<Rightarrow> None
             | x # r' \<Rightarrow> if x = CHR ''+'' \<or> x = CHR ''-'' then more_digits [c, x] r' else more_digits [c] r)
          else Some ([], s))"

definition parse_number :: "string \<Rightarrow> (json \<times> string) option" where
  "parse_number s =
     (let neg = (s \<noteq> [] \<and> hd s = CHR ''-'');
          t = (if neg then tl s else s);
          ds = takeWhile is_digit t in
      if ds = [] \<or> hd ds = CHR ''0'' \<and> tl ds \<noteq> [] then None
      else
        (case fraction (dropWhile is_digit t) of
           None \<Rightarrow> None
         | Some (f, r) \<Rightarrow>
             (case exponent r of
                None \<Rightarrow> None
              | Some (e, r') \<Rightarrow>
                  if f = [] \<and> e = []
                  then Some (JInt (if neg then - int (digits_value ds) else int (digits_value ds)), r')
                  else Some (JFloat ((if neg then ''-'' else []) @ ds @ f @ e), r'))))"

fun parse_value :: "nat \<Rightarrow> string \<Rightarrow> (json \<times> string) option"
  and parse_elems :: "nat \<Rightarrow> string \<Rightarrow> (json list \<times> string) option"
  and parse_members :: "nat \<Rightarrow> string \<Rightarrow> ((string \<times> json) list \<times> string) option" where
  "parse_value 0 s = None"
| "parse_value (Suc n) s =
     (case skip_ws s of
        [] \<Rightarrow> None
      | c # r \<Rightarrow>
          if c = CHR ''{'' then
            (if take 1 (skip_ws r) = ''}'' then Some (JObj [], drop 1 (skip_ws r)) else map_option (apfst JObj) (parse_members n r))
          else if c = CHR ''['' then
            (if take 1 (skip_ws r) = '']'' then Some (JArr [], drop 1 (skip_ws r)) else map_option (apfst JArr) (parse_elems n r))
          else if c = CHR 0x22 then map_option (apfst JStr) (unquote r)
          else if take 4 (c # r) = ''null'' then Some (JNull, drop 4 (c # r))
          else if take 4 (c # r) = ''true'' then Some (JBool True, drop 4 (c # r))
          else if take 5 (c # r) = ''false'' then Some (JBool False, drop 5 (c # r))
          else parse_number (c # r))"
| "parse_elems 0 s = None"
| "parse_elems (Suc n) s =
     (case parse_value n s of
        None \<Rightarrow> None
      | Some (v, r) \<Rightarrow>
          (case skip_ws r of
             [] \<Rightarrow> None
           | c # r' \<Rightarrow>
               if c = CHR '','' then map_option (apfst ((#) v)) (parse_elems n r')
               else if c = CHR '']'' then Some ([v], r') else None))"
| "parse_members 0 s = None"
| "parse_members (Suc n) s =
     (case skip_ws s of
        [] \<Rightarrow> None
      | q # r0 \<Rightarrow>
          if q \<noteq> CHR 0x22 then None
          else
            (case unquote r0 of
               None \<Rightarrow> None
             | Some (k, r1) \<Rightarrow>
                 (case skip_ws r1 of
                    [] \<Rightarrow> None
                  | c # r2 \<Rightarrow>
                      if c \<noteq> CHR '':'' then None
                      else
                        (case parse_value n r2 of
                           None \<Rightarrow> None
                         | Some (v, r3) \<Rightarrow>
                             (case skip_ws r3 of
                                [] \<Rightarrow> None
                              | d # r4 \<Rightarrow>
                                  if d = CHR '','' then map_option (apfst ((#) (k, v))) (parse_members n r4)
                                  else if d = CHR ''}'' then Some ([(k, v)], r4) else None)))))"

definition parse_json :: "string \<Rightarrow> json option" where
  "parse_json s =
     (case parse_value (length s + 1) s of
        Some (j, r) \<Rightarrow> if skip_ws r = [] then Some j else None
      | None \<Rightarrow> None)"

section \<open>Reading what was written\<close>

lemma decimal_digits: "decimal n \<noteq> [] \<and> list_all is_digit (decimal n)"
proof (induction n rule: decimal.induct)
  case (1 n)
  have "is_digit (char_of (48 + m))" if "m < 10" for m :: nat using that by (simp add: is_digit_def)
  then show ?case by (subst (1 2) decimal.simps) (use 1 in auto)
qed

lemma digits_value_decimal: "digits_value (decimal n) = n"
proof (induction n rule: decimal.induct)
  case (1 n)
  show ?case by (subst decimal.simps) (use 1 in \<open>auto simp: digits_value_def\<close>)
qed

lemma decimal_leading: "hd (decimal n) = CHR ''0'' \<Longrightarrow> tl (decimal n) = []"
proof (induction n rule: decimal.induct)
  case (1 n)
  show ?case
  proof (cases "n < 10")
    case True
    then show ?thesis by (subst decimal.simps) simp
  next
    case False
    with 1(2) have "hd (decimal (n div 10)) = CHR ''0''"
      using decimal_digits [of "n div 10"] decimal.simps [of n] by simp
    with 1(1) False have "decimal (n div 10) = ''0''" using decimal_digits [of "n div 10"] by (cases "decimal (n div 10)") auto
    with digits_value_decimal [of "n div 10"] False show ?thesis by (simp add: digits_value_def)
  qed
qed

text \<open>What may follow a value in a flat document.\<close>

definition delim :: "string \<Rightarrow> bool" where
  "delim s \<longleftrightarrow> (\<exists>r. s = CHR '','' # r \<or> s = CHR ''}'' # r)"

lemma delim_not_digit: "delim s \<Longrightarrow> takeWhile is_digit s = [] \<and> dropWhile is_digit s = s"
  by (auto simp: delim_def is_digit_def)

lemma takeWhile_digits:
  "list_all is_digit ds \<Longrightarrow> delim s \<Longrightarrow> takeWhile is_digit (ds @ s) = ds \<and> dropWhile is_digit (ds @ s) = s"
  using delim_not_digit [of s] by (simp add: list_all_iff)

lemma parse_number_int:
  assumes "delim s"
  shows "parse_number (int_text i @ s) = Some (JInt i, s)"
proof -
  have fe: "fraction s = Some ([], s)" "exponent s = Some ([], s)"
    using assms by (auto simp: delim_def fraction_def exponent_def)
  have ds: "takeWhile is_digit (decimal n @ s) = decimal n \<and> dropWhile is_digit (decimal n @ s) = s" for n
    using takeWhile_digits [OF _ assms] decimal_digits by blast
  have nd: "decimal n @ s \<noteq> [] \<and> hd (decimal n @ s) \<noteq> CHR ''-''" for n
    using decimal_digits [of n] by (cases "decimal n") (auto simp: is_digit_def)
  show ?thesis
    using ds nd decimal_digits decimal_leading
    by (auto simp: parse_number_def int_text_def Let_def fe digits_value_decimal)
qed

fun scalar :: "json \<Rightarrow> bool" where
  "scalar (JArr js) = False"
| "scalar (JObj ms) = False"
| "scalar (JFloat s) = False"
| "scalar _ = True"

fun clean_scalar :: "json \<Rightarrow> json" where
  "clean_scalar (JStr s) = JStr (clean s)"
| "clean_scalar j = j"

lemma skip_ws_char: "\<not> is_ws c \<Longrightarrow> skip_ws (c # s) = c # s"
  by (simp add: skip_ws_def)

lemma parse_int:
  assumes "delim s"
  shows "parse_value (Suc n) (int_text i @ s) = Some (JInt i, s)"
proof -
  obtain c r where cr: "int_text i @ s = c # r" "c = CHR ''-'' \<or> is_digit c"
    using decimal_digits [of "nat i"] by (cases "i < 0"; cases "decimal (nat i)") (simp_all add: int_text_def)
  then have "\<not> is_ws c" "c \<notin> {CHR ''{'', CHR ''['', CHR 0x22, CHR ''n'', CHR ''t'', CHR ''f''}"
    by (auto simp: is_ws_def is_digit_def)
  with parse_number_int [OF assms, of i] show ?thesis by (simp add: cr(1) skip_ws_char)
qed

lemma parse_scalar:
  assumes "scalar v" and "delim s"
  shows "parse_value (Suc n) (json_text v @ s) = Some (clean_scalar v, s)"
  using assms parse_int [OF assms(2), of n] unquote_escape
  by (cases v) (auto simp: quoted_def skip_ws_def is_ws_def)

lemma parse_flat_members:
  assumes "ms \<noteq> []" and "list_all (\<lambda>(k, v). scalar v) ms" and "length ms < n"
  shows "parse_members n (sep_by (map (\<lambda>(k, v). quoted k @ CHR '':'' # json_text v) ms) @ CHR ''}'' # s) =
    Some (map (\<lambda>(k, v). (clean k, clean_scalar v)) ms, s)"
  using assms
proof (induction ms arbitrary: n)
  case (Cons m ms)
  obtain k v where m: "m = (k, v)" by (cases m)
  obtain n' where n: "n = Suc (Suc n')" using Cons.prems(3) by (cases n; cases "n - 1") auto
  have v: "scalar v" using Cons.prems(2) by (simp add: m)
  have ws: "skip_ws (c # r) = c # r" if "c \<in> {CHR 0x22, CHR '':'', CHR '','', CHR ''}''}" for c r
    using that by (auto simp: skip_ws_def is_ws_def)
  show ?case
  proof (cases ms)
    case Nil
    with parse_scalar [OF v, of "CHR ''}'' # s" n'] show ?thesis
      by (simp add: m n quoted_def ws unquote_escape delim_def)
  next
    case ms: (Cons m2 ms2)
    let ?rest = "sep_by (map (\<lambda>(k, v). quoted k @ CHR '':'' # json_text v) ms) @ CHR ''}'' # s"
    have "parse_members (Suc n') ?rest = Some (map (\<lambda>(k, v). (clean k, clean_scalar v)) ms, s)"
      using Cons.prems(2,3) by (intro Cons.IH) (simp_all add: ms m n)
    with parse_scalar [OF v, of "CHR '','' # ?rest" n'] show ?thesis
      by (simp add: m n ms quoted_def ws unquote_escape delim_def del: parse_value.simps)
  qed
qed simp

lemma sep_by_length: "length xs \<le> Suc (length (sep_by xs))"
  by (induction xs rule: sep_by.induct) simp_all

lemma parse_flat:
  assumes "ms \<noteq> []" and "list_all (\<lambda>(k, v). scalar v) ms"
  shows "parse_json (json_text (JObj ms)) = Some (JObj (map (\<lambda>(k, v). (clean k, clean_scalar v)) ms))"
proof -
  let ?t = "sep_by (map (\<lambda>(k, v). quoted k @ CHR '':'' # json_text v) ms)"
  have len: "length ms < length ?t + 2"
    using sep_by_length [of "map (\<lambda>(k, v). quoted k @ CHR '':'' # json_text v) ms"] by simp
  obtain r where r: "?t = CHR 0x22 # r"
    using assms(1) by (cases ms; cases "tl ms") (auto simp: quoted_def)
  have ws: "skip_ws (CHR ''{'' # x) = CHR ''{'' # x" "skip_ws (CHR 0x22 # x) = CHR 0x22 # x" "skip_ws [] = []" for x
    by (simp_all add: skip_ws_def is_ws_def)
  from parse_flat_members [OF assms len, of "[]"] r show ?thesis
    by (simp add: parse_json_def ws)
qed

section \<open>Stored bytes\<close>

text \<open>The bytes of a stored value, and the value that bytes are read as: a document, if they are the text of one.\<close>

definition stored_text :: "blob \<Rightarrow> string" where
  "stored_text b = (case b of Doc j \<Rightarrow> json_text j | Raw bs \<Rightarrow> map (\<lambda>w. char_of (unat w)) bs)"

definition read_blob :: "string \<Rightarrow> blob" where
  "read_blob s = (case parse_json s of Some j \<Rightarrow> Doc j | None \<Rightarrow> Raw (map (\<lambda>c. of_nat (of_char c)) s))"

lemma read_flat:
  "ms \<noteq> [] \<Longrightarrow> list_all (\<lambda>(k, v). scalar v) ms \<Longrightarrow>
     read_blob (stored_text (Doc (JObj ms))) = Doc (JObj (map (\<lambda>(k, v). (clean k, clean_scalar v)) ms))"
  using parse_flat [of ms] by (simp add: read_blob_def stored_text_def del: json_text.simps)

end
