(* ===== verification/Record_Text.thy ===== *)
theory Record_Text
  imports Platform Json_Text
begin

text \<open>
  The bytes of the stored records (\<open>internal/platform/types.go\<close> with \<open>encoding/json\<close>). The rest of the
  development keeps a stored record as the tree of its members; here the tree is written as text and read
  back, which gives the record again when its strings are valid UTF-8, and the record with U+FFFD for every
  invalid byte otherwise. The strings that reach the store are valid: the protobuf library refuses a message with
  invalid ones, and subjects come from JSON tokens.
\<close>

section \<open>Cleaned records\<close>

definition clean_User :: "User \<Rightarrow> User" where
  "clean_User u = u\<lparr>u_Subject := clean (u_Subject u), u_Email := clean (u_Email u)\<rparr>"

definition clean_Genealogy :: "Genealogy \<Rightarrow> Genealogy" where
  "clean_Genealogy g = g\<lparr>g_ID := clean (g_ID g), g_Name := clean (g_Name g), g_CreatedBy := clean (g_CreatedBy g)\<rparr>"

definition clean_Membership :: "Membership \<Rightarrow> Membership" where
  "clean_Membership m = m\<lparr>m_Subject := clean (m_Subject m), m_GenealogyID := clean (m_GenealogyID m),
     m_GrantedBy := clean (m_GrantedBy m)\<rparr>"

definition clean_Ban :: "Ban \<Rightarrow> Ban" where
  "clean_Ban b = b\<lparr>b_Subject := clean (b_Subject b), b_GenealogyID := clean (b_GenealogyID b),
     b_Reason := clean (b_Reason b), b_By := clean (b_By b)\<rparr>"

lemmas clean_defs = clean_User_def clean_Genealogy_def clean_Membership_def clean_Ban_def

lemma names_clean:
  "clean ''sub'' = ''sub''" "clean ''email'' = ''email''" "clean ''created_at'' = ''created_at''"
  "clean ''suspended'' = ''suspended''" "clean ''id'' = ''id''" "clean ''name'' = ''name''"
  "clean ''visibility'' = ''visibility''" "clean ''created_by'' = ''created_by''"
  "clean ''genealogy_id'' = ''genealogy_id''" "clean ''role'' = ''role''" "clean ''granted_by'' = ''granted_by''"
  "clean ''granted_at'' = ''granted_at''" "clean ''reason'' = ''reason''" "clean ''by'' = ''by''" "clean ''at'' = ''at''"
  by simp_all

text \<open>What is read from the bytes of a record is the tree of the cleaned record.\<close>

lemma texts_read:
  "read_blob (stored_text (MarshalUser u)) = MarshalUser (clean_User u)"
  "read_blob (stored_text (MarshalGenealogy g)) = MarshalGenealogy (clean_Genealogy g)"
  "read_blob (stored_text (MarshalMembership m)) = MarshalMembership (clean_Membership m)"
  "read_blob (stored_text (MarshalBan b)) = MarshalBan (clean_Ban b)"
  unfolding MarshalUser_def MarshalGenealogy_def MarshalMembership_def MarshalBan_def
  by (subst read_flat; simp add: opt_member_def clean_defs names_clean del: clean.simps)+

section \<open>Properties\<close>

text \<open>
  C25: the bytes of every stored record decode to the record. The text that \<open>json.Marshal\<close> writes for a user, a
  genealogy, a membership or a ban, omitted members and escapes included, is parsed and decoded by
  \<open>json.Unmarshal\<close> to the record with U+FFFD in the place of every invalid UTF-8 byte of its strings; so
  to the record itself, when its strings are valid.
\<close>

theorem record_roundtrip:
  "UnmarshalUser (read_blob (stored_text (MarshalUser u))) = Inr (clean_User u) \<and>
   UnmarshalGenealogy (read_blob (stored_text (MarshalGenealogy g))) = Inr (clean_Genealogy g) \<and>
   UnmarshalMembership (read_blob (stored_text (MarshalMembership m))) = Inr (clean_Membership m) \<and>
   UnmarshalBan (read_blob (stored_text (MarshalBan b))) = Inr (clean_Ban b) \<and>
   (list_all valid_utf8 [u_Subject u, u_Email u] \<longrightarrow> clean_User u = u) \<and>
   (list_all valid_utf8 [g_ID g, g_Name g, g_CreatedBy g] \<longrightarrow> clean_Genealogy g = g) \<and>
   (list_all valid_utf8 [m_Subject m, m_GenealogyID m, m_GrantedBy m] \<longrightarrow> clean_Membership m = m) \<and>
   (list_all valid_utf8 [b_Subject b, b_GenealogyID b, b_Reason b, b_By b] \<longrightarrow> clean_Ban b = b)"
  by (simp add: texts_read clean_defs clean_valid)

text \<open>Two concrete texts: one with escapes and a letter of two bytes, and one with an invalid byte.\<close>

definition sim_ban :: Ban where
  "sim_ban = \<lparr>b_Subject = ''bob'', b_GenealogyID = ''g1'', b_Reason = [CHR ''<'', CHR 0xC3, CHR 0xA9, CHR 0x22], b_By = ''ann'', b_At = 7\<rparr>"

lemma sim_ban_text:
  "stored_text (MarshalBan sim_ban) =
     ''{'' @ quoted ''sub'' @ '':'' @ quoted ''bob'' @ '','' @ quoted ''genealogy_id'' @ '':'' @ quoted ''g1'' @ '','' @ quoted ''reason'' @ '':'' @
     [CHR 0x22, CHR 0x5C] @ ''u003c'' @ [CHR 0xC3, CHR 0xA9, CHR 0x5C, CHR 0x22, CHR 0x22] @ '','' @
     quoted ''by'' @ '':'' @ quoted ''ann'' @ '','' @ quoted ''at'' @ '':7}''"
  by (simp add: stored_text_def MarshalBan_def sim_ban_def opt_member_def quoted_def [of "[_, _, _, _]"] escape_ascii_def
      escape_rune_def is_cont_def second_ok_def int_text_def decimal.simps hex_digit_def char_by_code)

theorem record_roundtrip_witness:
  "UnmarshalBan (read_blob (stored_text (MarshalBan sim_ban))) = Inr sim_ban \<and>
   UnmarshalBan (read_blob (stored_text (MarshalBan (sim_ban\<lparr>b_Reason := [CHR 0xC3]\<rparr>)))) = Inr (sim_ban\<lparr>b_Reason := replacement\<rparr>)"
proof -
  have "valid_utf8 ''bob''" "valid_utf8 ''g1''" "valid_utf8 ''ann''" "valid_utf8 [CHR ''<'', CHR 0xC3, CHR 0xA9, CHR 0x22]"
    "clean [CHR 0xC3] = replacement"
    by (simp_all add: second_ok_def)
  then show ?thesis
    using record_roundtrip [of User_zero Genealogy_zero Membership_zero sim_ban]
      record_roundtrip [of User_zero Genealogy_zero Membership_zero "sim_ban\<lparr>b_Reason := [CHR 0xC3]\<rparr>"]
    by (simp add: sim_ban_def clean_Ban_def clean_valid del: clean.simps valid_utf8.simps)
qed

end
