(* ===== verification/Spec2Isabelle.thy ===== *)
theory Spec2Isabelle
  imports Gateway_Local Gateway_Routes Grpc_Stubs Concurrency Ownerless Tenants_Runs Record_Text
begin

text \<open>
  \<^bold>\<open>Verification of the Linea server\<close> (Go, under \<open>src/\<close>): a multi-tenant gRPC and REST server for genealogies.
  A call passes the interceptors (logging, token verification, rate limit, coarse role, error
  translation), reaches the handler of its procedure, which asks the resolver for the caller's role in
  the genealogy, and then works on the platform database (users, genealogies, memberships, bans,
  counters) or on the store of that genealogy, which the tenant manager opens and caches. The REST
  gateway turns HTTP requests into such calls.

  \<^bold>\<open>Theories\<close>, in the order of their imports, with the sources they model:

  \<^item> \<open>Prelude\<close>: errors, outcomes of calls that may panic, byte-string functions of Go's standard library
    (\<open>TrimSpace\<close>, \<open>Split\<close>, \<open>ToLower\<close>, \<open>Quote\<close>, decimal numbers), shared lemmas. \<open>Badger\<close>: the key-value
    store as a parameter record; the locales \<open>badger_db\<close> (calls may fail, but a successful one does what it
    says) and \<open>badger_total\<close> (they succeed), interpreted on an in-memory database. \<open>Json\<close>: the stored form of
    records as trees; \<open>Json_Text\<close>: their text, with UTF-8 and escapes.
  \<^item> \<open>Platform\<close>, \<open>Platform_Laws\<close> (\<open>internal/platform/types.go\<close>, \<open>store.go\<close>): records, keys, every store operation;
    last write wins, the well-formedness of records and of both membership indices. \<open>Record_Text\<close>: the text of every
    record and what is read back from it. \<open>Counters\<close>
    (\<open>counters.go\<close>): 64-bit counters, saturating below. \<open>Quotas\<close> (\<open>internal/quotas\<close>).
  \<^item> \<open>Authz\<close> (\<open>internal/authz/resolver.go\<close>): the resolver with its cache. \<open>granted\<close> is the documented access rule
    as a function of the records; \<open>Resolve\<close> refines it. \<open>Resolve_views\<close> is the same function over two database
    states, since it reads the genealogy and the membership in two transactions; where handlers do not overlap,
    both are one (\<open>Resolve_views_same\<close>).
  \<^item> \<open>Tenants\<close> (\<open>internal/tenants/manager.go\<close>): the LRU cache of open stores. The critical sections of \<open>Get\<close>,
    \<open>Drop\<close> and \<open>Close\<close> are functions, concurrent callers are the step relation over them. \<open>Tenants_Runs\<close>: its
    infinite fair runs.
  \<^item> \<open>Proto\<close>, \<open>Core\<close>, \<open>Mappers\<close> (\<open>gen/go/linea/v1/*.pb.go\<close>, \<open>internal/service/mappers.go\<close>,
    \<open>platform_mappers.go\<close>): API messages, the graph library as a parameter, conversions.
  \<^item> \<open>Genealogies\<close>, \<open>Genealogies_Laws\<close>, \<open>Genealogies_Props\<close> (\<open>internal/service/genealogies.go\<close>): the eleven procedures of
    the genealogies service, what each does to the records, and its properties. \<open>Services\<close>,
    \<open>Services_Laws\<close> (\<open>internal/service/resolver.go\<close>, \<open>entities.go\<close>, \<open>proposals.go\<close>, \<open>queries.go\<close>, \<open>server.go\<close>): \<open>resolveStore\<close> and
    the procedures that work on a genealogy's store. \<open>Dispatch\<close> (\<open>registerServices\<close>): one constructor per
    procedure, the states calls and restarts can reach, the authorization of all procedures. \<open>API_Types\<close>: the
    well-formed messages and what each procedure promises of its response.
  \<^item> \<open>Auth\<close> (\<open>internal/auth/auth.go\<close>): identities, role claims, the verifier over a parameter for the OIDC
    library. \<open>Float64\<close>, \<open>Ratelimit\<close> (\<open>internal/ratelimit/ratelimit.go\<close>): rounding to \<open>float64\<close>, token buckets,
    the sweeper. \<open>Interceptors\<close> (\<open>internal/interceptors/interceptors.go\<close>). \<open>Env_Config\<close> (\<open>internal/config/config.go\<close>).
  \<^item> \<open>Gateway\<close> (\<open>gen/go/linea/v1/*.pb.gw.go\<close>): patterns, request functions, handlers, registration; the locale
    \<open>gateway_lib\<close> states what they rely on of the gateway's runtime library: that a request is given to a route whose
    URL template its path matches (\<open>match_path\<close>), with the components the template binds, and that a query or a nested path
    parameter does not set the genealogy. \<open>Gateway_Routes\<close>: the URL templates of the patterns.
  \<^item> \<open>Wiring\<close> (\<open>internal/server/server.go\<close>, \<open>cmd/lineasrv/main.go\<close>): the interceptor chain, construction, shutdown and
    the main function. \<open>Grpc_Stubs\<close> (\<open>gen/go/linea/v1/*_grpc.pb.go\<close>): client methods, handlers, service descriptors and
    registration; the locale \<open>grpc_conn\<close> states what a connection of the gRPC library does, interpreted on the server's own
    registered handlers. \<open>Gateway_Local\<close>: the in-process variants of the gateway's functions and their registration
    (\<open>local_request_...\<close>, \<open>Register...HandlerServer\<close>), which the program itself does not register; they have the same routes
    and make the same requests, and their calls carry no identity. \<open>Concurrency\<close>:
    handlers that overlap. \<open>Ownerless\<close>: what becomes of genealogies without Owner, and of a failed \<open>CreateGenealogy\<close>. This
    theory: the properties of the whole program.

  \<^bold>\<open>State.\<close> The record \<open>server\<close> holds what the handlers share: the database, the decision cache, the tenant
  manager and the outside state of the graph library; \<open>frontend\<close> adds the limiter and the log. An operation
  takes the state and returns the new one with an error or a value; calls into the tenant manager may also
  panic or wait for ever (\<open>outcome option\<close>). What a call reads from its surroundings (clock, fresh UUID,
  caller) is the argument \<open>callenv\<close>. A mutex makes its critical section one step. In the reachable
  states handlers run one after the other. Interleaved callers are modelled where they share more than one
  critical section: the tenant manager, the quotas (\<open>quota_run\<close>, a step relation over any number of callers), and the two
  parts of \<open>LeaveGenealogy\<close> and of \<open>Resolve\<close>, each with the lemma that the parts in sequence are the function.

  \<^bold>\<open>What is shown.\<close> From the top: responses only to verified callers with the role the records grant, over
  gRPC and over REST, from the HTTP request through the generated client and handlers, where the genealogy is the
  third component of the path; consistency of records, indices, counters, cache, quotas and limiter in every state
  of every run of \<open>running\<close>, which is over a database whose calls succeed and whose calls do not overlap, of all procedures
  with any input, except \<open>LeaveGenealogy\<close> with an id whose slash makes it spell the beginning of another membership's key; no unauthenticated access in production; resources
  released on failed starts and at the end. Below, for the components: the access rule, failing safe and
  bounded staleness of the cache; no role escalation; last Owners; exact listings; quotas; single flight,
  LRU order, bound, progress in fair runs and the termination of eviction in the tenant manager; the rate bound of
  the limiter with its rounding errors; verification of tokens against configured issuers; round trips of
  stored records; well-formed responses of every procedure; unambiguous
  routes, and client stubs that reach their procedures. Some
  theorems state behaviour that is not intended: a Curator can demote the last Owner, the last two Owners can
  leave together, a genealogy without Owner never gets one again and cannot be deleted, a failed \<open>CreateGenealogy\<close> leaves such a
  genealogy behind, \<open>n\<close> callers can pass a quota by \<open>n - 1\<close>, a removed member can keep access for one time to live, a role never granted can be handed out
  when both records change between the two readings of a lookup, a subject with a slash leaks memberships, leaving with a
  slash in the id ends somebody else's membership, a load in flight during \<open>Close\<close> panics, the log names no caller, the
  sweeper is never stopped.

  \<^bold>\<open>Bounds.\<close> 64-bit counters, 32-bit enumerations and 8-bit roles are words of their width; times of the limiter are
  integers with the saturation of \<open>Duration\<close> written out, its token counts are rationals rounded after
  every operation as \<open>float64\<close> (without subnormal and infinite values, which its configuration excludes). All
  loops are total functions; no fuel is used.

  \<^bold>\<open>Not modelled\<close>: the third-party code (Badger, the graph library Linea-core, OIDC, gRPC, the gateway's runtime
  library), which is a parameter; the wire format of the API messages; the \<open>Unimplemented...Server\<close> defaults of the stubs, which no
  registered service uses; \<open>main\<close>'s exit status; durations in log lines; response metadata, as the headers and trailers that the
  in-process gateway joins to its answers; that \<open>Allow\<close> reads the clock before it takes its lock, so that the readings of overlapping
  calls may come out of order (here they are in order); other interleavings of handlers than the
  ones above. Stored records are trees whose strings are kept, which is what reading back their text gives when the strings are
  valid UTF-8 (\<open>Record_Text\<close>), as those of requests and of token claims are: the protobuf and JSON libraries admit no others.
\<close>

section \<open>The server from end to end\<close>

lemma unary_authorized:
  assumes "badger_db (dp_badger D) kv tkv" and "platform_wf (kv (sv_db (fe_inner s)))"
    and "coherent (kv (sv_db (fe_inner s))) (sv_cache (fe_inner s))"
    and "unary C D X (Some v) ver q now r ctx s = Some (Ret (Inr x, s'))" and "r \<noteq> Server_Version"
  shows "\<exists>i. bearerToken (ctx_md ctx) \<noteq> [] \<and> VerifyToken X v (bearerToken (ctx_md ctx)) = Inr i \<and>
    (\<forall>mn. buildLegacyRoleMap (FullMethod r) = Some mn \<longrightarrow> mn \<le> id_Role i) \<and>
    (\<forall>gid role. required r = Some (gid, role) \<longrightarrow>
       authorized kv (q\<lparr>q_Subject := id_Subject i\<rparr>) gid role (submits r) (fe_inner s))"
proof -
  from unary_Ret [OF assms(4,5)] obtain i s1 s2 where
    i: "bearerToken (ctx_md ctx) \<noteq> []" "VerifyToken X v (bearerToken (ctx_md ctx)) = Inr i"
      "\<forall>mn. buildLegacyRoleMap (FullMethod r) = Some mn \<longrightarrow> mn \<le> id_Role i" and s1: "fe_inner s1 = fe_inner s"
    and run: "ErrorInterceptor (Error_String C) (FullMethod r) (procedure C D ver q r) (WithIdentity ctx i) s1 = Some (Ret (Inr x, s2))"
    by blast
  have id: "IdentityOf (WithIdentity ctx i) = i" by (simp add: IdentityOf_def WithIdentity_def)
  from run obtain inner where sv: "serve C D ver (q\<lparr>q_Subject := id_Subject i\<rparr>) r (fe_inner s) = Some (Ret (Inr x, inner))"
    unfolding ErrorInterceptor_Inr procedure_Ret id s1 by blast
  have "authorized kv (q\<lparr>q_Subject := id_Subject i\<rparr>) gid role (submits r) (fe_inner s)"
    if "required r = Some (gid, role)" for gid role
    by (rule serve_authorized_rule [OF assms(1-3) sv that])
  with i show ?thesis by blast
qed


lemma sim_answer:
  "front_responds (unary sim_core sim_deps sim_oidc (Some sim_verifier) ''v1'' (sim_call []) 0 sim_list sim_ctx (sim_frontend sim_owned))"
  by code_simp


text \<open>
  C16: no way around authentication in production. A program that starts with \<open>LINEA_ENV\<close> set to
  \<open>production\<close>, in any spelling of its letters, has a verifier for the configured issuers, and every
  call without a bearer token, \<open>Version\<close> excepted, gets \<open>Unauthenticated\<close>, whatever the state, and
  touches neither the stored data nor the limiter.
\<close>

theorem production_requires_token:
  fixes srv :: "('db, 'h, 'prov) Server" and s :: "('db, 'h, 'fs) server frontend"
  assumes "start H env = (Inr srv, res)" and "EqualFold (os_Getenv env ''LINEA_ENV'') ''production''"
    and "bearerToken (ctx_md ctx) = []" and "r \<noteq> Server_Version"
  shows "(\<exists>cfg v. FromEnv env = Inr cfg \<and> NewVerifier (oidc_lib H) (auth_config_of cfg) = Inr v \<and> srv_verifier srv = Some v) \<and>
    (\<exists>s'. unary C D (oidc_lib H) (srv_verifier srv) ver q now r ctx s =
       Some (Ret (Inl (StatusError Unauthenticated ''missing bearer token''), s')) \<and>
       fe_inner s' = fe_inner s \<and> fe_limiter s' = fe_limiter s)"
proof -
  from start_Inr [OF assms(1)] assms(2) obtain cfg where cfg: "FromEnv env = Inr cfg" "server_New H cfg = (Inr srv, res)"
    "\<not> AuthDisabled cfg" by blast
  with server_New_Inr [OF cfg(2)] obtain v where v: "NewVerifier (oidc_lib H) (auth_config_of cfg) = Inr v" "srv_verifier srv = Some v"
    by auto
  have "\<not> noAuth (FullMethod r)" using assms(4) by (simp add: noAuth_iff)
  then have "\<exists>s'. unary C D (oidc_lib H) (Some v) ver q now r ctx s =
      Some (Ret (Inl (StatusError Unauthenticated ''missing bearer token''), s')) \<and> fe_inner s' = fe_inner s \<and> fe_limiter s' = fe_limiter s"
    using assms(3) by (simp add: unary_def Let_def LoggingInterceptor_def AuthInterceptor_def)
  with cfg(1) v show ?thesis by auto
qed

definition sim_production :: environ where
  "sim_production = sim_env(''LINEA_ENV'' \<mapsto> ''Production'')"

definition started :: "(err + ('db, 'h, 'prov) Server) \<times> resource set \<Rightarrow> bool" where
  "started r = (case r of (Inr _, _) \<Rightarrow> True | _ \<Rightarrow> False)"

lemma startedE: "started r \<Longrightarrow> (\<And>srv res. r = (Inr srv, res) \<Longrightarrow> P) \<Longrightarrow> P"
  by (auto simp: started_def split: prod.splits sum.splits)

lemma sim_started: "started (start sim_host sim_production :: (err + (memdb, string, string) Server) \<times> resource set)"
  by code_simp

theorem production_requires_token_witness:
  "\<exists>(srv :: (memdb, string, string) Server) res v. start sim_host sim_production = (Inr srv, res) \<and> srv_verifier srv = Some v \<and>
     (\<exists>s'. unary sim_core sim_deps sim_oidc (Some v) ''v1'' (sim_call []) 0 sim_list (sim_ctx\<lparr>ctx_md := (\<lambda>_. [])\<rparr>) (sim_frontend sim_owned) =
        Some (Ret (Inl (StatusError Unauthenticated ''missing bearer token''), s')))"
proof -
  from sim_started obtain srv :: "(memdb, string, string) Server" and res where st: "start sim_host sim_production = (Inr srv, res)"
    by (rule startedE)
  have e: "EqualFold (os_Getenv sim_production ''LINEA_ENV'') ''production''" by code_simp
  have t: "bearerToken (ctx_md (sim_ctx\<lparr>ctx_md := (\<lambda>_. [])\<rparr>)) = []" by (simp add: bearerToken_def)
  have h: "oidc_lib sim_host = sim_oidc" by (simp add: sim_host_def)
  have "sim_list \<noteq> Server_Version" by (simp add: sim_list_def)
  from production_requires_token [OF st e t this, where C = sim_core and D = sim_deps and ver = "''v1''" and q = "sim_call []"
      and now = 0 and s = "sim_frontend sim_owned"] st show ?thesis unfolding h by auto
qed

text \<open>
  A server in operation whose calls do not overlap. The program starts on an empty database, or later on the one an earlier run
  left; it handles calls (\<open>call_ok\<close> says which) one after the other, with the clock's readings in order, and its limiter is
  swept at any moment. The index is the started server and the last reading of the clock.
\<close>

inductive running ::
  "('fs, 'h, 'rtx, 'wtx, 'path, 'anc) core \<Rightarrow> ('db, 'tx) badger \<Rightarrow> ('fs, 'h) corefs \<Rightarrow> ('db \<Rightarrow> string \<Rightarrow> blob option) \<Rightarrow> string \<Rightarrow>
   ('db, 'prov, 'tok) host \<Rightarrow> ('db, 'h, 'prov) Server \<Rightarrow> int \<Rightarrow> ('db, 'h, 'fs) server frontend \<Rightarrow> bool" for C B F kv ver where
  first_start: "start H env = (Inr srv, res) \<Longrightarrow> srv_platform srv = Some db \<Longrightarrow> kv db = Map.empty \<Longrightarrow>
    running C B F kv ver H srv t (frontend_of srv db fs)"
| next_start: "running C B F kv ver H0 srv0 t0 s \<Longrightarrow> start H env = (Inr srv, res) \<Longrightarrow> srv_platform srv = Some db \<Longrightarrow>
    kv db = kv (sv_db (fe_inner s)) \<Longrightarrow> running C B F kv ver H srv t (frontend_of srv db fs)"
| handle: "running C B F kv ver H srv t s \<Longrightarrow> t \<le> now \<Longrightarrow> ctx_Identity ctx = None \<Longrightarrow> call_ok kv q r (fe_inner s) \<Longrightarrow>
    unary C (deps_of B F srv) (oidc_lib H) (srv_verifier srv) ver q now r ctx s = Some (Ret (x, s')) \<Longrightarrow>
    running C B F kv ver H srv now s'"
| sweep: "running C B F kv ver H srv t s \<Longrightarrow> t \<le> now \<Longrightarrow>
    running C B F kv ver H srv now (s\<lparr>fe_limiter := sweep_tick now (fe_limiter s)\<rparr>)"

lemma system_ok_started:
  "system_ok L kv s0 \<Longrightarrow> kv db = kv (sv_db s0) \<Longrightarrow>
     system_ok L kv \<lparr>sv_db = db, sv_cache = NewResolver ttl, sv_mgr = mgr, sv_fs = fs\<rparr>"
  by (simp add: system_ok_def server_ok_def)

lemma system_ok_boot:
  "kv db = Map.empty \<Longrightarrow> system_ok L kv \<lparr>sv_db = db, sv_cache = NewResolver ttl, sv_mgr = mgr, sv_fs = fs\<rparr>"
  by (simp add: system_ok_def server_ok_def platform_wf_empty counters_wf_empty quota_exact_def quota_within_def
      person_within_def private_of_def lookup_def counter_at_def counter_of_def)

lemma call_ok_subject [simp]: "call_ok kv (q\<lparr>q_Subject := sub\<rparr>) r s = call_ok kv q r s"
  by (cases r) simp_all

lemma running_ok:
  assumes "badger_total B kv tkv" and "running C B F kv ver H srv t s"
  shows "system_ok Default kv (fe_inner s) \<and> rl_ok t (fe_limiter s) \<and> srv_limits srv = Default"
  using assms(2)
proof (induction rule: running.induct)
  case (first_start H env srv res db t fs)
  then show ?case using start_state [OF first_start(1)] by (simp add: frontend_of_def system_ok_boot server_bucket_ok)
next
  case (next_start H0 srv0 t0 s H env srv res db t fs)
  then show ?case
    using start_state [OF next_start(2)] system_ok_started [of Default kv "fe_inner s" db]
    by (simp add: frontend_of_def server_bucket_ok)
next
  case (handle H srv t s now ctx q r x s')
  let ?D = "deps_of B F srv"
  have D: "dp_limits ?D = Default" "dp_badger ?D = B" using handle.IH by (simp_all add: deps_of_def)
  have lim: "MaxPrivateGenealogiesPerUser (dp_limits ?D) \<noteq> 0" "MaxPersonsPerGenealogy (dp_limits ?D) \<noteq> 0"
    unfolding D by (simp_all add: Default_def)
  note eff = unary_effect [OF handle.hyps(5)]
  have "system_ok Default kv (fe_inner s')"
  proof (cases "fe_inner s' = fe_inner s")
    case False
    with eff obtain sub y where "serve C ?D ver (q\<lparr>q_Subject := sub\<rparr>) r (fe_inner s) = Some (Ret (y, fe_inner s'))"
      by (auto simp: inner_effect_def)
    from serve_ok [OF _ _ lim _ this] show ?thesis using assms(1) handle.IH handle.hyps(4) by (simp add: D)
  qed (use handle.IH in simp)
  moreover have "rl_ok now (fe_limiter s')"
    using eff handle.IH handle.hyps(2) rl_ok_Allow rl_ok_later by metis
  ultimately show ?case using handle.IH by simp
next
  case (sweep H srv t s now)
  then show ?case using rl_ok_sweep [OF rl_ok_later [of t "fe_limiter s" now]] by simp
qed

text \<open>
  C2: handling its calls one after the other, the program keeps its data consistent and its limits. The runs
  are those of \<open>running\<close>: over a database whose calls succeed, any number of restarts, sweeps,
  and calls of every procedure with any token, each finished before the next one starts. Two of the inputs of
  a call are restricted: a new genealogy gets an unused id without slash, as UUIDs are, and the id a client
  gives to \<open>LeaveGenealogy\<close> may have slashes unless it spells the beginning of the key of a
  membership, since that call breaks the indices (\<open>LeaveGenealogy_crosses\<close>). What else becomes
  possible when calls overlap or when the database fails is stated by \<open>quotas_overshoot_exactly\<close>,
  \<open>all_owners_can_leave\<close>, \<open>removed_member_keeps_access\<close> and
  \<open>failed_create_leftovers\<close>. In every state of such a run: the records, indices and counters in
  the database are consistent, every cached decision is what the records grant, no user has more than five
  private genealogies and no genealogy more than a thousand counted persons, and every bucket of the limiter
  holds between zero and its capacity in tokens.
\<close>

theorem running_keeps_invariants:
  assumes "badger_total B kv tkv" and "running C B F kv ver H srv t s"
  shows "server_ok kv (fe_inner s) \<and> quota_exact (kv (sv_db (fe_inner s))) \<and>
    (\<forall>u. card (private_of (kv (sv_db (fe_inner s))) u) \<le> 5) \<and>
    (\<forall>gid. unat (counter_at (kv (sv_db (fe_inner s))) (personCountKey gid)) \<le> 1000) \<and> rl_ok t (fe_limiter s)"
proof -
  from running_ok [OF assms] have ok: "system_ok Default kv (fe_inner s)" "rl_ok t (fe_limiter s)" by simp_all
  have "card (private_of (kv (sv_db (fe_inner s))) u) \<le> 5" for u
    using ok(1) by (simp add: system_ok_def quota_exact_def quota_within_def Default_def word_le_nat_alt)
  moreover have "unat (counter_at (kv (sv_db (fe_inner s))) (personCountKey gid)) \<le> 1000" for gid
    using ok(1) by (simp add: system_ok_def person_within_def Default_def word_le_nat_alt)
  ultimately show ?thesis using ok by (simp add: system_ok_def)
qed

text \<open>
  C40: the log of the program names no caller. \<open>LoggingInterceptor\<close> is the outermost interceptor and
  reads the identity from its own context, to which no inner interceptor can attach one: whoever
  calls, the line has an empty subject and the role \<open>None\<close>, also for calls that carried a valid token.
\<close>

theorem log_names_no_caller:
  assumes "unary C D X verifier ver q now r ctx s = Some (Ret (x, s'))" and "ctx_Identity ctx = None"
  shows "fe_log s' = fe_log s @ [\<lparr>l_method = FullMethod r, l_subject = [], l_role = ''None'',
    l_code = (case x of Inl e \<Rightarrow> Some (status_Code e) | Inr _ \<Rightarrow> None)\<rparr>]"
  using unary_effect [OF assms(1)] assms(2)
  by (simp add: log_line_def IdentityOf_def Identity_zero_def auth_Role_String_def)

theorem log_names_no_caller_witness:
  "\<exists>x s'. unary sim_core sim_deps sim_oidc (Some sim_verifier) ''v1'' (sim_call []) 0 sim_list sim_ctx (sim_frontend sim_owned) =
       Some (Ret (Inr x, s')) \<and>
     fe_log s' = [\<lparr>l_method = ''/linea.v1.Genealogies/ListMembers'', l_subject = [], l_role = ''None'', l_code = None\<rparr>]"
proof -
  from sim_answer obtain x s' where run: "unary sim_core sim_deps sim_oidc (Some sim_verifier) ''v1'' (sim_call []) 0 sim_list sim_ctx
      (sim_frontend sim_owned) = Some (Ret (Inr x, s'))" by (rule front_respondsE)
  have "ctx_Identity sim_ctx = None" "fe_log (sim_frontend sim_owned) = []" "FullMethod sim_list = ''/linea.v1.Genealogies/ListMembers''"
    by (simp_all add: sim_ctx_def sim_frontend_def sim_list_def)
  with log_names_no_caller [OF run] run show ?thesis by auto
qed

definition sim_srv :: "(memdb, string, string) Server" where
  "sim_srv = (case start sim_host sim_production of (Inr srv, _) \<Rightarrow> srv)"

definition sim_new :: rpc where
  "sim_new = Genealogies_CreateGenealogy sim_create"

lemma sim_srv_start: "\<exists>res. start sim_host sim_production = (Inr sim_srv, res)"
  using sim_started by (auto simp: started_def sim_srv_def split: prod.splits sum.splits)

lemma sim_first_call:
  "front_responds (unary sim_core (deps_of mem_badger sim_fs sim_srv) sim_oidc (srv_verifier sim_srv) ''v1'' (sim_call []) 7 sim_new sim_ctx
     (frontend_of sim_srv [] []))"
  by code_simp

theorem running_keeps_invariants_witness:
  "\<exists>x s'. unary sim_core (deps_of mem_badger sim_fs sim_srv) sim_oidc (srv_verifier sim_srv) ''v1'' (sim_call []) 7 sim_new sim_ctx
       (frontend_of sim_srv [] []) = Some (Ret (Inr x, s')) \<and>
     server_ok map_of (fe_inner s') \<and> card (private_of (map_of (sv_db (fe_inner s'))) sim_owner) \<le> 5"
proof -
  from sim_first_call obtain x s' where run: "unary sim_core (deps_of mem_badger sim_fs sim_srv) sim_oidc (srv_verifier sim_srv) ''v1''
      (sim_call []) 7 sim_new sim_ctx (frontend_of sim_srv [] []) = Some (Ret (Inr x, s'))" by (rule front_respondsE)
  from sim_srv_start obtain res where st: "start sim_host sim_production = (Inr sim_srv, res)" by blast
  from start_Inr [OF st] server_New_Inr have p: "srv_platform sim_srv = Some []" by (fastforce simp: sim_host_def)
  have first: "running sim_core mem_badger sim_fs map_of ''v1'' sim_host sim_srv 0 (frontend_of sim_srv [] [])"
    using st p by (rule running.first_start) simp
  have "running sim_core mem_badger sim_fs map_of ''v1'' sim_host sim_srv 7 s'"
    by (rule running.handle [OF first, where ctx = sim_ctx and q = "sim_call []" and r = sim_new and x = "Inr x"])
      (use run in \<open>simp_all add: sim_ctx_def sim_new_def sim_call_def slash_free_def frontend_of_def sim_host_def\<close>)
  from running_keeps_invariants [OF _ this] sim_total run show ?thesis by (auto simp: sim_deps_def)
qed

section \<open>The REST interface\<close>

text \<open>
  C3: the genealogy of a REST call is the one in its URL. When a started server with authentication,
  whose gateway calls its own gRPC services through the generated clients and handlers,
  answers an HTTP request with a message, the path of the request matches the URL template of a route,
  and the call made was of the procedure of that route with the parameters of that match; unless it was a call of \<open>Version\<close>,
  its token was verified; and if the procedure needs a role, it needs it in the genealogy that is the third
  component of the path, after \<open>/v1/g/\<close> or \<open>/v1/genealogies/\<close>, whatever the body and the query say, and the records grant it there.
\<close>

theorem rest_response_authorized:
  assumes "gateway_lib rt G" and "badger_db (dp_badger D) kv tkv" and "platform_wf (kv (sv_db (fe_inner s)))"
    and "coherent (kv (sv_db (fe_inner s))) (sv_cache (fe_inner s))"
    and "start H env = (Inr srv, res)" and "srv_verifier srv = Some v"
    and "connected cc st C D (oidc_lib H) (srv_verifier srv) ver q now"
    and "http_serve rt G (client cc) srv req s = Some (Ret (Inr (Forward x), s'))"
  shows "\<exists>ro ps ctx r. ro \<in> set routes \<and> match_path (ro_pattern ro) (path_components req) = Some ps \<and>
    ro_request ro rt G req ps = Inr r \<and> FullMethod r = ro_name ro \<and> rt_AnnotateContext rt req (ro_name ro) = Inr ctx \<and>
    (r = Server_Version \<or>
     (\<exists>i. VerifyToken (oidc_lib H) v (bearerToken (ctx_md ctx)) = Inr i \<and>
        (\<forall>gid role. required r = Some (gid, role) \<longrightarrow> gid = path_components req ! 2 \<and>
           authorized kv (q\<lparr>q_Subject := id_Subject i\<rparr>) gid role (submits r) (fe_inner s))))"
proof -
  have "srv_mux srv = routes" using start_state [OF assms(5)] by simp
  with assms(8) have "rest_serve rt G routes (client cc) req s = Some (Ret (Forward x, s'))"
    by (auto simp: http_serve_def map_outcome_Ret split: http_reply.splits)
  from gateway_lib.rest_serve_Forward [OF assms(1) this] obtain ro ps ctx r where ro: "ro \<in> set routes"
    "match_path (ro_pattern ro) (path_components req) = Some ps" "rt_AnnotateContext rt req (ro_name ro) = Inr ctx"
    "ro_request ro rt G req ps = Inr r" and cl: "client cc r ctx s = Some (Ret (Inr x, s'))" by blast
  have run: "unary C D (oidc_lib H) (Some v) ver q now r ctx s = Some (Ret (Inr x, s'))"
    using connected_Inr [OF assms(7) cl] by (simp add: assms(6))
  have name: "FullMethod r = ro_name ro" using call_of_route [OF ro(1,4)] .
  show ?thesis
  proof (cases "r = Server_Version")
    case False
    from unary_authorized [OF assms(2-4) run False] obtain i where
      i: "VerifyToken (oidc_lib H) v (bearerToken (ctx_md ctx)) = Inr i"
      and auth: "\<forall>gid role. required r = Some (gid, role) \<longrightarrow>
        authorized kv (q\<lparr>q_Subject := id_Subject i\<rparr>) gid role (submits r) (fe_inner s)" by blast
    have "\<forall>gid role. required r = Some (gid, role) \<longrightarrow> gid = path_components req ! 2"
      using gateway_lib.genealogy_component [OF assms(1) ro(1,4,2)] by blast
    with ro name i auth show ?thesis by blast
  qed (use ro name in blast)
qed

definition forwards :: "((http_reply + http_answer) \<times> 's frontend) outcome option \<Rightarrow> bool" where
  "forwards h = (case h of Some (Ret (Inr (Forward _), _)) \<Rightarrow> True | _ \<Rightarrow> False)"

lemma forwardsE: "forwards h \<Longrightarrow> (\<And>x s. h = Some (Ret (Inr (Forward x), s)) \<Longrightarrow> P) \<Longrightarrow> P"
  by (auto simp: forwards_def split: option.splits outcome.splits sum.splits prod.splits http_answer.split_asm)

lemma sim_trim: "TrimSpace ''good'' = ''good''"
  by code_simp

lemma sim_srv_verifier: "srv_verifier sim_srv \<noteq> None"
  by code_simp

definition sim_conn :: "(memdb, string, Proposal list) server conn" where
  "sim_conn = loopback id (procedure sim_core sim_deps ''v1'' (sim_call [])) (chain sim_core (oidc_lib sim_host) (srv_verifier sim_srv) 0)"

lemma sim_connected: "connected sim_conn id sim_core sim_deps (oidc_lib sim_host) (srv_verifier sim_srv) ''v1'' (sim_call []) 0"
  unfolding sim_conn_def by (rule loop.grpc_conn_axioms)

lemma sim_rest:
  "forwards (http_serve sim_runtime sim_gateway (client sim_conn) sim_srv sim_request (sim_frontend sim_owned))"
  by code_simp

theorem rest_response_authorized_witness:
  "\<exists>(ro :: route) ps r. match_path (ro_pattern ro) [''v1'', ''genealogies'', ''g2'', ''members''] = Some ps \<and>
     ro_request ro sim_runtime sim_gateway sim_request ps = Inr r \<and>
     (r = Server_Version \<or> (\<exists>i. VerifyToken sim_oidc (the (srv_verifier sim_srv)) ''good'' = Inr i))"
proof -
  from sim_rest obtain x s' where run: "http_serve sim_runtime sim_gateway (client sim_conn) sim_srv sim_request
      (sim_frontend sim_owned) = Some (Ret (Inr (Forward x), s'))" by (rule forwardsE)
  from sim_srv_start obtain res where st: "start sim_host sim_production = (Inr sim_srv, res)" by blast
  have v: "srv_verifier sim_srv = Some (the (srv_verifier sim_srv))" by (simp add: sim_srv_verifier)
  note r = rest_response_authorized [OF sim_gw.gateway_lib_axioms badger_total.axioms(1) [OF sim_total] sim_owned_ok st v sim_connected run]
  have "bearerToken (ctx_md ctx) = ''good''" if "rt_AnnotateContext sim_runtime sim_request m = Inr ctx" for m ctx
    using that by (auto simp: sim_runtime_def sim_request_def bearerToken_def sim_trim)
  moreover have "oidc_lib sim_host = sim_oidc" by (simp add: sim_host_def)
  moreover have "path_components sim_request = [''v1'', ''genealogies'', ''g2'', ''members'']" by code_simp
  moreover from r obtain ro :: route and ps ctx c where "match_path (ro_pattern ro) (path_components sim_request) = Some ps"
    "ro_request ro sim_runtime sim_gateway sim_request ps = Inr c"
    "rt_AnnotateContext sim_runtime sim_request (ro_name ro) = Inr ctx"
    "c = Server_Version \<or> (\<exists>i. VerifyToken (oidc_lib sim_host) (the (srv_verifier sim_srv)) (bearerToken (ctx_md ctx)) = Inr i)"
    by blast
  ultimately show ?thesis by auto
qed

end
